(* ===== verification/Oclob_Prelude.thy ===== *)
theory Oclob_Prelude
  imports "HOL-Library.Word" "HOL-Library.Multiset" "HOL-Library.Product_Lexorder"
begin

text \<open>
  The vocabulary the components share. Rust's fixed-width integers are words (release
  arithmetic: \<open>+\<close>, \<open>-\<close> and \<open>*\<close> wrap, the \<open>checked_\<close> operations return \<open>None\<close> on
  overflow, the \<open>saturating_\<close> ones clamp); \<open>Result\<close> is a sum with the error on the left and
  the question-mark operator is \<open>andThen\<close>; a \<open>BTreeMap\<close> is an association list with
  strictly ascending keys, which is also its iteration order. The interface of the ordered
  map is the locale \<open>ordered_map\<close>, and the association list is shown to provide it.
\<close>

section \<open>Machine integers and digests\<close>

type_synonym u8 = "8 word"
type_synonym u16 = "16 word"
type_synonym u64 = "64 word"

text \<open>A 32-byte digest is a 256-bit word, read big-endian: the lexicographic order of the
  byte arrays is the numeric order of the words, and the all-zero array is \<open>0\<close>.\<close>

type_synonym Digest32 = "256 word"

text \<open>A Rust \<open>String\<close> or \<open>&str\<close> is its sequence of UTF-8 bytes; \<open>len()\<close> counts bytes.\<close>

type_synonym rust_str = "u8 list"

definition bytes_of :: "string \<Rightarrow> u8 list" where
  "bytes_of s = map of_char s"

definition u64_max :: u64 where
  "u64_max = - 1"

definition checked_add :: "'a::len word \<Rightarrow> 'a word \<Rightarrow> 'a word option" where
  "checked_add a b = (if unat a + unat b < 2 ^ LENGTH('a) then Some (a + b) else None)"

definition checked_sub :: "'a::len word \<Rightarrow> 'a word \<Rightarrow> 'a word option" where
  "checked_sub a b = (if b \<le> a then Some (a - b) else None)"

definition checked_mul :: "'a::len word \<Rightarrow> 'a word \<Rightarrow> 'a word option" where
  "checked_mul a b = (if unat a * unat b < 2 ^ LENGTH('a) then Some (a * b) else None)"

definition saturating_sub :: "'a::len word \<Rightarrow> 'a word \<Rightarrow> 'a word" where
  "saturating_sub a b = (if b \<le> a then a - b else 0)"

definition saturating_add :: "'a::len word \<Rightarrow> 'a word \<Rightarrow> 'a word" where
  "saturating_add a b = (case checked_add a b of Some c \<Rightarrow> c | None \<Rightarrow> - 1)"

text \<open>Rust's \<open>is_multiple_of\<close>: a multiple of zero is zero only.\<close>

definition is_multiple_of :: "'a::len word \<Rightarrow> 'a word \<Rightarrow> bool" where
  "is_multiple_of a b \<longleftrightarrow> (if b = 0 then a = 0 else a mod b = 0)"

lemma unat_min [simp]: "unat (min a b) = min (unat a) (unat (b::'a::len word))"
  by (simp add: min_def word_le_nat_alt)

lemma unat_diff: "b \<le> a \<Longrightarrow> unat (a - b) = unat a - unat (b::'a::len word)"
  by (rule unat_sub)

lemma unat_add_bounded:
  "unat a + unat b < 2 ^ LENGTH('a) \<Longrightarrow> unat (a + b) = unat a + unat (b::'a::len word)"
  by (simp add: unat_word_ariths)

lemma unat_mult_bounded:
  "unat a * unat b < 2 ^ LENGTH('a) \<Longrightarrow> unat (a * b) = unat a * unat (b::'a::len word)"
  by (simp add: unat_word_ariths)

lemma checked_add_Some:
  "checked_add a b = Some c \<longleftrightarrow> c = a + b \<and> unat a + unat b < 2 ^ LENGTH('a)"
  for a b c :: "'a::len word"
  by (auto simp: checked_add_def)

lemma checked_add_SomeD: "checked_add a b = Some c \<Longrightarrow> unat c = unat a + unat b"
  by (auto simp: checked_add_Some unat_add_bounded)

lemma checked_sub_Some: "checked_sub a b = Some c \<longleftrightarrow> c = a - b \<and> b \<le> a"
  by (auto simp: checked_sub_def)

lemma checked_mul_Some:
  "checked_mul a b = Some c \<longleftrightarrow> c = a * b \<and> unat a * unat b < 2 ^ LENGTH('a)"
  for a b c :: "'a::len word"
  by (auto simp: checked_mul_def)

lemma checked_mul_SomeD: "checked_mul a b = Some c \<Longrightarrow> unat c = unat a * unat b"
  by (auto simp: checked_mul_Some unat_mult_bounded)

lemma word_gt_0_unat: "(0 < w) = (0 < unat (w::'a::len word))"
  by (simp add: word_less_nat_alt)

lemma word_zero_unat: "(w = 0) = (unat (w::'a::len word) = 0)"
  by (simp add: unat_eq_0)

lemma word_eq_unat: "(v = w) = (unat v = unat (w::'a::len word))"
  using unsigned_word_eqI by auto

lemma unat_u64_less: "unat (w::u64) < 2 ^ 64"
  by (rule order_less_le_trans [OF unsigned_less]) simp

lemma word_less_Suc_unat:
  assumes "s \<noteq> - 1"
  shows "unat (s + 1) = unat s + 1" and "s < s + (1::'a::len word)"
proof -
  have "unat s \<noteq> unat (- 1 :: 'a word)"
    using assms unsigned_word_eqI by blast
  moreover have "unat (- 1 :: 'a word) = 2 ^ LENGTH('a) - 1"
    by (simp add: unsigned_minus_1_eq_mask mask_eq_exp_minus_1)
  moreover have "unat s < 2 ^ LENGTH('a)"
    by (rule unsigned_less)
  ultimately have "unat s + 1 < 2 ^ LENGTH('a)"
    by linarith
  then show "unat (s + 1) = unat s + 1"
    by (simp add: unat_word_ariths)
  then show "s < s + 1"
    by (simp add: word_less_nat_alt)
qed

section \<open>Results\<close>

definition andThen :: "'e + 'a \<Rightarrow> ('a \<Rightarrow> 'e + 'b) \<Rightarrow> 'e + 'b" where
  "andThen r k = (case r of Inl e \<Rightarrow> Inl e | Inr x \<Rightarrow> k x)"

definition ok_or :: "'a option \<Rightarrow> 'e \<Rightarrow> 'e + 'a" where
  "ok_or x e = (case x of None \<Rightarrow> Inl e | Some y \<Rightarrow> Inr y)"

definition map_err :: "('e \<Rightarrow> 'f) \<Rightarrow> 'e + 'a \<Rightarrow> 'f + 'a" where
  "map_err f r = (case r of Inl e \<Rightarrow> Inl (f e) | Inr x \<Rightarrow> Inr x)"

text \<open>A guard clause: \<open>if c { return Err(e) }\<close>.\<close>

definition fail_if :: "bool \<Rightarrow> 'e \<Rightarrow> 'e + unit" where
  "fail_if c e = (if c then Inl e else Inr ())"

lemma andThen_simps [simp]:
  "andThen (Inl e) k = Inl e" "andThen (Inr x) k = k x"
  by (simp_all add: andThen_def)

lemma andThen_eq_Inr: "andThen r k = Inr y \<longleftrightarrow> (\<exists>x. r = Inr x \<and> k x = Inr y)"
  by (cases r) auto

lemma andThen_eq_Inl:
  "andThen r k = Inl e \<longleftrightarrow> r = Inl e \<or> (\<exists>x. r = Inr x \<and> k x = Inl e)"
  by (cases r) auto

lemma andThen_assoc: "andThen (andThen r k) h = andThen r (\<lambda>x. andThen (k x) h)"
  by (cases r) auto

lemma ok_or_simps [simp]: "ok_or None e = Inl e" "ok_or (Some x) e = Inr x"
  by (simp_all add: ok_or_def)

lemma ok_or_eq_Inr: "ok_or x e = Inr y \<longleftrightarrow> x = Some y"
  by (cases x) auto

lemma ok_or_eq_Inl: "ok_or x e = Inl f \<longleftrightarrow> x = None \<and> f = e"
  by (cases x) auto

lemma map_err_simps [simp]: "map_err f (Inl e) = Inl (f e)" "map_err f (Inr x) = Inr x"
  by (simp_all add: map_err_def)

lemma map_err_eq_Inr: "map_err f r = Inr x \<longleftrightarrow> r = Inr x"
  by (cases r) auto

lemma map_err_eq_Inl: "map_err f r = Inl e \<longleftrightarrow> (\<exists>d. r = Inl d \<and> e = f d)"
  by (cases r) auto

lemma fail_if_simps [simp]: "fail_if True e = Inl e" "fail_if False e = Inr ()"
  by (simp_all add: fail_if_def)

lemma fail_if_eq_Inr: "fail_if c e = Inr u \<longleftrightarrow> \<not> c"
  by (simp add: fail_if_def)

lemma fail_if_eq_Inl: "fail_if c e = Inl f \<longleftrightarrow> c \<and> f = e"
  by (auto simp add: fail_if_def)

text \<open>Inversion of a successful or failed chain of fallible calls.\<close>

lemmas result_ok = andThen_eq_Inr ok_or_eq_Inr map_err_eq_Inr fail_if_eq_Inr
  checked_add_Some checked_sub_Some checked_mul_Some
lemmas result_err = andThen_eq_Inl ok_or_eq_Inl map_err_eq_Inl fail_if_eq_Inl

text \<open>A method on \<open>&mut self\<close> that may fail is a function to the result and the state it leaves;
  \<open>guarded\<close> is the question-mark operator in such a method: the error is returned with the state
  reached so far.\<close>

definition guarded :: "'e + 'a \<Rightarrow> 's \<Rightarrow> ('a \<Rightarrow> ('e + 'b) \<times> 's) \<Rightarrow> ('e + 'b) \<times> 's" where
  "guarded r s k = (case r of Inl e \<Rightarrow> (Inl e, s) | Inr x \<Rightarrow> k x)"

lemma guarded_simps [simp]: "guarded (Inl e) s k = (Inl e, s)" "guarded (Inr x) s k = k x"
  by (simp_all add: guarded_def)

lemma guarded_ok: "guarded r s k = (Inr y, s') \<longleftrightarrow> (\<exists>x. r = Inr x \<and> k x = (Inr y, s'))"
  by (cases r) auto

lemma guarded_err:
  "guarded r s k = (Inl e, s') \<longleftrightarrow> r = Inl e \<and> s' = s \<or> (\<exists>x. r = Inr x \<and> k x = (Inl e, s'))"
  by (cases r) auto

text \<open>\<open>try_fold(0, |total, x| total.checked_add(x))\<close>.\<close>

definition checked_sum :: "'a::len word list \<Rightarrow> 'a word option" where
  "checked_sum xs = foldl (\<lambda>acc x. Option.bind acc (\<lambda>total. checked_add total x)) (Some 0) xs"

lemma checked_sum_fold_None:
  "foldl (\<lambda>acc x. Option.bind acc (\<lambda>total. checked_add total x)) None xs = None"
  by (induction xs) auto

lemma checked_sum_fold:
  "foldl (\<lambda>acc x. Option.bind acc (\<lambda>total. checked_add total x)) (Some a) xs =
     (if unat a + sum_list (map unat xs) < 2 ^ LENGTH('a) then Some (a + sum_list xs) else None)"
  for a :: "'a::len word"
proof (induction xs arbitrary: a)
  case (Cons x xs)
  show ?case
  proof (cases "unat a + unat x < 2 ^ LENGTH('a)")
    case True
    then show ?thesis
      using Cons.IH [of "a + x"] by (simp add: checked_add_def unat_add_bounded add.assoc)
  next
    case False
    then have "checked_add a x = None"
      by (simp add: checked_add_def)
    with False show ?thesis
      by (simp add: checked_sum_fold_None)
  qed
qed simp

lemma checked_sum_alt:
  "checked_sum xs = (if sum_list (map unat xs) < 2 ^ LENGTH('a) then Some (sum_list xs) else None)"
  for xs :: "'a::len word list"
  by (simp add: checked_sum_def checked_sum_fold)

lemma checked_sum_Some:
  "checked_sum xs = Some t \<longleftrightarrow> t = sum_list xs \<and> sum_list (map unat xs) < 2 ^ LENGTH('a)"
  for xs :: "'a::len word list"
  by (auto simp: checked_sum_alt)

text \<open>\<open>collect::<Result<Vec<_>, _>>()\<close>: the first error, or all the values.\<close>

fun collect_results :: "('e + 'a) list \<Rightarrow> 'e + 'a list" where
  "collect_results [] = Inr []"
| "collect_results (r # rs) = andThen r (\<lambda>x. andThen (collect_results rs) (\<lambda>xs. Inr (x # xs)))"

lemma collect_results_eq_Inr: "collect_results rs = Inr xs \<longleftrightarrow> rs = map Inr xs"
proof (induction rs arbitrary: xs)
  case (Cons r rs)
  then show ?case by (cases xs) (auto simp: andThen_eq_Inr)
qed auto

section \<open>Lists\<close>

text \<open>\<open>Iterator::position\<close>, \<open>VecDeque::remove\<close> and \<open>Iterator::find\<close>.\<close>

fun position :: "('a \<Rightarrow> bool) \<Rightarrow> 'a list \<Rightarrow> nat option" where
  "position P [] = None"
| "position P (x # xs) = (if P x then Some 0 else map_option Suc (position P xs))"

definition remove_at :: "nat \<Rightarrow> 'a list \<Rightarrow> 'a list" where
  "remove_at i xs = take i xs @ drop (Suc i) xs"

lemma position_None: "position P xs = None \<longleftrightarrow> (\<forall>x\<in>set xs. \<not> P x)"
  by (induction xs) auto

lemma position_SomeD:
  "position P xs = Some i \<Longrightarrow>
     \<exists>ys x zs. xs = ys @ x # zs \<and> length ys = i \<and> P x \<and> (\<forall>y\<in>set ys. \<not> P y)"
proof (induction xs arbitrary: i)
  case (Cons x xs)
  show ?case
  proof (cases "P x")
    case True
    with Cons.prems have "x # xs = [] @ x # xs \<and> length [] = i \<and> P x \<and> (\<forall>y\<in>set []. \<not> P y)"
      by simp
    then show ?thesis by blast
  next
    case False
    with Cons.prems obtain j where j: "position P xs = Some j" and i: "i = Suc j"
      by auto
    from Cons.IH [OF j] obtain ys y zs
      where "xs = ys @ y # zs" "length ys = j" "P y" "\<forall>y\<in>set ys. \<not> P y"
      by blast
    with False i have "x # xs = (x # ys) @ y # zs \<and> length (x # ys) = i \<and> P y \<and>
        (\<forall>y\<in>set (x # ys). \<not> P y)"
      by simp
    then show ?thesis by blast
  qed
qed simp

lemma remove_at_append [simp]: "remove_at (length ys) (ys @ x # zs) = ys @ zs"
  by (simp add: remove_at_def)

lemma list_update_middle [simp]: "(ys @ x # zs)[length ys := y] = ys @ y # zs"
  by (induction ys) auto

lemma sum_list_mono_le: "(\<And>x. x \<in> set xs \<Longrightarrow> f x \<le> (g x :: nat)) \<Longrightarrow>
    sum_list (map f xs) \<le> sum_list (map g xs)"
  by (induction xs) (auto simp: add_mono)

lemma unat_sum_list:
  "sum_list (map unat xs) < 2 ^ LENGTH('a) \<Longrightarrow> unat (sum_list xs) = sum_list (map unat (xs :: 'a::len word list))"
proof (induction xs)
  case (Cons x xs)
  then show ?case by (simp add: unat_add_bounded)
qed simp

lemma sum_list_le_length:
  "(\<And>x. x \<in> set xs \<Longrightarrow> f x \<le> b) \<Longrightarrow> sum_list (map f xs) \<le> length xs * (b::nat)"
  by (induction xs) (auto simp: add_mono)

section \<open>Ordered maps\<close>

type_synonym ('k, 'v) btree = "('k \<times> 'v) list"

definition btree_ok :: "('k::linorder, 'v) btree \<Rightarrow> bool" where
  "btree_ok m \<longleftrightarrow> sorted_wrt (<) (map fst m)"

definition btree_get :: "('k, 'v) btree \<Rightarrow> 'k \<Rightarrow> 'v option" where
  "btree_get m k = map_of m k"

fun btree_insert :: "'k::linorder \<Rightarrow> 'v \<Rightarrow> ('k, 'v) btree \<Rightarrow> ('k, 'v) btree" where
  "btree_insert k v [] = [(k, v)]"
| "btree_insert k v ((a, b) # m) =
     (if k < a then (k, v) # (a, b) # m
      else if k = a then (k, v) # m
      else (a, b) # btree_insert k v m)"

fun btree_remove :: "'k \<Rightarrow> ('k, 'v) btree \<Rightarrow> ('k, 'v) btree" where
  "btree_remove k [] = []"
| "btree_remove k ((a, b) # m) = (if k = a then m else (a, b) # btree_remove k m)"

text \<open>\<open>*m.entry(k).or_default()\<close> followed by an in-place update \<open>f\<close> of the value.\<close>

definition btree_upsert :: "'k::linorder \<Rightarrow> 'v \<Rightarrow> ('v \<Rightarrow> 'v) \<Rightarrow> ('k, 'v) btree \<Rightarrow> ('k, 'v) btree" where
  "btree_upsert k d f m = btree_insert k (f (case btree_get m k of None \<Rightarrow> d | Some v \<Rightarrow> v)) m"

locale ordered_map =
  fixes empty :: "'m"
    and get :: "'m \<Rightarrow> 'k::linorder \<Rightarrow> 'v option"
    and ins :: "'k \<Rightarrow> 'v \<Rightarrow> 'm \<Rightarrow> 'm"
    and rem :: "'k \<Rightarrow> 'm \<Rightarrow> 'm"
    and entries :: "'m \<Rightarrow> ('k \<times> 'v) list"
    and ok :: "'m \<Rightarrow> bool"
  assumes get_empty: "get empty k = None"
    and get_ins: "ok m \<Longrightarrow> get (ins k v m) j = (if j = k then Some v else get m j)"
    and get_rem: "ok m \<Longrightarrow> get (rem k m) j = (if j = k then None else get m j)"
    and ok_empty: "ok empty"
    and ok_ins: "ok m \<Longrightarrow> ok (ins k v m)"
    and ok_rem: "ok m \<Longrightarrow> ok (rem k m)"
    and entries_sorted: "ok m \<Longrightarrow> sorted_wrt (<) (map fst (entries m))"
    and entries_get: "ok m \<Longrightarrow> (k, v) \<in> set (entries m) \<longleftrightarrow> get m k = Some v"
begin

definition upsert :: "'k \<Rightarrow> 'v \<Rightarrow> ('v \<Rightarrow> 'v) \<Rightarrow> 'm \<Rightarrow> 'm" where
  "upsert k d f m = ins k (f (case get m k of None \<Rightarrow> d | Some v \<Rightarrow> v)) m"

lemma get_upsert:
  "ok m \<Longrightarrow> get (upsert k d f m) j =
     (if j = k then Some (f (case get m k of None \<Rightarrow> d | Some v \<Rightarrow> v)) else get m j)"
  by (simp add: upsert_def get_ins)

lemma ok_upsert: "ok m \<Longrightarrow> ok (upsert k d f m)"
  by (simp add: upsert_def ok_ins)

lemma distinct_keys: "ok m \<Longrightarrow> distinct (map fst (entries m))"
  using entries_sorted strict_sorted_iff by blast

text \<open>Accumulating a list of keyed contributions: each key ends with the fold of its own.\<close>

lemma ok_fold_upsert: "ok m \<Longrightarrow> ok (fold (\<lambda>(k, a). upsert k d (g a)) xs m)"
  by (induction xs arbitrary: m) (auto simp: ok_upsert)

lemma get_fold_upsert:
  "ok m \<Longrightarrow> get (fold (\<lambda>(k, a). upsert k d (g a)) xs m) j =
     (if j \<in> fst ` set xs
      then Some (fold g (map snd (filter (\<lambda>(k, a). k = j) xs))
                  (case get m j of None \<Rightarrow> d | Some v \<Rightarrow> v))
      else get m j)"
proof (induction xs arbitrary: m)
  case (Cons x xs)
  obtain k a where x: "x = (k, a)" by (cases x)
  have nil: "j \<notin> fst ` set xs \<Longrightarrow> filter (\<lambda>(k, a). k = j) xs = []"
    by (force simp: filter_empty_conv)
  show ?case
    using Cons.IH [OF ok_upsert [OF Cons.prems, of k d "g a"]]
    by (auto simp: x nil get_upsert [OF Cons.prems])
qed simp

text \<open>Two maps with the same lookups have the same entries, in the same order.\<close>

lemma entries_ext:
  assumes "ok m" "ok n" "\<And>k. get m k = get n k"
  shows "entries m = entries n"
proof (rule map_sorted_distinct_set_unique [where f = fst])
  show "inj_on fst (set (entries m) \<union> set (entries n))"
    using entries_get [OF assms(1)] entries_get [OF assms(2)] assms(3)
    by (auto simp: inj_on_def)
  show "set (entries m) = set (entries n)"
    using entries_get [OF assms(1)] entries_get [OF assms(2)] assms(3) by auto
  show "sorted (map fst (entries m))" "sorted (map fst (entries n))"
    using assms by (simp_all add: entries_sorted strict_sorted_imp_sorted)
  show "distinct (map fst (entries m))" "distinct (map fst (entries n))"
    using assms by (simp_all add: distinct_keys)
qed

end

text \<open>The association list provides the interface.\<close>

lemma btree_ok_Nil [simp]: "btree_ok []"
  by (simp add: btree_ok_def)

lemma btree_ok_Cons: "btree_ok ((k, v) # m) \<longleftrightarrow> btree_ok m \<and> (\<forall>j\<in>fst ` set m. k < j)"
  by (auto simp: btree_ok_def)

lemma fst_set_btree_insert: "fst ` set (btree_insert k v m) = insert k (fst ` set m)"
  by (induction k v m rule: btree_insert.induct) auto

lemma fst_set_btree_remove: "fst ` set (btree_remove k m) \<subseteq> fst ` set m"
  by (induction k m rule: btree_remove.induct) auto

lemma btree_ok_insert: "btree_ok m \<Longrightarrow> btree_ok (btree_insert k v m)"
  by (induction k v m rule: btree_insert.induct)
     (auto simp: btree_ok_Cons fst_set_btree_insert)

lemma btree_ok_remove: "btree_ok m \<Longrightarrow> btree_ok (btree_remove k m)"
proof (induction k m rule: btree_remove.induct)
  case (2 k a b m)
  then show ?case using fst_set_btree_remove [of k m] by (fastforce simp: btree_ok_Cons)
qed simp

lemma btree_get_insert: "btree_get (btree_insert k v m) j = (if j = k then Some v else btree_get m j)"
  by (induction k v m rule: btree_insert.induct) (auto simp: btree_get_def)

lemma btree_get_remove:
  "btree_ok m \<Longrightarrow> btree_get (btree_remove k m) j = (if j = k then None else btree_get m j)"
proof (induction k m rule: btree_remove.induct)
  case (2 k a b m)
  then have "k = a \<Longrightarrow> map_of m k = None"
    by (auto simp: btree_ok_Cons map_of_eq_None_iff)
  with 2 show ?case by (auto simp: btree_get_def btree_ok_Cons)
qed (simp add: btree_get_def)

text \<open>The total weight of the values after an insertion, and when every value is replaced.\<close>

lemma btree_insert_weight:
  fixes f :: "'v \<Rightarrow> nat"
  shows "btree_ok m \<Longrightarrow> sum_list (map (\<lambda>(_, v). f v) (btree_insert k v m))
     + (case btree_get m k of None \<Rightarrow> 0 | Some u \<Rightarrow> f u) = sum_list (map (\<lambda>(_, v). f v) m) + f v"
proof (induction k v m rule: btree_insert.induct)
  case (2 k v a b m)
  have "k < a \<Longrightarrow> map_of m k = None" "k = a \<Longrightarrow> map_of m k = None"
    using 2 by (auto simp: btree_ok_Cons map_of_eq_None_iff)
  with 2 show ?case by (auto simp: btree_get_def btree_ok_Cons)
qed (simp add: btree_get_def)

interpretation bt: ordered_map "[]" btree_get btree_insert btree_remove "\<lambda>m. m" btree_ok
  rewrites "ordered_map.upsert btree_get btree_insert = btree_upsert"
proof -
  show om: "ordered_map [] btree_get btree_insert btree_remove (\<lambda>m. m) btree_ok"
  proof (unfold_locales, goal_cases)
    case (7 m) then show ?case by (simp add: btree_ok_def)
  next
    case (8 m k v)
    then have "distinct (map fst m)"
      using strict_sorted_iff by (auto simp: btree_ok_def)
    then show ?case by (simp add: btree_get_def)
  qed (simp_all add: btree_get_def [where m = "[]"] btree_get_insert btree_get_remove
        btree_ok_insert btree_ok_remove)
  show "ordered_map.upsert btree_get btree_insert = btree_upsert"
    by (intro ext) (simp add: ordered_map.upsert_def [OF om] btree_upsert_def)
qed

end
