(* ===== verification/Core_Wire.thy ===== *)
theory Core_Wire
  imports Oclob_Prelude
begin

text \<open>
  The byte level of \<open>oclob-core\<close>: big-endian integers, length-prefixed strings, the error type
  of the crate and the strict read cursor \<open>SecretWireCursor\<close>. A reader and the writer it inverts
  form a \<open>wire_codec\<close>: reading back what was written gives the value and leaves the rest, and
  whatever a reader accepts is exactly what the writer would have produced. Every encoding of
  the development that is hashed or parsed rests on the prefix-freeness proved once there.
\<close>

section \<open>Errors\<close>

datatype OrderError =
    Invalid string
  | Authority
  | Replay
  | InvalidMpcResult
  | WrongMarket
  | UnknownOrder
  | InvalidCancellation

section \<open>Big-endian bytes\<close>

fun be_bytes :: "nat \<Rightarrow> nat \<Rightarrow> u8 list" where
  "be_bytes 0 n = []"
| "be_bytes (Suc k) n = be_bytes k (n div 256) @ [of_nat (n mod 256)]"

definition be_value :: "u8 list \<Rightarrow> nat" where
  "be_value bs = foldl (\<lambda>a b. a * 256 + unat b) 0 bs"

definition to_be_bytes :: "'a::len word \<Rightarrow> u8 list" where
  "to_be_bytes w = be_bytes (LENGTH('a) div 8) (unat w)"

definition from_be_bytes :: "u8 list \<Rightarrow> 'a::len word" where
  "from_be_bytes bs = of_nat (be_value bs)"

text \<open>For evaluating the bytes of a concrete word.\<close>

lemma be_bytes_numeral:
  "be_bytes (numeral k) n = be_bytes (pred_numeral k) (n div 256) @ [of_nat (n mod 256)]"
  by (simp only: numeral_eq_Suc [of k] be_bytes.simps)

lemma length_be_bytes [simp]: "length (be_bytes k n) = k"
  by (induction k arbitrary: n) auto

lemma be_value_snoc [simp]: "be_value (bs @ [b]) = be_value bs * 256 + unat b"
  by (simp add: be_value_def)

lemma be_value_Nil [simp]: "be_value [] = 0"
  by (simp add: be_value_def)

lemma unat_u8_less: "unat (b::u8) < 256"
  by (rule order_less_le_trans [OF unsigned_less]) simp

lemma be_value_less: "be_value bs < 256 ^ length bs"
proof (induction bs rule: rev_induct)
  case (snoc b bs)
  have "unat b < 256" by (rule unat_u8_less)
  with snoc show ?case by simp
qed simp

lemma be_value_be_bytes: "be_value (be_bytes k n) = n mod 256 ^ k"
proof (induction k arbitrary: n)
  case (Suc k)
  have "unat (of_nat (n mod 256) :: u8) = n mod 256"
    by (simp add: unat_of_nat)
  then show ?case
    by (simp add: Suc.IH mod_mult2_eq mult.commute)
qed simp

lemma be_bytes_be_value: "be_bytes (length bs) (be_value bs) = bs"
proof (induction bs rule: rev_induct)
  case (snoc b bs)
  have "unat b < 256" by (rule unat_u8_less)
  then have "(be_value bs * 256 + unat b) div 256 = be_value bs"
    and "(be_value bs * 256 + unat b) mod 256 = unat b"
    by simp_all
  with snoc show ?case by simp
qed simp

lemma length_to_be_bytes [simp]: "length (to_be_bytes (w::'a::len word)) = LENGTH('a) div 8"
  by (simp add: to_be_bytes_def)

lemma from_to_be_bytes:
  assumes "LENGTH('a::len) = 8 * k"
  shows "from_be_bytes (to_be_bytes w) = (w::'a word)"
proof -
  have "(256::nat) ^ k = 2 ^ LENGTH('a)"
    by (simp add: assms power_mult)
  moreover have "LENGTH('a) div 8 = k" by (simp add: assms)
  ultimately show ?thesis
    by (simp add: from_be_bytes_def to_be_bytes_def be_value_be_bytes unsigned_less)
qed

lemma to_from_be_bytes:
  assumes "LENGTH('a::len) = 8 * k" "length bs = k"
  shows "to_be_bytes (from_be_bytes bs :: 'a word) = bs"
proof -
  have "be_value bs < 2 ^ LENGTH('a)"
    using be_value_less [of bs] by (simp add: assms power_mult)
  then have "unat (of_nat (be_value bs) :: 'a word) = be_value bs"
    by (simp add: unat_of_nat)
  then show ?thesis
    using be_bytes_be_value [of bs] by (simp add: from_be_bytes_def to_be_bytes_def assms)
qed

lemma to_be_bytes_inj:
  assumes "LENGTH('a::len) = 8 * k" "to_be_bytes a = to_be_bytes b"
  shows "a = (b::'a word)"
  by (metis from_to_be_bytes [OF assms(1)] assms(2))

lemma to_be_bytes_eq_iff [simp]:
  "to_be_bytes (a::u16) = to_be_bytes (a'::u16) \<longleftrightarrow> a = a'"
  "to_be_bytes (b::u64) = to_be_bytes (b'::u64) \<longleftrightarrow> b = b'"
  "to_be_bytes (c::Digest32) = to_be_bytes (c'::Digest32) \<longleftrightarrow> c = c'"
  using to_be_bytes_inj [of 2 a a'] to_be_bytes_inj [of 8 b b'] to_be_bytes_inj [of 32 c c']
  by auto

section \<open>Length prefixes and UTF-8\<close>

text \<open>\<open>put_bytes\<close>, and \<open>put_hash_bytes\<close> on the bytes fed to a hash.\<close>

definition put_bytes :: "u8 list \<Rightarrow> u8 list" where
  "put_bytes bs = to_be_bytes (of_nat (length bs) :: u64) @ bs"

definition utf8_cont :: "u8 \<Rightarrow> bool" where
  "utf8_cont b \<longleftrightarrow> 0x80 \<le> b \<and> b \<le> 0xBF"

text \<open>\<open>std::str::from_utf8\<close>: the well-formed byte sequences of the Unicode standard.\<close>

fun utf8_valid :: "u8 list \<Rightarrow> bool" where
  "utf8_valid [] = True"
| "utf8_valid (a # bs) =
     (if a \<le> 0x7F then utf8_valid bs
      else case bs of [] \<Rightarrow> False | b # bs1 \<Rightarrow>
        if 0xC2 \<le> a \<and> a \<le> 0xDF then utf8_cont b \<and> utf8_valid bs1
        else case bs1 of [] \<Rightarrow> False | c # bs2 \<Rightarrow>
          if a = 0xE0 \<and> 0xA0 \<le> b \<and> b \<le> 0xBF \<or> 0xE1 \<le> a \<and> a \<le> 0xEC \<and> utf8_cont b
             \<or> a = 0xED \<and> 0x80 \<le> b \<and> b \<le> 0x9F \<or> 0xEE \<le> a \<and> a \<le> 0xEF \<and> utf8_cont b
          then utf8_cont c \<and> utf8_valid bs2
          else case bs2 of [] \<Rightarrow> False | d # bs3 \<Rightarrow>
            (a = 0xF0 \<and> 0x90 \<le> b \<and> b \<le> 0xBF \<or> 0xF1 \<le> a \<and> a \<le> 0xF3 \<and> utf8_cont b
             \<or> a = 0xF4 \<and> 0x80 \<le> b \<and> b \<le> 0x8F)
            \<and> utf8_cont c \<and> utf8_cont d \<and> utf8_valid bs3)"

declare utf8_valid.simps(2) [simp del]

lemma utf8_valid_ascii: "(\<forall>b\<in>set bs. b \<le> 0x7F) \<Longrightarrow> utf8_valid bs"
  by (induction bs) (auto simp: utf8_valid.simps(2))

section \<open>The read cursor\<close>

record SecretWireCursor =
  cur_bytes :: "u8 list"
  cur_offset :: nat

definition wire_malformed :: OrderError where
  "wire_malformed = Invalid ''secret order wire is malformed''"

definition cursor_new :: "u8 list \<Rightarrow> SecretWireCursor" where
  "cursor_new bs = \<lparr>cur_bytes = bs, cur_offset = 0\<rparr>"

text \<open>\<open>usize\<close> is 64 bits wide: the checked addition fails from \<open>2^64\<close> on.\<close>

definition cursor_bytes :: "nat \<Rightarrow> SecretWireCursor \<Rightarrow> OrderError + u8 list \<times> SecretWireCursor" where
  "cursor_bytes n c =
     (let e = cur_offset c + n in
      if 2 ^ 64 \<le> e then Inl wire_malformed
      else if length (cur_bytes c) < e then Inl wire_malformed
      else Inr (take n (drop (cur_offset c) (cur_bytes c)), c\<lparr>cur_offset := e\<rparr>))"

definition cursor_u8 :: "SecretWireCursor \<Rightarrow> OrderError + u8 \<times> SecretWireCursor" where
  "cursor_u8 c = andThen (cursor_bytes 1 c) (\<lambda>(bs, c). Inr (from_be_bytes bs, c))"

definition cursor_u16 :: "SecretWireCursor \<Rightarrow> OrderError + u16 \<times> SecretWireCursor" where
  "cursor_u16 c = andThen (cursor_bytes 2 c) (\<lambda>(bs, c). Inr (from_be_bytes bs, c))"

definition cursor_u64 :: "SecretWireCursor \<Rightarrow> OrderError + u64 \<times> SecretWireCursor" where
  "cursor_u64 c = andThen (cursor_bytes 8 c) (\<lambda>(bs, c). Inr (from_be_bytes bs, c))"

definition cursor_digest :: "SecretWireCursor \<Rightarrow> OrderError + Digest32 \<times> SecretWireCursor" where
  "cursor_digest c = andThen (cursor_bytes 32 c) (\<lambda>(bs, c). Inr (from_be_bytes bs, c))"

text \<open>A \<open>u64\<close> length read by \<open>usize::try_from(wire.u64()?)\<close> and that many bytes.\<close>

definition cursor_prefixed :: "SecretWireCursor \<Rightarrow> OrderError + u8 list \<times> SecretWireCursor" where
  "cursor_prefixed c = andThen (cursor_u64 c) (\<lambda>(n, c). cursor_bytes (unat n) c)"

definition cursor_finish :: "SecretWireCursor \<Rightarrow> OrderError + unit" where
  "cursor_finish c =
     (if cur_offset c = length (cur_bytes c) then Inr ()
      else Inl (Invalid ''secret order wire contains trailing bytes''))"

text \<open>What is still unread, and the bound every slice of a Rust program satisfies.\<close>

definition cursor_rest :: "SecretWireCursor \<Rightarrow> u8 list" where
  "cursor_rest c = drop (cur_offset c) (cur_bytes c)"

definition cursor_ok :: "SecretWireCursor \<Rightarrow> bool" where
  "cursor_ok c \<longleftrightarrow> cur_offset c \<le> length (cur_bytes c) \<and> length (cur_bytes c) < 2 ^ 64"

definition cursor_skip :: "nat \<Rightarrow> SecretWireCursor \<Rightarrow> SecretWireCursor" where
  "cursor_skip n c = c\<lparr>cur_offset := cur_offset c + n\<rparr>"

lemma cursor_rest_skip [simp]: "cursor_rest (cursor_skip n c) = drop n (cursor_rest c)"
  by (simp add: cursor_rest_def cursor_skip_def add.commute)

lemma cursor_skip_skip [simp]: "cursor_skip m (cursor_skip n c) = cursor_skip (n + m) c"
  by (simp add: cursor_skip_def)

lemma cursor_rest_new [simp]: "cursor_rest (cursor_new bs) = bs"
  by (simp add: cursor_rest_def cursor_new_def)

lemma cursor_ok_new [simp]: "cursor_ok (cursor_new bs) \<longleftrightarrow> length bs < 2 ^ 64"
  by (simp add: cursor_ok_def cursor_new_def)

lemma cursor_ok_skip: "cursor_ok c \<Longrightarrow> n \<le> length (cursor_rest c) \<Longrightarrow> cursor_ok (cursor_skip n c)"
  by (auto simp: cursor_ok_def cursor_skip_def cursor_rest_def)

lemma cursor_ok_rest: "cursor_ok c \<Longrightarrow> length (cursor_rest c) < 2 ^ 64"
  by (auto simp: cursor_ok_def cursor_rest_def)

lemma cursor_bytes_eq:
  assumes "cursor_ok c"
  shows "cursor_bytes n c =
    (if n \<le> length (cursor_rest c) then Inr (take n (cursor_rest c), cursor_skip n c)
     else Inl wire_malformed)"
  using assms
  by (auto simp: cursor_bytes_def cursor_ok_def cursor_rest_def cursor_skip_def Let_def)

lemma cursor_finish_eq:
  "cursor_ok c \<Longrightarrow> cursor_finish c =
     (if cursor_rest c = [] then Inr ()
      else Inl (Invalid ''secret order wire contains trailing bytes''))"
  by (auto simp: cursor_finish_def cursor_ok_def cursor_rest_def)

locale wire_codec =
  fixes valid :: "'a \<Rightarrow> bool"
    and enc :: "'a \<Rightarrow> u8 list"
    and dec :: "SecretWireCursor \<Rightarrow> OrderError + 'a \<times> SecretWireCursor"
  assumes dec_enc: "valid x \<Longrightarrow> cursor_ok c \<Longrightarrow> cursor_rest c = enc x @ r \<Longrightarrow>
      dec c = Inr (x, cursor_skip (length (enc x)) c)"
    and dec_canonical: "cursor_ok c \<Longrightarrow> dec c = Inr (x, c') \<Longrightarrow>
      valid x \<and> cursor_rest c = enc x @ cursor_rest c' \<and> cursor_ok c'"
begin

lemma enc_prefix_free:
  assumes v: "valid x" "valid y" and eq: "enc x @ r = enc y @ s"
    and len: "length (enc x @ r) < 2 ^ 64"
  shows "x = y \<and> r = s"
proof -
  let ?c = "cursor_new (enc x @ r)"
  have c: "cursor_ok ?c" using len by simp
  have "dec ?c = Inr (x, cursor_skip (length (enc x)) ?c)"
    by (rule dec_enc [OF v(1) c]) simp
  moreover have "dec ?c = Inr (y, cursor_skip (length (enc y)) ?c)"
    by (rule dec_enc [OF v(2) c, of s]) (simp add: eq)
  ultimately have "x = y" by simp
  with eq show ?thesis by simp
qed

text \<open>The form in which a reading step is used inside a longer parse.\<close>

lemma dec_step:
  assumes "valid x" "cursor_ok c" "cursor_rest c = enc x @ r"
  shows "dec c = Inr (x, cursor_skip (length (enc x)) c)"
    and "cursor_rest (cursor_skip (length (enc x)) c) = r"
    and "cursor_ok (cursor_skip (length (enc x)) c)"
  using assms dec_enc [OF assms] by (auto intro: cursor_ok_skip)

text \<open>A whole buffer: reading a value and then finishing accepts exactly the encodings.\<close>

lemma whole_buffer_iff:
  assumes "length bs < 2 ^ 64"
  shows "(\<exists>c. dec (cursor_new bs) = Inr (x, c) \<and> cursor_finish c = Inr ()) \<longleftrightarrow> valid x \<and> bs = enc x"
    (is "?l \<longleftrightarrow> ?r")
proof
  assume ?l
  then obtain c where d: "dec (cursor_new bs) = Inr (x, c)" and f: "cursor_finish c = Inr ()"
    by blast
  have "cursor_ok (cursor_new bs)" using assms by simp
  from dec_canonical [OF this d] f show ?r
    by (auto simp: cursor_finish_eq split: if_splits)
next
  assume r: ?r
  then have v: "valid x" and c: "cursor_ok (cursor_new bs)"
    and s: "cursor_rest (cursor_new bs) = enc x @ []"
    using assms by auto
  from dec_step [OF v c s] show ?l
    by (auto simp: cursor_finish_eq)
qed

end

text \<open>Codecs compose: one value after the other.\<close>

definition pair_enc :: "('a \<Rightarrow> u8 list) \<Rightarrow> ('b \<Rightarrow> u8 list) \<Rightarrow> 'a \<times> 'b \<Rightarrow> u8 list" where
  "pair_enc e f = (\<lambda>(x, y). e x @ f y)"

definition pair_dec ::
  "(SecretWireCursor \<Rightarrow> OrderError + 'a \<times> SecretWireCursor) \<Rightarrow>
   (SecretWireCursor \<Rightarrow> OrderError + 'b \<times> SecretWireCursor) \<Rightarrow>
   SecretWireCursor \<Rightarrow> OrderError + ('a \<times> 'b) \<times> SecretWireCursor" where
  "pair_dec d e c = andThen (d c) (\<lambda>(x, c). andThen (e c) (\<lambda>(y, c). Inr ((x, y), c)))"

lemma pair_codec:
  assumes "wire_codec v e d" "wire_codec w f g"
  shows "wire_codec (\<lambda>(x, y). v x \<and> w y) (pair_enc e f) (pair_dec d g)"
proof
  fix c and x :: "'a \<times> 'b" and r
  assume "case x of (x, y) \<Rightarrow> v x \<and> w y" and c: "cursor_ok c" and r: "cursor_rest c = pair_enc e f x @ r"
  then obtain a b where x: "x = (a, b)" "v a" "w b" by auto
  from r x have "cursor_rest c = e a @ (f b @ r)" by (simp add: pair_enc_def)
  note s = wire_codec.dec_step [OF assms(1) x(2) c this]
  note t = wire_codec.dec_step [OF assms(2) x(3) s(3,2)]
  show "pair_dec d g c = Inr (x, cursor_skip (length (pair_enc e f x)) c)"
    by (simp add: pair_dec_def s(1) t(1) x pair_enc_def)
next
  fix c c' and x :: "'a \<times> 'b"
  assume c: "cursor_ok c" and p: "pair_dec d g c = Inr (x, c')"
  from p obtain a b c1 where x: "x = (a, b)" and d: "d c = Inr (a, c1)" and g: "g c1 = Inr (b, c')"
    by (auto simp: pair_dec_def andThen_eq_Inr)
  note s = wire_codec.dec_canonical [OF assms(1) c d]
  from s have "cursor_ok c1" by simp
  from s wire_codec.dec_canonical [OF assms(2) this g]
  show "(case x of (x, y) \<Rightarrow> v x \<and> w y) \<and>
      cursor_rest c = pair_enc e f x @ cursor_rest c' \<and> cursor_ok c'"
    by (simp add: x pair_enc_def)
qed

lemma andThen_pair_dec:
  "andThen (pair_dec d e c) k = andThen (d c) (\<lambda>(x, c). andThen (e c) (\<lambda>(y, c). k ((x, y), c)))"
  by (simp add: pair_dec_def andThen_assoc split_def)

lemma wire_codec_cong: "wire_codec v e d \<Longrightarrow> (\<And>x. v x = w x) \<Longrightarrow> wire_codec w e d"
  by (subgoal_tac "v = w") auto

text \<open>A codec seen through a partial bijection, as when a tag byte is read as an enum or a value
  is read and then checked.\<close>

lemma map_codec:
  assumes cod: "wire_codec v enc dec"
    and fg: "\<And>s. w s \<Longrightarrow> v (g s) \<and> f (g s) = Inr s"
    and gf: "\<And>b s. v b \<Longrightarrow> f b = Inr s \<Longrightarrow> g s = b \<and> w s"
    and dec': "\<And>c. dec' c = andThen (dec c) (\<lambda>(b, c). andThen (f b) (\<lambda>s. Inr (s, c)))"
  shows "wire_codec w (enc \<circ> g) dec'"
proof
  fix c s r
  assume w: "w s" and c: "cursor_ok c" and r: "cursor_rest c = (enc \<circ> g) s @ r"
  from fg [OF w] wire_codec.dec_step [OF cod, of "g s" c r] c r
  show "dec' c = Inr (s, cursor_skip (length ((enc \<circ> g) s)) c)"
    by (simp add: dec')
next
  fix c c' s
  assume c: "cursor_ok c" and d: "dec' c = Inr (s, c')"
  from d obtain b where b: "dec c = Inr (b, c')" and f: "f b = Inr s"
    by (auto simp: dec' andThen_eq_Inr)
  from wire_codec.dec_canonical [OF cod c b] gf [OF _ f]
  show "w s \<and> cursor_rest c = (enc \<circ> g) s @ cursor_rest c' \<and> cursor_ok c'"
    by auto
qed

lemma fixed_width_codec:
  fixes dec :: "SecretWireCursor \<Rightarrow> OrderError + 'a::len word \<times> SecretWireCursor"
  assumes k: "LENGTH('a) = 8 * k"
    and dec: "\<And>c. dec c = andThen (cursor_bytes k c) (\<lambda>(bs, c). Inr (from_be_bytes bs, c))"
  shows "wire_codec (\<lambda>_. True) to_be_bytes dec"
proof
  fix c :: SecretWireCursor and x :: "'a word" and r
  assume c: "cursor_ok c" and r: "cursor_rest c = to_be_bytes x @ r"
  have "length (to_be_bytes x) = k" by (simp add: k)
  with c r k show "dec c = Inr (x, cursor_skip (length (to_be_bytes x)) c)"
    by (simp add: dec cursor_bytes_eq from_to_be_bytes)
next
  fix c c' :: SecretWireCursor and x :: "'a word"
  assume c: "cursor_ok c" and d: "dec c = Inr (x, c')"
  from d have le: "k \<le> length (cursor_rest c)"
    and x: "x = from_be_bytes (take k (cursor_rest c))" and c': "c' = cursor_skip k c"
    by (auto simp: dec cursor_bytes_eq [OF c] split: if_splits)
  have "to_be_bytes x = take k (cursor_rest c)"
    unfolding x by (rule to_from_be_bytes [OF k]) (use le in simp)
  with c c' le show "True \<and> cursor_rest c = to_be_bytes x @ cursor_rest c' \<and> cursor_ok c'"
    by (simp add: cursor_ok_skip)
qed

interpretation w8: wire_codec "\<lambda>_. True" "to_be_bytes :: u8 \<Rightarrow> u8 list" cursor_u8
  by (rule fixed_width_codec [where k = 1]) (simp_all add: cursor_u8_def)

interpretation w16: wire_codec "\<lambda>_. True" "to_be_bytes :: u16 \<Rightarrow> u8 list" cursor_u16
  by (rule fixed_width_codec [where k = 2]) (simp_all add: cursor_u16_def)

interpretation w64: wire_codec "\<lambda>_. True" "to_be_bytes :: u64 \<Rightarrow> u8 list" cursor_u64
  by (rule fixed_width_codec [where k = 8]) (simp_all add: cursor_u64_def)

interpretation w256: wire_codec "\<lambda>_. True" "to_be_bytes :: Digest32 \<Rightarrow> u8 list" cursor_digest
  by (rule fixed_width_codec [where k = 32]) (simp_all add: cursor_digest_def)

interpretation wstr: wire_codec "\<lambda>_. True" put_bytes cursor_prefixed
proof
  fix c x r
  assume c: "cursor_ok c" and r: "cursor_rest c = put_bytes x @ r"
  let ?n = "of_nat (length x) :: u64"
  from r have r': "cursor_rest c = to_be_bytes ?n @ (x @ r)" by (simp add: put_bytes_def)
  have "length x < 2 ^ 64" using cursor_ok_rest [OF c] r' by simp
  then have n: "unat ?n = length x" by (simp add: unat_of_nat)
  show "cursor_prefixed c = Inr (x, cursor_skip (length (put_bytes x)) c)"
    using w64.dec_step [OF TrueI c r'] n
    by (simp add: cursor_prefixed_def cursor_bytes_eq put_bytes_def)
next
  fix c c' x
  assume c: "cursor_ok c" and d: "cursor_prefixed c = Inr (x, c')"
  then obtain n c1 where n: "cursor_u64 c = Inr (n, c1)" and x: "cursor_bytes (unat n) c1 = Inr (x, c')"
    by (auto simp: cursor_prefixed_def andThen_eq_Inr)
  from w64.dec_canonical [OF c n] have r: "cursor_rest c = to_be_bytes n @ cursor_rest c1"
    and c1: "cursor_ok c1" by auto
  from x c1 have le: "unat n \<le> length (cursor_rest c1)" and x': "x = take (unat n) (cursor_rest c1)"
    and c': "c' = cursor_skip (unat n) c1"
    by (auto simp: cursor_bytes_eq split: if_splits)
  from le x' have "length x = unat n" by simp
  then have "of_nat (length x) = n" by simp
  with r x' c' c1 le show "True \<and> cursor_rest c = put_bytes x @ cursor_rest c' \<and> cursor_ok c'"
    by (simp add: put_bytes_def cursor_ok_skip)
qed

section \<open>Decomposing hash preimages\<close>

text \<open>Fixed-width and length-prefixed fields can be taken off the front of a preimage one at a time.\<close>

lemma to_be_bytes_append_eq [simp]:
  "to_be_bytes (a::u16) @ r = to_be_bytes (a'::u16) @ s \<longleftrightarrow> a = a' \<and> r = s"
  "to_be_bytes (b::u64) @ r = to_be_bytes (b'::u64) @ s \<longleftrightarrow> b = b' \<and> r = s"
  "to_be_bytes (c::Digest32) @ r = to_be_bytes (c'::Digest32) @ s \<longleftrightarrow> c = c' \<and> r = s"
  by (simp_all add: append_eq_append_conv)

lemma put_bytes_append_eq:
  assumes "length a < 2 ^ 64" "length b < 2 ^ 64"
  shows "put_bytes a @ r = put_bytes b @ s \<longleftrightarrow> a = b \<and> r = s"
proof -
  have "length a = length b" if "(of_nat (length a) :: u64) = of_nat (length b)"
    using arg_cong [OF that, of unat] assms by (simp add: unat_of_nat)
  then show ?thesis by (auto simp: put_bytes_def append_eq_append_conv)
qed

text \<open>A sequence of self-delimiting encodings determines the sequence.\<close>

lemma concat_encoding_inject:
  assumes "concat (map enc xs) = concat (map enc ys)"
    and "\<And>x y r s. x \<in> set xs \<Longrightarrow> y \<in> set ys \<Longrightarrow> enc x @ r = enc y @ s \<Longrightarrow> x = y \<and> r = s"
    and "\<And>x. x \<in> set xs \<union> set ys \<Longrightarrow> enc x \<noteq> []"
  shows "xs = ys"
  using assms
proof (induction xs arbitrary: ys)
  case Nil
  then show ?case by (cases ys) auto
next
  case (Cons x xs)
  then obtain y zs where ys: "ys = y # zs" by (cases ys) auto
  have "x = y \<and> concat (map enc xs) = concat (map enc zs)"
    by (rule Cons.prems(2)) (use Cons.prems(1) in \<open>simp_all add: ys\<close>)
  moreover have "xs = zs"
  proof (rule Cons.IH)
    show "concat (map enc xs) = concat (map enc zs)" using calculation by simp
    show "a = b \<and> r = s" if "a \<in> set xs" "b \<in> set zs" "enc a @ r = enc b @ s" for a b r s
      by (rule Cons.prems(2)) (use that in \<open>simp_all add: ys\<close>)
    show "enc a \<noteq> []" if "a \<in> set xs \<union> set zs" for a
      by (rule Cons.prems(3)) (use that in \<open>auto simp: ys\<close>)
  qed
  ultimately show ?case by (simp add: ys)
qed

end
