(* ===== verification/Application_Crypto.thy ===== *)
theory Application_Crypto
  imports Core_Wire
begin

text \<open>
  \<open>oclob-core/src/application_crypto.rs\<close>: the closed signature envelope of the application.
  SHA-256 and the hybrid Ed25519 + ML-DSA-65 signer and verifier are other crates; they are the
  fields of the record \<open>crypto\<close>, an argument of every definition that calls them. What the
  code relies on of the signer is the predicate \<open>hybrid_correct\<close>: the advertised lengths, and
  that a signature verifies under the signer's own public key.
\<close>

section \<open>The environment\<close>

type_synonym Seed64 = "512 word"

record crypto =
  sha256 :: "u8 list \<Rightarrow> Digest32"
  suite_encode :: "u8 list"
  purpose_code :: u16
  hybrid_public_key :: "Seed64 \<Rightarrow> u8 list"
  hybrid_sign :: "Seed64 \<Rightarrow> u8 list \<Rightarrow> u8 list option"
  hybrid_verify :: "u8 list \<Rightarrow> u8 list \<Rightarrow> u8 list \<Rightarrow> bool"

section \<open>Keys and signatures\<close>

definition SIGNATURE_MAGIC :: "u8 list" where
  "SIGNATURE_MAGIC = bytes_of ''OCLSIG02''"

definition PUBLIC_KEY_BYTES :: nat where
  "PUBLIC_KEY_BYTES = 1984"

definition SIGNATURE_BYTES :: nat where
  "SIGNATURE_BYTES = 8 + 4 + 2 + PUBLIC_KEY_BYTES + 3373"

definition KEY_OFFSET :: nat where
  "KEY_OFFSET = 14"

datatype SignatureError = SignatureError

datatype SigningKey = SigningKey (seeds: Seed64)

datatype VerifyingKey = VerifyingKey (vk_bytes: Digest32)

datatype Signature = Signature (sig_bytes: "u8 list")

definition fingerprint :: "crypto \<Rightarrow> u8 list \<Rightarrow> Digest32" where
  "fingerprint E public =
     sha256 E (bytes_of ''OCLOB:APPLICATION-KEY-FINGERPRINT:v2'' @ suite_encode E
               @ to_be_bytes (purpose_code E) @ public)"

definition verifying_key :: "crypto \<Rightarrow> SigningKey \<Rightarrow> VerifyingKey" where
  "verifying_key E k = VerifyingKey (fingerprint E (hybrid_public_key E (seeds k)))"

definition try_sign :: "crypto \<Rightarrow> SigningKey \<Rightarrow> u8 list \<Rightarrow> SignatureError + Signature" where
  "try_sign E k message =
     (case hybrid_sign E (seeds k) message of
        None \<Rightarrow> Inl SignatureError
      | Some s \<Rightarrow> Inr (Signature (SIGNATURE_MAGIC @ suite_encode E @ to_be_bytes (purpose_code E)
                                   @ hybrid_public_key E (seeds k) @ s)))"

definition VerifyingKey_from_bytes :: "Digest32 \<Rightarrow> SignatureError + VerifyingKey" where
  "VerifyingKey_from_bytes d = (if d = 0 then Inl SignatureError else Inr (VerifyingKey d))"

definition Signature_validate :: "crypto \<Rightarrow> Signature \<Rightarrow> SignatureError + unit" where
  "Signature_validate E s =
     (let b = sig_bytes s in
      fail_if (length b \<noteq> SIGNATURE_BYTES
               \<or> take 8 b \<noteq> SIGNATURE_MAGIC
               \<or> take 4 (drop 8 b) \<noteq> suite_encode E
               \<or> take 2 (drop 12 b) \<noteq> to_be_bytes (purpose_code E)) SignatureError)"

definition Signature_try_from :: "crypto \<Rightarrow> u8 list \<Rightarrow> SignatureError + Signature" where
  "Signature_try_from E bs =
     andThen (Signature_validate E (Signature bs)) (\<lambda>_. Inr (Signature bs))"

definition verify_strict ::
  "crypto \<Rightarrow> VerifyingKey \<Rightarrow> u8 list \<Rightarrow> Signature \<Rightarrow> SignatureError + unit" where
  "verify_strict E key message s =
     andThen (Signature_validate E s) (\<lambda>_.
       let public = take PUBLIC_KEY_BYTES (drop KEY_OFFSET (sig_bytes s)) in
       if fingerprint E public \<noteq> vk_bytes key then Inl SignatureError
       else if hybrid_verify E public message (drop (KEY_OFFSET + PUBLIC_KEY_BYTES) (sig_bytes s))
         then Inr () else Inl SignatureError)"

text \<open>The check every signed object of the system makes on its signature bytes: parse the
  envelope, then verify it under the enrolled key.\<close>

definition signature_ok :: "crypto \<Rightarrow> VerifyingKey \<Rightarrow> u8 list \<Rightarrow> u8 list \<Rightarrow> bool" where
  "signature_ok E key message bs \<longleftrightarrow>
     (case Signature_try_from E bs of Inl _ \<Rightarrow> False
      | Inr s \<Rightarrow> verify_strict E key message s = Inr ())"

section \<open>What is relied on of the hybrid signer\<close>

definition hybrid_correct :: "crypto \<Rightarrow> bool" where
  "hybrid_correct E \<longleftrightarrow>
     length (suite_encode E) = 4
     \<and> (\<forall>seed. length (hybrid_public_key E seed) = PUBLIC_KEY_BYTES)
     \<and> (\<forall>seed m s. hybrid_sign E seed m = Some s \<longrightarrow>
          length s = 3373 \<and> hybrid_verify E (hybrid_public_key E seed) m s)"

section \<open>Lemmas\<close>

lemma length_SIGNATURE_MAGIC [simp]: "length SIGNATURE_MAGIC = 8"
  by (simp add: SIGNATURE_MAGIC_def bytes_of_def)

lemma drop_split: "drop n b = take k (drop n b) @ drop (n + k) b"
  by (simp add: add.commute flip: drop_drop)

text \<open>Splitting an envelope of the right length into its five fields.\<close>

lemma envelope_split:
  assumes "length suite = 4" "length pc = 2"
  shows "length b = SIGNATURE_BYTES \<and> take 8 b = SIGNATURE_MAGIC \<and> take 4 (drop 8 b) = suite
      \<and> take 2 (drop 12 b) = pc \<longleftrightarrow>
    (\<exists>public body. b = SIGNATURE_MAGIC @ suite @ pc @ public @ body
      \<and> length public = PUBLIC_KEY_BYTES \<and> length body = 3373)" (is "?l \<longleftrightarrow> ?r")
proof
  assume l: ?l
  let ?public = "take PUBLIC_KEY_BYTES (drop KEY_OFFSET b)"
  let ?body = "drop (KEY_OFFSET + PUBLIC_KEY_BYTES) b"
  have "b = take 8 b @ take 4 (drop 8 b) @ take 2 (drop 12 b) @ take 1984 (drop 14 b) @ drop 1998 b"
    using drop_split [of 0 b 8] drop_split [of 8 b 4] drop_split [of 12 b 2]
      drop_split [of 14 b 1984] by simp
  then have "b = SIGNATURE_MAGIC @ suite @ pc @ ?public @ ?body"
    using l by (simp add: KEY_OFFSET_def PUBLIC_KEY_BYTES_def)
  moreover have "length ?public = PUBLIC_KEY_BYTES" "length ?body = 3373"
    using l by (simp_all add: KEY_OFFSET_def PUBLIC_KEY_BYTES_def SIGNATURE_BYTES_def)
  ultimately show ?r by blast
next
  assume ?r
  then show ?l using assms by (auto simp: SIGNATURE_BYTES_def)
qed

lemma Signature_validate_iff:
  assumes "length (suite_encode E) = 4"
  shows "Signature_validate E (Signature b) = Inr () \<longleftrightarrow>
    (\<exists>public body. b = SIGNATURE_MAGIC @ suite_encode E @ to_be_bytes (purpose_code E) @ public @ body
      \<and> length public = PUBLIC_KEY_BYTES \<and> length body = 3373)"
  using envelope_split [OF assms, of "to_be_bytes (purpose_code E)" b]
  by (auto simp: Signature_validate_def Let_def fail_if_eq_Inr)

lemma verify_strict_envelope:
  assumes "length (suite_encode E) = 4" "length public = PUBLIC_KEY_BYTES" "length body = 3373"
  shows "verify_strict E key m
     (Signature (SIGNATURE_MAGIC @ suite_encode E @ to_be_bytes (purpose_code E) @ public @ body))
      = (if fingerprint E public = vk_bytes key \<and> hybrid_verify E public m body
         then Inr () else Inl SignatureError)"
proof -
  let ?b = "SIGNATURE_MAGIC @ suite_encode E @ to_be_bytes (purpose_code E) @ public @ body"
  have "Signature_validate E (Signature ?b) = Inr ()"
    using Signature_validate_iff [OF assms(1)] assms(2,3) by blast
  moreover have "take PUBLIC_KEY_BYTES (drop KEY_OFFSET ?b) = public"
    and "drop (KEY_OFFSET + PUBLIC_KEY_BYTES) ?b = body"
    using assms by (simp_all add: KEY_OFFSET_def PUBLIC_KEY_BYTES_def)
  ultimately show ?thesis
    by (simp add: verify_strict_def)
qed

lemma signature_ok_alt:
  "signature_ok E key m b \<longleftrightarrow> (\<exists>s. Signature_try_from E b = Inr s \<and> verify_strict E key m s = Inr ())"
  by (auto simp: signature_ok_def split: sum.splits)

lemma signature_ok_iff:
  assumes "length (suite_encode E) = 4"
  shows "signature_ok E key m b \<longleftrightarrow>
    (\<exists>public body. b = SIGNATURE_MAGIC @ suite_encode E @ to_be_bytes (purpose_code E) @ public @ body
      \<and> length public = PUBLIC_KEY_BYTES \<and> length body = 3373
      \<and> fingerprint E public = vk_bytes key \<and> hybrid_verify E public m body)" (is "_ \<longleftrightarrow> ?r")
proof
  assume ok: "signature_ok E key m b"
  then have "Signature_validate E (Signature b) = Inr ()"
    by (auto simp: signature_ok_def Signature_try_from_def andThen_eq_Inr split: sum.splits)
  then obtain public body where b:
      "b = SIGNATURE_MAGIC @ suite_encode E @ to_be_bytes (purpose_code E) @ public @ body"
      "length public = PUBLIC_KEY_BYTES" "length body = 3373"
    using Signature_validate_iff [OF assms] by blast
  with ok verify_strict_envelope [OF assms b(2,3), of key m] show ?r
    by (auto simp: signature_ok_def Signature_try_from_def andThen_eq_Inr
        split: sum.splits if_splits)
next
  assume ?r
  then obtain public body where b:
      "b = SIGNATURE_MAGIC @ suite_encode E @ to_be_bytes (purpose_code E) @ public @ body"
      "length public = PUBLIC_KEY_BYTES" "length body = 3373"
    and v: "fingerprint E public = vk_bytes key" "hybrid_verify E public m body"
    by blast
  have "Signature_validate E (Signature b) = Inr ()"
    using Signature_validate_iff [OF assms] b by blast
  with verify_strict_envelope [OF assms b(2,3), of key m] b(1) v show "signature_ok E key m b"
    by (simp add: signature_ok_def Signature_try_from_def)
qed

lemma signed_signature_ok:
  assumes E: "hybrid_correct E" and s: "try_sign E k m = Inr s"
  shows "signature_ok E (verifying_key E k) m (sig_bytes s)"
proof -
  from s obtain body where body: "hybrid_sign E (seeds k) m = Some body"
    and sb: "sig_bytes s = SIGNATURE_MAGIC @ suite_encode E @ to_be_bytes (purpose_code E)
        @ hybrid_public_key E (seeds k) @ body"
    by (auto simp: try_sign_def split: option.splits)
  have "length (suite_encode E) = 4" using E by (simp add: hybrid_correct_def)
  moreover have "length body = 3373" "hybrid_verify E (hybrid_public_key E (seeds k)) m body"
      "length (hybrid_public_key E (seeds k)) = PUBLIC_KEY_BYTES"
    using E body by (auto simp: hybrid_correct_def)
  ultimately show ?thesis
    unfolding sb by (subst signature_ok_iff) (auto simp: verifying_key_def)
qed

section \<open>A concrete environment\<close>

text \<open>An instance of the environment for evaluating concrete inputs: a byte-sum hash and a
  signature that repeats the low byte of the seed.\<close>

definition sample_crypto :: crypto where
  "sample_crypto =
     \<lparr>sha256 = (\<lambda>bs. of_nat (Suc (sum_list (map unat bs)))), suite_encode = [0, 0, 0, 1],
      purpose_code = 3, hybrid_public_key = (\<lambda>seed. replicate PUBLIC_KEY_BYTES (ucast seed)),
      hybrid_sign = (\<lambda>seed m. Some (replicate 3373 (ucast seed))),
      hybrid_verify = (\<lambda>p m s. take 1 p = take 1 s)\<rparr>"

lemma sample_crypto_correct: "hybrid_correct sample_crypto"
  by (simp add: hybrid_correct_def sample_crypto_def PUBLIC_KEY_BYTES_def)

lemma sample_sha256: "sha256 sample_crypto bs = of_nat (Suc (sum_list (map unat bs)))"
  by (simp add: sample_crypto_def)

text \<open>The byte-sum hash is never zero on an input of realistic length, and tells two inputs apart
  whose byte sums are consecutive.\<close>

lemma byte_sum_bound: "sum_list (map unat bs) \<le> 255 * length (bs :: u8 list)"
proof (induction bs)
  case (Cons b bs)
  with unat_u8_less [of b] show ?case by simp
qed simp

lemma sample_sha256_nonzero:
  assumes "length bs < 2 ^ 64"
  shows "sha256 sample_crypto bs \<noteq> 0"
proof -
  have "Suc (sum_list (map unat bs)) < 2 ^ LENGTH(256)"
    using byte_sum_bound [of bs] assms by simp
  then have "unat (sha256 sample_crypto bs) = Suc (sum_list (map unat bs))"
    unfolding sample_sha256 by (simp only: unat_of_nat mod_less)
  then show ?thesis by auto
qed

lemma sample_sha256_Suc:
  assumes "sum_list (map unat a) = Suc (sum_list (map unat b))"
  shows "sha256 sample_crypto a \<noteq> sha256 sample_crypto b"
  by (simp add: sample_sha256 assms)

lemma sample_fingerprint: "vk_bytes (verifying_key sample_crypto key) \<noteq> 0"
  unfolding verifying_key_def VerifyingKey.sel fingerprint_def
  by (rule sample_sha256_nonzero) (simp add: sample_crypto_def PUBLIC_KEY_BYTES_def bytes_of_def)

text \<open>C40. The signature envelope is closed: strict verification accepts a byte string exactly when
  it is the magic, the suite, the purpose, a public key whose fingerprint is the enrolled key and a
  hybrid signature of the message under that public key, each of its fixed length. A byte too few
  or too many, a changed header byte or another key is refused.\<close>

theorem verify_strict_closed_envelope:
  assumes "hybrid_correct E"
  shows "verify_strict E key m (Signature b) = Inr () \<longleftrightarrow>
    (\<exists>public body. b = SIGNATURE_MAGIC @ suite_encode E @ to_be_bytes (purpose_code E) @ public @ body
      \<and> length public = PUBLIC_KEY_BYTES \<and> length body = 3373
      \<and> fingerprint E public = vk_bytes key \<and> hybrid_verify E public m body)" (is "?l \<longleftrightarrow> ?r")
proof -
  have "?l \<longleftrightarrow> signature_ok E key m b"
    by (auto simp: signature_ok_def Signature_try_from_def verify_strict_def andThen_eq_Inr
        split: sum.splits)
  then show ?thesis
    using assms by (simp add: signature_ok_iff hybrid_correct_def)
qed

theorem verify_strict_closed_envelope_witness:
  "verify_strict sample_crypto (verifying_key sample_crypto (SigningKey 7)) [1, 2]
     (Signature (SIGNATURE_MAGIC @ [0, 0, 0, 1] @ [0, 3] @ replicate 1984 7 @ replicate 3373 7)) = Inr ()"
proof -
  have pc: "to_be_bytes (purpose_code sample_crypto) = [0, 3]"
    by (simp add: sample_crypto_def to_be_bytes_def be_bytes_numeral)
  have su: "suite_encode sample_crypto = [0, 0, 0, 1]"
    by (simp add: sample_crypto_def)
  have "fingerprint sample_crypto (replicate 1984 7) =
      vk_bytes (verifying_key sample_crypto (SigningKey 7))"
    by (simp add: verifying_key_def sample_crypto_def PUBLIC_KEY_BYTES_def)
  moreover have "hybrid_verify sample_crypto (replicate 1984 7) [1, 2] (replicate 3373 7)"
    by (simp add: sample_crypto_def)
  ultimately show ?thesis
    unfolding verify_strict_closed_envelope [OF sample_crypto_correct] pc su
    by (intro exI [of _ "replicate 1984 7"] exI [of _ "replicate 3373 7"])
       (simp add: PUBLIC_KEY_BYTES_def)
qed

end
