(* ===== verification/Orders.thy ===== *)
theory Orders
  imports Application_Crypto
begin

text \<open>
  The order model of \<open>oclob-core/src/lib.rs\<close>: sides, time in force, the secret order with its
  one-use controls, the market rules, the salted commitment, the private wire format, the
  signed authority and the cancellation command. A secret order exists only through
  \<open>new_with_controls\<close>; \<open>order_ok\<close> is the invariant that constructor establishes.
\<close>

section \<open>Data\<close>

datatype Side = Buy | Sell

definition Side_wire :: "Side \<Rightarrow> u8" where
  "Side_wire s = (case s of Buy \<Rightarrow> 0 | Sell \<Rightarrow> 1)"

definition opposite :: "Side \<Rightarrow> Side" where
  "opposite s = (case s of Buy \<Rightarrow> Sell | Sell \<Rightarrow> Buy)"

datatype TimeInForce = GoodTilCancelled | ImmediateOrCancel

definition TimeInForce_wire :: "TimeInForce \<Rightarrow> u8" where
  "TimeInForce_wire t = (case t of GoodTilCancelled \<Rightarrow> 1 | ImmediateOrCancel \<Rightarrow> 2)"

record SecretOrder =
  version :: u16
  order_id :: Digest32
  ephemeral_public_key :: Digest32
  market_id :: rust_str
  side :: Side
  limit_price :: u64
  quantity :: u64
  time_in_force :: TimeInForce
  expires_at :: u64
  participant_handle :: Digest32
  dekyx_nullifier :: Digest32
  reservation_id :: Digest32
  reservation_limit :: u64
  minimum_lot :: u64
  max_fee :: u64
  cancellation_secret_digest :: Digest32
  client_nonce :: Digest32
  salt :: Digest32

record OrderControls =
  oc_order_id :: Digest32
  oc_ephemeral_public_key :: Digest32
  oc_dekyx_nullifier :: Digest32
  oc_reservation_id :: Digest32
  oc_reservation_limit :: u64
  oc_minimum_lot :: u64
  oc_max_fee :: u64
  oc_cancellation_secret_digest :: Digest32

definition MAX_MATCH_SLOTS :: nat where
  "MAX_MATCH_SLOTS = 8"

record MarketRules =
  tick_size :: u64
  lot_size :: u64
  maximum_fee :: u64
  max_match_slots :: nat

definition MarketRules_p1 :: MarketRules where
  "MarketRules_p1 =
     \<lparr>tick_size = 1, lot_size = 1, maximum_fee = 0, max_match_slots = MAX_MATCH_SLOTS\<rparr>"

definition MarketRules_validate :: "MarketRules \<Rightarrow> OrderError + unit" where
  "MarketRules_validate r =
     fail_if (tick_size r = 0 \<or> lot_size r = 0 \<or> max_match_slots r \<noteq> MAX_MATCH_SLOTS)
       (Invalid ''tick, lot, and fixed matching capacity must be valid'')"

datatype OrderCommitment = OrderCommitment (commitment_bytes: Digest32)

text \<open>The derived \<open>Ord\<close>: the order of the digest.\<close>

instantiation OrderCommitment :: linorder
begin

definition less_eq_OrderCommitment :: "OrderCommitment \<Rightarrow> OrderCommitment \<Rightarrow> bool" where
  "less_eq_OrderCommitment a b \<longleftrightarrow> commitment_bytes a \<le> commitment_bytes b"

definition less_OrderCommitment :: "OrderCommitment \<Rightarrow> OrderCommitment \<Rightarrow> bool" where
  "less_OrderCommitment a b \<longleftrightarrow> commitment_bytes a < commitment_bytes b"

instance
  by standard
    (auto simp: less_eq_OrderCommitment_def less_OrderCommitment_def intro: OrderCommitment.expand)

end

record OrderAuthority =
  oa_commitment :: OrderCommitment
  authorization_deadline :: u64
  oa_verifying_key :: Digest32
  oa_signature :: "u8 list"

section \<open>Digests\<close>

definition control_digest :: "crypto \<Rightarrow> string \<Rightarrow> Digest32 \<Rightarrow> Digest32 \<Rightarrow> Digest32" where
  "control_digest E label participant nonce =
     sha256 E (bytes_of ''OCLOB:ORDER-CONTROL:v2'' @ put_bytes (bytes_of label)
               @ to_be_bytes participant @ to_be_bytes nonce)"

definition entity_scope_digest :: "crypto \<Rightarrow> Digest32 \<Rightarrow> Digest32" where
  "entity_scope_digest E participant =
     sha256 E (bytes_of ''OCLOB:ORDER-CONTROL:v2'' @ bytes_of ''dekyx-entity-scope''
               @ to_be_bytes participant)"

definition cancellation_digest :: "crypto \<Rightarrow> Digest32 \<Rightarrow> Digest32" where
  "cancellation_digest E secret = sha256 E (bytes_of ''OCLOB:CANCELLATION:v2'' @ to_be_bytes secret)"

section \<open>Construction\<close>

definition required_reserve :: "Side \<Rightarrow> u64 \<Rightarrow> u64 \<Rightarrow> u64 \<Rightarrow> u64 option" where
  "required_reserve s price qty fee =
     (case s of
        Buy \<Rightarrow> Option.bind (checked_mul price qty) (\<lambda>value. checked_add value fee)
      | Sell \<Rightarrow> Some qty)"

definition new_with_controls ::
  "rust_str \<Rightarrow> Side \<Rightarrow> u64 \<Rightarrow> u64 \<Rightarrow> TimeInForce \<Rightarrow> u64 \<Rightarrow> Digest32 \<Rightarrow> Digest32 \<Rightarrow> Digest32 \<Rightarrow>
   OrderControls \<Rightarrow> OrderError + SecretOrder" where
  "new_with_controls market s price qty tif expiry participant nonce slt controls =
     (if market = [] \<or> 64 < length market then Inl (Invalid ''market id must contain 1-64 bytes'')
      else if price = 0 \<or> qty = 0 \<or> expiry = 0
      then Inl (Invalid ''price, quantity and expiry must all be positive'')
      else if participant = 0 \<or> nonce = 0 \<or> slt = 0 \<or> oc_order_id controls = 0
        \<or> oc_ephemeral_public_key controls = 0 \<or> oc_dekyx_nullifier controls = 0
        \<or> oc_reservation_id controls = 0 \<or> oc_cancellation_secret_digest controls = 0
        \<or> oc_minimum_lot controls = 0 \<or> \<not> is_multiple_of qty (oc_minimum_lot controls)
      then Inl (Invalid ''order controls, participant handle, nonce and commitment salt are required'')
      else andThen (ok_or (required_reserve s price qty (oc_max_fee controls))
                     (Invalid ''reservation limit overflows'')) (\<lambda>required.
        if oc_reservation_limit controls < required
        then Inl (Invalid ''reservation does not cover the worst permitted fill'')
        else Inr \<lparr>version = 2, order_id = oc_order_id controls,
          ephemeral_public_key = oc_ephemeral_public_key controls, market_id = market, side = s,
          limit_price = price, quantity = qty, time_in_force = tif, expires_at = expiry,
          participant_handle = participant, dekyx_nullifier = oc_dekyx_nullifier controls,
          reservation_id = oc_reservation_id controls,
          reservation_limit = oc_reservation_limit controls,
          minimum_lot = oc_minimum_lot controls, max_fee = oc_max_fee controls,
          cancellation_secret_digest = oc_cancellation_secret_digest controls,
          client_nonce = nonce, salt = slt\<rparr>))"

definition new_with_dekyx_nullifier ::
  "crypto \<Rightarrow> rust_str \<Rightarrow> Side \<Rightarrow> u64 \<Rightarrow> u64 \<Rightarrow> TimeInForce \<Rightarrow> u64 \<Rightarrow> Digest32 \<Rightarrow> Digest32 \<Rightarrow>
   Digest32 \<Rightarrow> Digest32 \<Rightarrow> OrderError + SecretOrder" where
  "new_with_dekyx_nullifier E market s price qty tif expiry participant nullifier nonce slt =
     andThen (case s of
         Buy \<Rightarrow> ok_or (checked_mul price qty) (Invalid ''reservation limit overflows'')
       | Sell \<Rightarrow> Inr qty) (\<lambda>limit.
     new_with_controls market s price qty tif expiry participant nonce slt
       \<lparr>oc_order_id = control_digest E ''order-id'' participant nonce,
        oc_ephemeral_public_key = control_digest E ''ephemeral-key'' participant nonce,
        oc_dekyx_nullifier = nullifier,
        oc_reservation_id = control_digest E ''reservation'' participant nonce,
        oc_reservation_limit = limit, oc_minimum_lot = 1, oc_max_fee = 0,
        oc_cancellation_secret_digest = cancellation_digest E slt\<rparr>)"

definition SecretOrder_new ::
  "crypto \<Rightarrow> rust_str \<Rightarrow> Side \<Rightarrow> u64 \<Rightarrow> u64 \<Rightarrow> TimeInForce \<Rightarrow> u64 \<Rightarrow> Digest32 \<Rightarrow> Digest32 \<Rightarrow>
   Digest32 \<Rightarrow> OrderError + SecretOrder" where
  "SecretOrder_new E market s price qty tif expiry participant nonce slt =
     new_with_dekyx_nullifier E market s price qty tif expiry participant
       (entity_scope_digest E participant) nonce slt"

definition validate_market_rules :: "SecretOrder \<Rightarrow> MarketRules \<Rightarrow> OrderError + unit" where
  "validate_market_rules ord rules =
     andThen (MarketRules_validate rules) (\<lambda>_.
       fail_if (\<not> is_multiple_of (limit_price ord) (tick_size rules)
                \<or> \<not> is_multiple_of (quantity ord) (lot_size rules)
                \<or> minimum_lot ord \<noteq> lot_size rules
                \<or> maximum_fee rules < max_fee ord)
         (Invalid ''order violates tick, lot, or fee rules''))"

section \<open>The private wire format\<close>

definition SECRET_ORDER_WIRE_MAGIC :: "u8 list" where
  "SECRET_ORDER_WIRE_MAGIC = bytes_of ''OCLOBOR2''"

definition MAX_SECRET_ORDER_WIRE_BYTES :: nat where
  "MAX_SECRET_ORDER_WIRE_BYTES = 512"

definition canonical_payload :: "SecretOrder \<Rightarrow> u8 list" where
  "canonical_payload ord =
     to_be_bytes (version ord) @ to_be_bytes (order_id ord) @ to_be_bytes (ephemeral_public_key ord)
     @ put_bytes (market_id ord) @ [Side_wire (side ord)] @ to_be_bytes (limit_price ord)
     @ to_be_bytes (quantity ord) @ [TimeInForce_wire (time_in_force ord)] @ to_be_bytes (expires_at ord)
     @ to_be_bytes (participant_handle ord) @ to_be_bytes (dekyx_nullifier ord)
     @ to_be_bytes (reservation_id ord) @ to_be_bytes (reservation_limit ord)
     @ to_be_bytes (minimum_lot ord) @ to_be_bytes (max_fee ord)
     @ to_be_bytes (cancellation_secret_digest ord) @ to_be_bytes (client_nonce ord)"

definition to_secret_wire :: "SecretOrder \<Rightarrow> u8 list" where
  "to_secret_wire ord =
     SECRET_ORDER_WIRE_MAGIC @ put_bytes (canonical_payload ord) @ to_be_bytes (salt ord)"

text \<open>The reads of \<open>from_secret_wire\<close> that check what they read.\<close>

definition cursor_version :: "SecretWireCursor \<Rightarrow> OrderError + u16 \<times> SecretWireCursor" where
  "cursor_version c = andThen (cursor_u16 c) (\<lambda>(v, c).
     if v \<noteq> 2 then Inl (Invalid ''secret order wire version is unsupported'') else Inr (v, c))"

definition cursor_market :: "SecretWireCursor \<Rightarrow> OrderError + rust_str \<times> SecretWireCursor" where
  "cursor_market c = andThen (cursor_prefixed c) (\<lambda>(bs, c).
     if utf8_valid bs then Inr (bs, c) else Inl (Invalid ''secret order market is not UTF-8''))"

definition cursor_side :: "SecretWireCursor \<Rightarrow> OrderError + Side \<times> SecretWireCursor" where
  "cursor_side c = andThen (cursor_u8 c) (\<lambda>(b, c).
     if b = 0 then Inr (Buy, c) else if b = 1 then Inr (Sell, c)
     else Inl (Invalid ''secret order side is invalid''))"

definition cursor_tif :: "SecretWireCursor \<Rightarrow> OrderError + TimeInForce \<times> SecretWireCursor" where
  "cursor_tif c = andThen (cursor_u8 c) (\<lambda>(b, c).
     if b = 1 then Inr (GoodTilCancelled, c) else if b = 2 then Inr (ImmediateOrCancel, c)
     else Inl (Invalid ''secret order time-in-force is invalid''))"

definition parse_payload :: "u8 list \<Rightarrow> Digest32 \<Rightarrow> OrderError + SecretOrder" where
  "parse_payload bs slt =
     (let p = cursor_new bs in
      andThen (cursor_version p) (\<lambda>(v, p).
      andThen (cursor_digest p) (\<lambda>(oid, p).
      andThen (cursor_digest p) (\<lambda>(epk, p).
      andThen (cursor_market p) (\<lambda>(market, p).
      andThen (cursor_side p) (\<lambda>(s, p).
      andThen (cursor_u64 p) (\<lambda>(price, p).
      andThen (cursor_u64 p) (\<lambda>(qty, p).
      andThen (cursor_tif p) (\<lambda>(tif, p).
      andThen (cursor_u64 p) (\<lambda>(expiry, p).
      andThen (cursor_digest p) (\<lambda>(participant, p).
      andThen (cursor_digest p) (\<lambda>(nullifier, p).
      andThen (cursor_digest p) (\<lambda>(rid, p).
      andThen (cursor_u64 p) (\<lambda>(limit, p).
      andThen (cursor_u64 p) (\<lambda>(lot, p).
      andThen (cursor_u64 p) (\<lambda>(fee, p).
      andThen (cursor_digest p) (\<lambda>(csd, p).
      andThen (cursor_digest p) (\<lambda>(nonce, p).
      andThen (cursor_finish p) (\<lambda>_.
      new_with_controls market s price qty tif expiry participant nonce slt
        \<lparr>oc_order_id = oid, oc_ephemeral_public_key = epk, oc_dekyx_nullifier = nullifier,
         oc_reservation_id = rid, oc_reservation_limit = limit, oc_minimum_lot = lot,
         oc_max_fee = fee, oc_cancellation_secret_digest = csd\<rparr>)))))))))))))))))))"

definition from_secret_wire :: "u8 list \<Rightarrow> OrderError + SecretOrder" where
  "from_secret_wire bs =
     (if MAX_SECRET_ORDER_WIRE_BYTES < length bs
         \<or> length bs < length SECRET_ORDER_WIRE_MAGIC + 8 + 32
         \<or> take (length SECRET_ORDER_WIRE_MAGIC) bs \<noteq> SECRET_ORDER_WIRE_MAGIC
      then Inl wire_malformed
      else
        andThen (cursor_prefixed (cursor_new (drop (length SECRET_ORDER_WIRE_MAGIC) bs)))
          (\<lambda>(payload, wire).
        andThen (cursor_digest wire) (\<lambda>(slt, wire).
        andThen (cursor_finish wire) (\<lambda>_. parse_payload payload slt))))"

section \<open>Commitments and authorities\<close>

definition commitment_preimage :: "SecretOrder \<Rightarrow> u8 list" where
  "commitment_preimage ord =
     bytes_of ''OCLOB:ORDER-COMMITMENT:v2'' @ to_be_bytes (salt ord) @ canonical_payload ord"

definition commitment :: "crypto \<Rightarrow> SecretOrder \<Rightarrow> OrderCommitment" where
  "commitment E ord = OrderCommitment (sha256 E (commitment_preimage ord))"

definition authority_body :: "crypto \<Rightarrow> OrderCommitment \<Rightarrow> u64 \<Rightarrow> u8 list" where
  "authority_body E c deadline =
     to_be_bytes (sha256 E (bytes_of ''OCLOB:ORDER-AUTHORITY:v2''
                            @ to_be_bytes (commitment_bytes c) @ to_be_bytes deadline))"

definition authorize_order ::
  "crypto \<Rightarrow> SecretOrder \<Rightarrow> u64 \<Rightarrow> SigningKey \<Rightarrow> OrderError + OrderAuthority" where
  "authorize_order E ord deadline key =
     (if deadline < expires_at ord then Inl (Invalid ''authorization expires before the order'')
      else let c = commitment E ord in
        andThen (map_err (\<lambda>_. Authority) (try_sign E key (authority_body E c deadline))) (\<lambda>s.
          Inr \<lparr>oa_commitment = c, authorization_deadline = deadline,
               oa_verifying_key = vk_bytes (verifying_key E key), oa_signature = sig_bytes s\<rparr>))"

definition OrderAuthority_verify ::
  "crypto \<Rightarrow> OrderAuthority \<Rightarrow> SecretOrder \<Rightarrow> u64 \<Rightarrow> OrderError + unit" where
  "OrderAuthority_verify E a ord now =
     (if authorization_deadline a < now \<or> expires_at ord < now \<or> oa_commitment a \<noteq> commitment E ord
      then Inl Authority
      else andThen (map_err (\<lambda>_. Authority) (VerifyingKey_from_bytes (oa_verifying_key a))) (\<lambda>key.
           andThen (map_err (\<lambda>_. Authority) (Signature_try_from E (oa_signature a))) (\<lambda>s.
           map_err (\<lambda>_. Authority)
             (verify_strict E key (authority_body E (oa_commitment a) (authorization_deadline a)) s))))"

section \<open>Cancellation and expiry commands\<close>

record SecretCancellation =
  sc_target :: OrderCommitment
  sc_secret :: Digest32
  sc_nonce :: Digest32
  sc_salt :: Digest32

definition SecretCancellation_new ::
  "OrderCommitment \<Rightarrow> Digest32 \<Rightarrow> Digest32 \<Rightarrow> Digest32 \<Rightarrow> OrderError + SecretCancellation" where
  "SecretCancellation_new t secret nonce slt =
     (if commitment_bytes t = 0 \<or> secret = 0 \<or> nonce = 0 \<or> slt = 0
      then Inl (Invalid ''cancellation fields are required'')
      else Inr \<lparr>sc_target = t, sc_secret = secret, sc_nonce = nonce, sc_salt = slt\<rparr>)"

definition SecretCancellation_commitment :: "crypto \<Rightarrow> SecretCancellation \<Rightarrow> OrderCommitment" where
  "SecretCancellation_commitment E k =
     OrderCommitment (sha256 E (bytes_of ''OCLOB:CANCELLATION-COMMITMENT:v2''
       @ to_be_bytes (sc_salt k) @ to_be_bytes (commitment_bytes (sc_target k))
       @ to_be_bytes (sc_secret k) @ to_be_bytes (sc_nonce k)))"

definition expiry_preimage :: "rust_str \<Rightarrow> u64 \<Rightarrow> OrderCommitment list \<Rightarrow> u8 list" where
  "expiry_preimage market cutoff expired =
     (let orders = sort expired in
      bytes_of ''OCLOB:EXPIRY-COMMITMENT:v2'' @ put_bytes market @ to_be_bytes cutoff
      @ to_be_bytes (of_nat (length orders) :: u64)
      @ concat (map (to_be_bytes \<circ> commitment_bytes) orders))"

definition expiry_commitment :: "crypto \<Rightarrow> rust_str \<Rightarrow> u64 \<Rightarrow> OrderCommitment list \<Rightarrow> OrderCommitment" where
  "expiry_commitment E market cutoff expired =
     OrderCommitment (sha256 E (expiry_preimage market cutoff expired))"

section \<open>The invariant of a secret order\<close>

definition order_ok :: "SecretOrder \<Rightarrow> bool" where
  "order_ok ord \<longleftrightarrow>
     version ord = 2 \<and> market_id ord \<noteq> [] \<and> length (market_id ord) \<le> 64
     \<and> limit_price ord \<noteq> 0 \<and> quantity ord \<noteq> 0 \<and> expires_at ord \<noteq> 0
     \<and> participant_handle ord \<noteq> 0 \<and> client_nonce ord \<noteq> 0 \<and> salt ord \<noteq> 0 \<and> order_id ord \<noteq> 0
     \<and> ephemeral_public_key ord \<noteq> 0 \<and> dekyx_nullifier ord \<noteq> 0 \<and> reservation_id ord \<noteq> 0
     \<and> cancellation_secret_digest ord \<noteq> 0 \<and> minimum_lot ord \<noteq> 0
     \<and> is_multiple_of (quantity ord) (minimum_lot ord)
     \<and> (case required_reserve (side ord) (limit_price ord) (quantity ord) (max_fee ord) of
           None \<Rightarrow> False | Some r \<Rightarrow> r \<le> reservation_limit ord)"

lemma new_with_controls_Inr:
  "new_with_controls market s price qty tif expiry participant nonce slt controls = Inr ord \<longleftrightarrow>
     order_ok ord \<and>
     ord = \<lparr>version = 2, order_id = oc_order_id controls,
          ephemeral_public_key = oc_ephemeral_public_key controls, market_id = market, side = s,
          limit_price = price, quantity = qty, time_in_force = tif, expires_at = expiry,
          participant_handle = participant, dekyx_nullifier = oc_dekyx_nullifier controls,
          reservation_id = oc_reservation_id controls,
          reservation_limit = oc_reservation_limit controls,
          minimum_lot = oc_minimum_lot controls, max_fee = oc_max_fee controls,
          cancellation_secret_digest = oc_cancellation_secret_digest controls,
          client_nonce = nonce, salt = slt\<rparr>" (is "?l \<longleftrightarrow> order_ok ord \<and> ord = ?ord")
proof
  assume ?l
  then show "order_ok ord \<and> ord = ?ord"
    by (auto simp: new_with_controls_def order_ok_def result_ok split: if_splits)
next
  assume "order_ok ord \<and> ord = ?ord"
  then have ok: "order_ok ord" and ord: "ord = ?ord" by blast+
  from ok obtain x where "required_reserve s price qty (oc_max_fee controls) = Some x"
      "x \<le> oc_reservation_limit controls"
    by (auto simp: order_ok_def ord split: option.splits)
  with ok show ?l
    by (simp add: new_with_controls_def order_ok_def ord)
qed

lemma required_reserve_Buy:
  "required_reserve Buy price qty fee = Some r \<longleftrightarrow>
     unat price * unat qty + unat fee < 2 ^ 64 \<and> r = price * qty + fee"
proof (cases "unat price * unat qty < 2 ^ LENGTH(64)")
  case True
  then have "checked_mul price qty = Some (price * qty)" "unat (price * qty) = unat price * unat qty"
    by (simp_all add: checked_mul_def unat_mult_bounded)
  then show ?thesis by (auto simp: required_reserve_def checked_add_Some)
next
  case False
  then have "checked_mul price qty = None" by (simp add: checked_mul_def)
  with False show ?thesis by (simp add: required_reserve_def)
qed

lemma required_reserve_Sell [simp]: "required_reserve Sell price qty fee = Some qty"
  by (simp add: required_reserve_def)

section \<open>The codecs of the wire format\<close>

interpretation wver: wire_codec "\<lambda>v. v = 2" "to_be_bytes \<circ> (\<lambda>v::u16. v)" cursor_version
  by (rule map_codec [OF w16.wire_codec_axioms, where f = "\<lambda>v. if v \<noteq> 2
        then Inl (Invalid ''secret order wire version is unsupported'') else Inr v"])
     (auto simp: cursor_version_def split_def intro!: arg_cong2 [where f = andThen] split: if_splits)

interpretation wmkt: wire_codec utf8_valid "put_bytes \<circ> (\<lambda>b. b)" cursor_market
  by (rule map_codec [OF wstr.wire_codec_axioms, where f = "\<lambda>b. if utf8_valid b then Inr b
        else Inl (Invalid ''secret order market is not UTF-8'')"])
     (auto simp: cursor_market_def split_def intro!: arg_cong2 [where f = andThen] split: if_splits)

interpretation wside: wire_codec "\<lambda>_. True" "to_be_bytes \<circ> Side_wire" cursor_side
  by (rule map_codec [OF w8.wire_codec_axioms, where f = "\<lambda>b. if b = 0 then Inr Buy
        else if b = 1 then Inr Sell else Inl (Invalid ''secret order side is invalid'')"])
     (auto simp: cursor_side_def Side_wire_def split_def intro!: arg_cong2 [where f = andThen]
        split: if_splits Side.splits)

interpretation wtif: wire_codec "\<lambda>_. True" "to_be_bytes \<circ> TimeInForce_wire" cursor_tif
  by (rule map_codec [OF w8.wire_codec_axioms, where f = "\<lambda>b. if b = 1 then Inr GoodTilCancelled
        else if b = 2 then Inr ImmediateOrCancel
        else Inl (Invalid ''secret order time-in-force is invalid'')"])
     (auto simp: cursor_tif_def TimeInForce_wire_def split_def intro!: arg_cong2 [where f = andThen]
        split: if_splits TimeInForce.splits)

text \<open>The payload as one codec: the fields of the order, in the order they are written.\<close>

definition payload_enc where
  "payload_enc =
     pair_enc (to_be_bytes \<circ> (\<lambda>v::u16. v)) (pair_enc (to_be_bytes :: Digest32 \<Rightarrow> u8 list)
     (pair_enc (to_be_bytes :: Digest32 \<Rightarrow> u8 list) (pair_enc (put_bytes \<circ> (\<lambda>b. b))
     (pair_enc (to_be_bytes \<circ> Side_wire) (pair_enc (to_be_bytes :: u64 \<Rightarrow> u8 list)
     (pair_enc (to_be_bytes :: u64 \<Rightarrow> u8 list) (pair_enc (to_be_bytes \<circ> TimeInForce_wire)
     (pair_enc (to_be_bytes :: u64 \<Rightarrow> u8 list) (pair_enc (to_be_bytes :: Digest32 \<Rightarrow> u8 list)
     (pair_enc (to_be_bytes :: Digest32 \<Rightarrow> u8 list) (pair_enc (to_be_bytes :: Digest32 \<Rightarrow> u8 list)
     (pair_enc (to_be_bytes :: u64 \<Rightarrow> u8 list) (pair_enc (to_be_bytes :: u64 \<Rightarrow> u8 list)
     (pair_enc (to_be_bytes :: u64 \<Rightarrow> u8 list) (pair_enc (to_be_bytes :: Digest32 \<Rightarrow> u8 list)
       (to_be_bytes :: Digest32 \<Rightarrow> u8 list))))))))))))))))"

definition payload_dec where
  "payload_dec =
     pair_dec cursor_version (pair_dec cursor_digest (pair_dec cursor_digest (pair_dec cursor_market
     (pair_dec cursor_side (pair_dec cursor_u64 (pair_dec cursor_u64 (pair_dec cursor_tif
     (pair_dec cursor_u64 (pair_dec cursor_digest (pair_dec cursor_digest (pair_dec cursor_digest
     (pair_dec cursor_u64 (pair_dec cursor_u64 (pair_dec cursor_u64 (pair_dec cursor_digest
       cursor_digest)))))))))))))))"

definition payload_fields where
  "payload_fields ord =
     (version ord, order_id ord, ephemeral_public_key ord, market_id ord, side ord,
      limit_price ord, quantity ord, time_in_force ord, expires_at ord, participant_handle ord,
      dekyx_nullifier ord, reservation_id ord, reservation_limit ord, minimum_lot ord, max_fee ord,
      cancellation_secret_digest ord, client_nonce ord)"

interpretation wpay: wire_codec
  "\<lambda>(v, _, _, market, _). v = 2 \<and> utf8_valid market" payload_enc payload_dec
proof -
  note cs = wver.wire_codec_axioms w256.wire_codec_axioms wmkt.wire_codec_axioms
    wside.wire_codec_axioms w64.wire_codec_axioms wtif.wire_codec_axioms
  show "wire_codec (\<lambda>(v, _, _, market, _). v = 2 \<and> utf8_valid market) payload_enc payload_dec"
    unfolding payload_enc_def payload_dec_def
    by (rule wire_codec_cong, (rule pair_codec cs)+) auto
qed

lemma to_be_bytes_u8: "to_be_bytes b = [b :: u8]"
  by (simp add: to_be_bytes_def mod_less [OF unat_u8_less])

lemma canonical_payload_fields: "canonical_payload ord = payload_enc (payload_fields ord)"
  by (simp add: canonical_payload_def payload_enc_def payload_fields_def pair_enc_def to_be_bytes_u8)

lemma length_canonical_payload: "length (canonical_payload ord) = 284 + length (market_id ord)"
  by (simp add: canonical_payload_def put_bytes_def)

lemma parse_payload_eq:
  "parse_payload bs slt =
     andThen (payload_dec (cursor_new bs)) (\<lambda>((v, oid, epk, market, s, price, qty, tif, expiry,
       participant, nullifier, rid, limit, lot, fee, csd, nonce), p).
     andThen (cursor_finish p) (\<lambda>_.
     new_with_controls market s price qty tif expiry participant nonce slt
        \<lparr>oc_order_id = oid, oc_ephemeral_public_key = epk, oc_dekyx_nullifier = nullifier,
         oc_reservation_id = rid, oc_reservation_limit = limit, oc_minimum_lot = lot,
         oc_max_fee = fee, oc_cancellation_secret_digest = csd\<rparr>))"
  by (simp only: parse_payload_def payload_dec_def andThen_pair_dec prod.case Let_def)

lemma parse_payload_iff:
  assumes "length bs < 2 ^ 64"
  shows "parse_payload bs slt = Inr ord \<longleftrightarrow>
    order_ok ord \<and> utf8_valid (market_id ord) \<and> salt ord = slt \<and> bs = canonical_payload ord"
    (is "?l \<longleftrightarrow> ?r")
proof
  assume ?l
  then obtain fs p where d: "payload_dec (cursor_new bs) = Inr (fs, p)"
    and f: "cursor_finish p = Inr ()" and ok: "order_ok ord" and slt: "salt ord = slt"
    and tl: "snd (payload_fields ord) = snd fs"
    by (auto simp: parse_payload_eq andThen_eq_Inr new_with_controls_Inr payload_fields_def)
  from wpay.whole_buffer_iff [OF assms, of fs] d f
  have v: "fst fs = 2" "utf8_valid (fst (snd (snd (snd fs))))" and bs: "bs = payload_enc fs"
    by (auto simp: split_def)
  have "fst (payload_fields ord) = fst fs"
    using ok v by (simp add: order_ok_def payload_fields_def)
  with tl have "payload_fields ord = fs" by (simp add: prod_eq_iff)
  with ok slt v bs show ?r
    by (auto simp: canonical_payload_fields payload_fields_def)
next
  assume r: ?r
  then have "(case payload_fields ord of (v, _, _, market, _) \<Rightarrow> v = 2 \<and> utf8_valid market)"
    and bs: "bs = payload_enc (payload_fields ord)"
    by (simp_all add: payload_fields_def order_ok_def canonical_payload_fields)
  with wpay.whole_buffer_iff [OF assms, of "payload_fields ord"]
  obtain p where d: "payload_dec (cursor_new bs) = Inr (payload_fields ord, p)"
    and f: "cursor_finish p = Inr ()" by blast
  have "version ord = 2" using r by (simp add: order_ok_def)
  then show ?l
    using d f r by (simp add: parse_payload_eq payload_fields_def new_with_controls_Inr)
qed

text \<open>The outer frame: a length-prefixed payload, then the salt.\<close>

lemma wire_frame:
  "andThen (cursor_prefixed c) (\<lambda>(payload, wire). andThen (cursor_digest wire) (\<lambda>(slt, wire).
     andThen (cursor_finish wire) (\<lambda>_. k payload slt))) =
   andThen (pair_dec cursor_prefixed cursor_digest c) (\<lambda>((payload, slt), wire).
     andThen (cursor_finish wire) (\<lambda>_. k payload slt))"
  by (simp add: andThen_pair_dec)

lemma length_SECRET_ORDER_WIRE_MAGIC [simp]: "length SECRET_ORDER_WIRE_MAGIC = 8"
  by (simp add: SECRET_ORDER_WIRE_MAGIC_def bytes_of_def)

lemma secret_wire_exact:
  "from_secret_wire bs = Inr ord \<longleftrightarrow>
     order_ok ord \<and> utf8_valid (market_id ord) \<and> bs = to_secret_wire ord" (is "?l \<longleftrightarrow> ?r")
proof -
  let ?body = "drop 8 bs"
  have frame: "(\<exists>c. pair_dec cursor_prefixed cursor_digest (cursor_new ?body) = Inr ((payload, slt), c)
      \<and> cursor_finish c = Inr ()) \<longleftrightarrow> ?body = put_bytes payload @ to_be_bytes slt"
    if "length bs \<le> 512" for payload slt
    using wire_codec.whole_buffer_iff [OF pair_codec [OF wstr.wire_codec_axioms w256.wire_codec_axioms],
        of ?body "(payload, slt)"] that
    by (simp add: pair_enc_def)
  show ?thesis
  proof
    assume l: ?l
    then have len: "length bs \<le> 512" and magic: "take 8 bs = SECRET_ORDER_WIRE_MAGIC"
      by (auto simp: from_secret_wire_def MAX_SECRET_ORDER_WIRE_BYTES_def split: if_splits)
    from l obtain payload slt c where
        "pair_dec cursor_prefixed cursor_digest (cursor_new ?body) = Inr ((payload, slt), c)"
        "cursor_finish c = Inr ()" and p: "parse_payload payload slt = Inr ord"
      by (auto simp: from_secret_wire_def wire_frame andThen_eq_Inr split: if_splits)
    with frame [OF len] have body: "?body = put_bytes payload @ to_be_bytes slt" by blast
    have "length ?body = length (put_bytes payload) + 32" by (simp add: body)
    with len have "length payload < 2 ^ 64" by (simp add: put_bytes_def)
    with p body magic show ?r
      using append_take_drop_id [of 8 bs] by (auto simp: parse_payload_iff to_secret_wire_def)
  next
    assume r: ?r
    then have bs: "bs = SECRET_ORDER_WIRE_MAGIC @ put_bytes (canonical_payload ord) @ to_be_bytes (salt ord)"
      and m: "length (market_id ord) \<le> 64"
      by (auto simp: to_secret_wire_def order_ok_def)
    have len: "length bs \<le> 512" "48 \<le> length bs"
      using m by (simp_all add: bs put_bytes_def length_canonical_payload)
    have pay: "parse_payload (canonical_payload ord) (salt ord) = Inr ord"
      using r m by (simp add: parse_payload_iff length_canonical_payload)
    from frame [OF len(1), of "canonical_payload ord" "salt ord"] obtain c where
        "pair_dec cursor_prefixed cursor_digest (cursor_new ?body) = Inr ((canonical_payload ord, salt ord), c)"
        "cursor_finish c = Inr ()"
      by (auto simp: bs)
    then show ?l
      using len pay
      by (simp add: from_secret_wire_def wire_frame MAX_SECRET_ORDER_WIRE_BYTES_def) (simp add: bs)
  qed
qed

text \<open>C11. The private wire format is strict and canonical: a byte string decodes to an order
  exactly when the order satisfies every rule of the constructor, its market name is UTF-8, and
  the byte string is the encoding of that order. So decoding inverts encoding, and no other byte
  string (trailing bytes, another length, another version, an unknown tag) decodes at all.\<close>

theorem from_secret_wire_iff:
  "from_secret_wire bs = Inr ord \<longleftrightarrow>
     order_ok ord \<and> utf8_valid (market_id ord) \<and> bs = to_secret_wire ord"
  by (rule secret_wire_exact)

section \<open>A concrete order\<close>

text \<open>Orders for evaluating concrete inputs; \<open>n\<close> tells two orders of one owner apart. Their
  cancellation secret is 4, whose digest under the byte-sum hash is 1533.\<close>

definition sample_order :: "Side \<Rightarrow> u64 \<Rightarrow> u64 \<Rightarrow> TimeInForce \<Rightarrow> Digest32 \<Rightarrow> SecretOrder" where
  "sample_order s price qty tif n =
     \<lparr>version = 2, order_id = n, ephemeral_public_key = n, market_id = [65], side = s,
      limit_price = price, quantity = qty, time_in_force = tif, expires_at = 99,
      participant_handle = 1, dekyx_nullifier = 2, reservation_id = n,
      reservation_limit = 1000, minimum_lot = 1, max_fee = 0, cancellation_secret_digest = 1533,
      client_nonce = n, salt = n\<rparr>"

lemma sample_order_ok:
  assumes "price \<noteq> 0" "qty \<noteq> 0" "n \<noteq> 0"
    and "unat price * unat qty \<le> 1000" "unat qty \<le> 1000"
  shows "order_ok (sample_order s price qty tif n)" "utf8_valid (market_id (sample_order s price qty tif n))"
proof -
  have "required_reserve Buy price qty 0 = Some (price * qty)"
    using assms(4) by (simp add: required_reserve_Buy)
  moreover have "price * qty \<le> 1000"
    using assms(4) by (simp add: word_le_nat_alt unat_mult_bounded)
  moreover have "qty \<le> 1000" using assms(5) by (simp add: word_le_nat_alt)
  ultimately show "order_ok (sample_order s price qty tif n)"
    using assms(1-3) by (cases s) (simp_all add: order_ok_def sample_order_def is_multiple_of_def)
  show "utf8_valid (market_id (sample_order s price qty tif n))"
    by (simp add: sample_order_def utf8_valid_ascii)
qed

lemma sample_cancellation_digest: "cancellation_digest sample_crypto 4 = 1533"
  by (simp add: cancellation_digest_def sample_sha256 to_be_bytes_def be_bytes_numeral bytes_of_def)

section \<open>What a reservation covers\<close>

text \<open>The price of a fill is permitted when it is no worse for the owner than the limit.\<close>

definition permitted_price :: "SecretOrder \<Rightarrow> u64 \<Rightarrow> bool" where
  "permitted_price ord price \<longleftrightarrow>
     (case side ord of Buy \<Rightarrow> price \<le> limit_price ord | Sell \<Rightarrow> limit_price ord \<le> price)"

lemma cost_bound:
  "(\<And>p q. (p, q) \<in> set fills \<Longrightarrow> p \<le> l) \<Longrightarrow>
     (\<Sum>(p, q)\<leftarrow>fills. unat p * unat q) \<le> unat l * (\<Sum>(p, q)\<leftarrow>fills. unat q)"
  for fills :: "(u64 \<times> u64) list"
proof (induction fills)
  case (Cons f fills)
  obtain p q where f: "f = (p, q)" by (cases f)
  have "unat p * unat q \<le> unat l * unat q"
    using Cons.prems [of p q] by (intro mult_right_mono) (simp_all add: f word_le_nat_alt)
  moreover have "(\<Sum>(p, q)\<leftarrow>fills. unat p * unat q) \<le> unat l * (\<Sum>(p, q)\<leftarrow>fills. unat q)"
    by (rule Cons.IH) (use Cons.prems in auto)
  ultimately show ?case by (simp only: f list.map sum_list.Cons prod.case distrib_left add_mono)
qed simp

lemma order_ok_reserve:
  assumes "order_ok ord"
  shows "side ord = Buy \<Longrightarrow>
      unat (limit_price ord) * unat (quantity ord) + unat (max_fee ord) \<le> unat (reservation_limit ord)"
    and "side ord = Sell \<Longrightarrow> unat (quantity ord) \<le> unat (reservation_limit ord)"
proof -
  assume b: "side ord = Buy"
  with assms obtain r where r: "required_reserve Buy (limit_price ord) (quantity ord) (max_fee ord) = Some r"
      "r \<le> reservation_limit ord"
    by (auto simp: order_ok_def split: option.splits)
  then have lt: "unat (limit_price ord) * unat (quantity ord) + unat (max_fee ord) < 2 ^ LENGTH(64)"
    and re: "r = limit_price ord * quantity ord + max_fee ord"
    by (simp_all add: required_reserve_Buy)
  have m: "unat (limit_price ord * quantity ord) = unat (limit_price ord) * unat (quantity ord)"
    by (rule unat_mult_bounded) (use lt in linarith)
  have "unat r = unat (limit_price ord) * unat (quantity ord) + unat (max_fee ord)"
    unfolding re by (subst unat_add_bounded) (use lt m in simp_all)
  with r(2) show "unat (limit_price ord) * unat (quantity ord) + unat (max_fee ord)
      \<le> unat (reservation_limit ord)"
    by (simp add: word_le_nat_alt)
next
  assume "side ord = Sell"
  with assms show "unat (quantity ord) \<le> unat (reservation_limit ord)"
    by (auto simp: order_ok_def word_le_nat_alt)
qed

text \<open>The reservation of an accepted order covers every way it can fill: whatever fills it
  receives at permitted prices for at most its quantity in total, a buyer's cost plus the maximal fee
  and a seller's delivery stay within the reservation limit, with no overflow in between.\<close>

lemma reservation_covers_fills:
  fixes fills :: "(u64 \<times> u64) list"
  assumes "new_with_controls market s price qty tif expiry participant nonce slt controls = Inr ord"
    and "\<And>p q. (p, q) \<in> set fills \<Longrightarrow> permitted_price ord p"
    and "(\<Sum>(p, q)\<leftarrow>fills. unat q) \<le> unat qty"
  shows "case s of
      Buy \<Rightarrow> (\<Sum>(p, q)\<leftarrow>fills. unat p * unat q) + unat (max_fee ord) \<le> unat (reservation_limit ord)
    | Sell \<Rightarrow> (\<Sum>(p, q)\<leftarrow>fills. unat q) \<le> unat (reservation_limit ord)"
proof -
  have ok: "order_ok ord" and f: "side ord = s" "quantity ord = qty"
    using assms(1) by (auto simp: new_with_controls_Inr)
  show ?thesis
  proof (cases s)
    case Buy
    have "(\<Sum>(p, q)\<leftarrow>fills. unat p * unat q)
        \<le> unat (limit_price ord) * (\<Sum>(p, q)\<leftarrow>fills. unat q)"
      by (rule cost_bound) (use assms(2) f Buy in \<open>auto simp: permitted_price_def\<close>)
    also have "\<dots> \<le> unat (limit_price ord) * unat (quantity ord)"
      using assms(3) f by simp
    finally show ?thesis using order_ok_reserve(1) [OF ok] f Buy by simp
  next
    case Sell
    with assms(3) f order_ok_reserve(2) [OF ok] show ?thesis by simp
  qed
qed

section \<open>Binding of commitments, and authorities\<close>

lemma canonical_payload_inject:
  assumes "order_ok a" "utf8_valid (market_id a)" "order_ok b" "utf8_valid (market_id b)"
    and "canonical_payload a = canonical_payload b" "salt a = salt b"
  shows "a = b"
proof -
  have len: "length (canonical_payload a) < 2 ^ 64"
    using assms(1) by (simp add: length_canonical_payload order_ok_def)
  have "parse_payload (canonical_payload a) (salt a) = Inr a"
    using parse_payload_iff [OF len] assms(1,2) by simp
  moreover have "parse_payload (canonical_payload a) (salt a) = Inr b"
    using parse_payload_iff [OF len] assms(3-6) by simp
  ultimately show ?thesis by simp
qed

text \<open>C39. The commitment binds every field: two orders the constructor accepts have the same commitment
  only if they are the same order, or their two commitment preimages are different byte strings on
  which SHA-256 collides.\<close>

theorem commitment_binding:
  assumes "order_ok a" "utf8_valid (market_id a)" "order_ok b" "utf8_valid (market_id b)"
  shows "commitment E a = commitment E b \<longleftrightarrow>
    a = b \<or> commitment_preimage a \<noteq> commitment_preimage b
            \<and> sha256 E (commitment_preimage a) = sha256 E (commitment_preimage b)"
proof -
  have "commitment_preimage a = commitment_preimage b \<Longrightarrow> a = b"
    using canonical_payload_inject [OF assms] by (simp add: commitment_preimage_def)
  then show ?thesis by (auto simp: commitment_def)
qed

theorem commitment_binding_witness:
  "commitment sample_crypto (sample_order Buy 5 4 GoodTilCancelled 7)
     \<noteq> commitment sample_crypto (sample_order Buy 5 3 GoodTilCancelled 7)"
proof -
  let ?a = "sample_order Buy 5 4 GoodTilCancelled 7" and ?b = "sample_order Buy 5 3 GoodTilCancelled 7"
  have "order_ok ?a" "utf8_valid (market_id ?a)" "order_ok ?b" "utf8_valid (market_id ?b)"
    by (simp_all add: sample_order_ok)
  moreover have "?a \<noteq> ?b" by (simp add: sample_order_def)
  moreover have "sha256 sample_crypto (commitment_preimage ?a) \<noteq> sha256 sample_crypto (commitment_preimage ?b)"
    by (rule sample_sha256_Suc)
       (simp add: commitment_preimage_def canonical_payload_def sample_order_def to_be_bytes_def
          be_bytes_numeral)
  ultimately show ?thesis using commitment_binding [of ?a ?b sample_crypto] by blast
qed

lemma OrderAuthority_verify_iff:
  "OrderAuthority_verify E a ord now = Inr () \<longleftrightarrow>
     now \<le> authorization_deadline a \<and> now \<le> expires_at ord \<and> oa_commitment a = commitment E ord
     \<and> oa_verifying_key a \<noteq> 0
     \<and> signature_ok E (VerifyingKey (oa_verifying_key a))
         (authority_body E (oa_commitment a) (authorization_deadline a)) (oa_signature a)"
  by (auto simp: OrderAuthority_verify_def signature_ok_def VerifyingKey_from_bytes_def result_ok
      not_less split: sum.splits)

lemma authority_roundtrip:
  assumes "hybrid_correct E" "vk_bytes (verifying_key E key) \<noteq> 0"
    and a: "authorize_order E ord deadline key = Inr a"
  shows "OrderAuthority_verify E a ord now = Inr () \<longleftrightarrow> now \<le> expires_at ord"
proof -
  from a obtain s where s: "try_sign E key (authority_body E (commitment E ord) deadline) = Inr s"
    and d: "expires_at ord \<le> deadline"
    and f: "a = \<lparr>oa_commitment = commitment E ord, authorization_deadline = deadline,
        oa_verifying_key = vk_bytes (verifying_key E key), oa_signature = sig_bytes s\<rparr>"
    by (auto simp: authorize_order_def Let_def result_ok not_less split: if_splits)
  from signed_signature_ok [OF assms(1) s] d assms(2) show ?thesis
    by (auto simp: OrderAuthority_verify_iff f)
qed

text \<open>The authority of a concrete order, and its commitment as a number.\<close>

definition sample_authority :: "SecretOrder \<Rightarrow> OrderAuthority" where
  "sample_authority ord =
     (case authorize_order sample_crypto ord 120 (SigningKey 9) of Inr a \<Rightarrow> a
      | Inl _ \<Rightarrow> \<lparr>oa_commitment = OrderCommitment 0, authorization_deadline = 0, oa_verifying_key = 0,
                  oa_signature = []\<rparr>)"

lemma sample_authority_ok:
  assumes "expires_at ord = 99"
  shows "authorize_order sample_crypto ord 120 (SigningKey 9) = Inr (sample_authority ord)"
    "oa_commitment (sample_authority ord) = commitment sample_crypto ord"
    "OrderAuthority_verify sample_crypto (sample_authority ord) ord 50 = Inr ()"
proof -
  obtain a where a: "authorize_order sample_crypto ord 120 (SigningKey 9) = Inr a"
    and c: "oa_commitment a = commitment sample_crypto ord"
    by (simp add: authorize_order_def assms try_sign_def sample_crypto_def)
  then show au: "authorize_order sample_crypto ord 120 (SigningKey 9) = Inr (sample_authority ord)"
    and "oa_commitment (sample_authority ord) = commitment sample_crypto ord"
    by (simp_all add: sample_authority_def)
  show "OrderAuthority_verify sample_crypto (sample_authority ord) ord 50 = Inr ()"
    using authority_roundtrip [OF sample_crypto_correct sample_fingerprint au, of 50] by (simp add: assms)
qed

lemmas sample_commitment_simps = commitment_def commitment_preimage_def canonical_payload_def
  sample_order_def sample_sha256 to_be_bytes_def be_bytes_numeral put_bytes_def bytes_of_def
  Side_wire_def TimeInForce_wire_def

end
