(* ===== verification/Sequenced.thy ===== *)
theory Sequenced
  imports Oclob_Prelude
begin

text \<open>
  The contract of a sequenced ledger: an accepted command carries an identifier the ledger has not
  seen, records it, and advances the sequence by one. What follows for every run is proved once
  here; the private book and the ordering log both provide the contract.
\<close>

locale sequenced_ledger =
  fixes accepts :: "'s \<Rightarrow> 'id \<Rightarrow> 's \<Rightarrow> bool"
    and seen :: "'s \<Rightarrow> 'id set"
    and seqno :: "'s \<Rightarrow> 'a::len word"
    and invar :: "'s \<Rightarrow> bool"
  assumes accepts_fresh: "invar s \<Longrightarrow> accepts s i s' \<Longrightarrow> i \<notin> seen s"
    and accepts_seen: "invar s \<Longrightarrow> accepts s i s' \<Longrightarrow> seen s' = insert i (seen s)"
    and accepts_seqno: "invar s \<Longrightarrow> accepts s i s' \<Longrightarrow> seqno s' = seqno s + 1"
    and accepts_invar: "invar s \<Longrightarrow> accepts s i s' \<Longrightarrow> invar s'"
begin

inductive run :: "'s \<Rightarrow> 'id list \<Rightarrow> 's \<Rightarrow> bool" where
  run_nil: "run s [] s"
| run_cons: "accepts s i s' \<Longrightarrow> run s' is s'' \<Longrightarrow> run s (i # is) s''"

inductive_cases run_ConsE: "run s (i # is) s''"

lemma run_invar: "run s is s' \<Longrightarrow> invar s \<Longrightarrow> invar s'"
  by (induction rule: run.induct) (auto intro: accepts_invar)

lemma run_seen: "run s is s' \<Longrightarrow> invar s \<Longrightarrow> seen s' = seen s \<union> set is"
  by (induction rule: run.induct) (auto simp: accepts_seen accepts_invar)

lemma run_fresh: "run s is s' \<Longrightarrow> invar s \<Longrightarrow> distinct is \<and> set is \<inter> seen s = {}"
proof (induction rule: run.induct)
  case (run_cons s i s' "is" s'')
  then show ?case
    using accepts_invar [OF run_cons.prems run_cons.hyps(1)] accepts_fresh [OF run_cons.prems run_cons.hyps(1)]
      accepts_seen [OF run_cons.prems run_cons.hyps(1)] by auto
qed simp

lemma run_seqno: "run s is s' \<Longrightarrow> invar s \<Longrightarrow> seqno s' = seqno s + of_nat (length is)"
proof (induction rule: run.induct)
  case (run_cons s i s' "is" s'')
  then show ?case
    using accepts_invar [OF run_cons.prems run_cons.hyps(1)] accepts_seqno [OF run_cons.prems run_cons.hyps(1)]
    by (simp add: add.assoc)
qed simp

text \<open>A command that was accepted once is refused for ever.\<close>

lemma no_replay:
  assumes "invar s" "accepts s i s'" "run s' is s''"
  shows "\<not> accepts s'' i t"
proof
  assume "accepts s'' i t"
  moreover have "invar s''" using assms accepts_invar run_invar by blast
  ultimately have "i \<notin> seen s''" by (intro accepts_fresh)
  then show False
    using run_seen [OF assms(3)] accepts_invar [OF assms(1,2)] accepts_seen [OF assms(1,2)] by auto
qed

end

end
