(* ===== verification/Ordering.thy ===== *)
theory Ordering
  imports Orders Sequenced
begin

text \<open>
  Certificate-first total ordering, \<open>oclob-ordering/src/lib.rs\<close>: the committee policy, a node that
  votes for one statement per sequence, certificates of a quorum of votes, the hash-chained log and
  the committee that certifies the next command. The commitment is opened to nobody here: what is
  ordered is the commitment, before the order itself is seen.
\<close>

section \<open>Data\<close>

type_synonym usize = "64 word"

record CommitteePolicy =
  cp_nodes :: usize
  max_corrupt_nodes :: usize
  reconstruction_quorum :: usize
  ordering_quorum :: usize
  settlement_authorization_quorum :: usize

record OrderVote =
  ov_node_id :: u16
  statement_digest :: Digest32
  ov_signature :: "u8 list"

record OrderingNode =
  on_id :: u16
  on_key :: SigningKey
  voted :: "(u64, Digest32) btree"

record OrderCertificate =
  ct_market_id :: rust_str
  ct_sequence :: u64
  ct_commitment :: OrderCommitment
  previous_certificate :: Digest32
  ct_expires_at :: u64
  ct_votes :: "OrderVote list"

record OrderingLog =
  certificates :: "OrderCertificate list"
  log_commitments :: "OrderCommitment set"

record OrderingCommittee =
  oc_policy :: CommitteePolicy
  oc_nodes :: "OrderingNode list"
  oc_keys :: "(u16, VerifyingKey) btree"
  oc_log :: OrderingLog

datatype OrderingError = InvalidPolicy | InvalidNode | InvalidVote | InsufficientQuorum | Equivocation
  | BrokenChain | OrderingReplay

section \<open>The policy\<close>

definition seven_node :: CommitteePolicy where
  "seven_node = \<lparr>cp_nodes = 7, max_corrupt_nodes = 2, reconstruction_quorum = 3, ordering_quorum = 5,
     settlement_authorization_quorum = 3\<rparr>"

definition CommitteePolicy_validate :: "CommitteePolicy \<Rightarrow> OrderingError + unit" where
  "CommitteePolicy_validate p =
     fail_if (cp_nodes p \<noteq> 7 \<or> max_corrupt_nodes p \<noteq> 2
        \<or> reconstruction_quorum p \<noteq> max_corrupt_nodes p + 1
        \<or> ordering_quorum p \<le> 2 * max_corrupt_nodes p
        \<or> cp_nodes p < ordering_quorum p
        \<or> settlement_authorization_quorum p \<noteq> reconstruction_quorum p) InvalidPolicy"

section \<open>Votes\<close>

definition vote_preimage :: "rust_str \<Rightarrow> u64 \<Rightarrow> OrderCommitment \<Rightarrow> Digest32 \<Rightarrow> u64 \<Rightarrow> u8 list" where
  "vote_preimage market seq c prev expires =
     bytes_of ''OCLOB:ORDER-VOTE:v2'' @ put_bytes market @ to_be_bytes seq
     @ to_be_bytes (commitment_bytes c) @ to_be_bytes prev @ to_be_bytes expires"

definition vote_digest :: "crypto \<Rightarrow> rust_str \<Rightarrow> u64 \<Rightarrow> OrderCommitment \<Rightarrow> Digest32 \<Rightarrow> u64 \<Rightarrow> Digest32" where
  "vote_digest E market seq c prev expires = sha256 E (vote_preimage market seq c prev expires)"

text \<open>The condition \<open>vote\<close> and \<open>verify\<close> share.\<close>

definition statement_malformed :: "rust_str \<Rightarrow> u64 \<Rightarrow> OrderCommitment \<Rightarrow> Digest32 \<Rightarrow> u64 \<Rightarrow> u64 \<Rightarrow> bool" where
  "statement_malformed market seq c prev expires now \<longleftrightarrow>
     seq = 0 \<or> market = [] \<or> 64 < length market \<or> commitment_bytes c = 0
     \<or> (seq = 1) \<noteq> (prev = 0) \<or> expires < now"

definition OrderingNode_new :: "u16 \<Rightarrow> SigningKey \<Rightarrow> OrderingError + OrderingNode" where
  "OrderingNode_new i key =
     (if i = 0 then Inl InvalidNode else Inr \<lparr>on_id = i, on_key = key, voted = []\<rparr>)"

definition vote ::
  "crypto \<Rightarrow> OrderingNode \<Rightarrow> rust_str \<Rightarrow> u64 \<Rightarrow> OrderCommitment \<Rightarrow> Digest32 \<Rightarrow> u64 \<Rightarrow> u64 \<Rightarrow>
   (OrderingError + OrderVote) \<times> OrderingNode" where
  "vote E n market seq c prev expires now =
     (if statement_malformed market seq c prev expires now then (Inl InvalidVote, n)
      else let statement = vote_digest E market seq c prev expires in
      if (case btree_get (voted n) seq of None \<Rightarrow> False | Some existing \<Rightarrow> existing \<noteq> statement)
      then (Inl Equivocation, n)
      else guarded (map_err (\<lambda>_. InvalidVote) (try_sign E (on_key n) (to_be_bytes statement))) n (\<lambda>s.
        (Inr \<lparr>ov_node_id = on_id n, statement_digest = statement, ov_signature = sig_bytes s\<rparr>,
         n\<lparr>voted := btree_insert seq statement (voted n)\<rparr>)))"

section \<open>Certificates\<close>

definition vote_encoding :: "OrderVote \<Rightarrow> u8 list" where
  "vote_encoding v =
     to_be_bytes (ov_node_id v) @ to_be_bytes (statement_digest v) @ put_bytes (ov_signature v)"

definition certificate_preimage :: "OrderCertificate \<Rightarrow> u8 list" where
  "certificate_preimage t =
     bytes_of ''OCLOB:ORDER-CERTIFICATE:v2'' @ put_bytes (ct_market_id t) @ to_be_bytes (ct_sequence t)
     @ to_be_bytes (commitment_bytes (ct_commitment t)) @ to_be_bytes (previous_certificate t)
     @ to_be_bytes (ct_expires_at t)
     @ concat (map vote_encoding (sort_key ov_node_id (ct_votes t)))"

definition certificate_digest :: "crypto \<Rightarrow> OrderCertificate \<Rightarrow> Digest32" where
  "certificate_digest E t = sha256 E (certificate_preimage t)"

definition statement_of :: "crypto \<Rightarrow> OrderCertificate \<Rightarrow> Digest32" where
  "statement_of E t = vote_digest E (ct_market_id t) (ct_sequence t) (ct_commitment t)
     (previous_certificate t) (ct_expires_at t)"

text \<open>The loop over the votes; it returns the set of distinct node identifiers.\<close>

fun verify_votes ::
  "crypto \<Rightarrow> (u16, VerifyingKey) btree \<Rightarrow> Digest32 \<Rightarrow> u16 set \<Rightarrow> OrderVote list \<Rightarrow> OrderingError + u16 set" where
  "verify_votes E keys wanted distinct_ids [] = Inr distinct_ids"
| "verify_votes E keys wanted distinct_ids (v # vs) =
     (if ov_node_id v \<in> distinct_ids \<or> statement_digest v \<noteq> wanted then Inl InvalidVote
      else andThen (ok_or (btree_get keys (ov_node_id v)) InvalidNode) (\<lambda>key.
           andThen (map_err (\<lambda>_. InvalidVote) (Signature_try_from E (ov_signature v))) (\<lambda>s.
           andThen (map_err (\<lambda>_. InvalidVote) (verify_strict E key (to_be_bytes wanted) s)) (\<lambda>_.
           verify_votes E keys wanted (insert (ov_node_id v) distinct_ids) vs))))"

definition OrderCertificate_verify ::
  "crypto \<Rightarrow> OrderCertificate \<Rightarrow> CommitteePolicy \<Rightarrow> (u16, VerifyingKey) btree \<Rightarrow> u64 \<Rightarrow> OrderingError + unit" where
  "OrderCertificate_verify E t policy keys now =
     andThen (CommitteePolicy_validate policy) (\<lambda>_.
     if statement_malformed (ct_market_id t) (ct_sequence t) (ct_commitment t) (previous_certificate t)
          (ct_expires_at t) now
     then Inl InvalidVote
     else if length (ct_votes t) < unat (ordering_quorum policy) then Inl InsufficientQuorum
     else andThen (verify_votes E keys (statement_of E t) {} (ct_votes t)) (\<lambda>distinct_ids.
     if card distinct_ids < unat (ordering_quorum policy) then Inl InsufficientQuorum else Inr ()))"

section \<open>The log\<close>

definition log_default :: OrderingLog where
  "log_default = \<lparr>certificates = [], log_commitments = {}\<rparr>"

definition log_contains :: "OrderingLog \<Rightarrow> OrderCommitment \<Rightarrow> bool" where
  "log_contains l c \<longleftrightarrow> c \<in> log_commitments l"

definition next_sequence :: "OrderingLog \<Rightarrow> u64" where
  "next_sequence l = of_nat (length (certificates l)) + 1"

definition log_head :: "crypto \<Rightarrow> OrderingLog \<Rightarrow> Digest32" where
  "log_head E l = (if certificates l = [] then 0 else certificate_digest E (last (certificates l)))"

definition log_append ::
  "crypto \<Rightarrow> OrderingLog \<Rightarrow> OrderCertificate \<Rightarrow> CommitteePolicy \<Rightarrow> (u16, VerifyingKey) btree \<Rightarrow> u64 \<Rightarrow>
   (OrderingError + unit) \<times> OrderingLog" where
  "log_append E l t policy keys now =
     guarded (OrderCertificate_verify E t policy keys now) l (\<lambda>_.
     if ct_sequence t \<noteq> next_sequence l \<or> previous_certificate t \<noteq> log_head E l then (Inl BrokenChain, l)
     else if ct_commitment t \<in> log_commitments l then (Inl OrderingReplay, l)
     else (Inr (), l\<lparr>certificates := certificates l @ [t],
                     log_commitments := insert (ct_commitment t) (log_commitments l)\<rparr>))"

section \<open>The committee\<close>

text \<open>Collecting the votes of the first nodes: the first error ends the collection, the votes cast
  before it stay recorded in their nodes.\<close>

fun collect_votes ::
  "crypto \<Rightarrow> rust_str \<Rightarrow> u64 \<Rightarrow> OrderCommitment \<Rightarrow> Digest32 \<Rightarrow> u64 \<Rightarrow> u64 \<Rightarrow> nat \<Rightarrow> OrderingNode list \<Rightarrow>
   (OrderingError + OrderVote list) \<times> OrderingNode list" where
  "collect_votes E market seq c prev expires now 0 ns = (Inr [], ns)"
| "collect_votes E market seq c prev expires now (Suc k) [] = (Inr [], [])"
| "collect_votes E market seq c prev expires now (Suc k) (n # ns) =
     (case vote E n market seq c prev expires now of
        (Inl e, n') \<Rightarrow> (Inl e, n' # ns)
      | (Inr v, n') \<Rightarrow>
          (case collect_votes E market seq c prev expires now k ns of
             (r, ns') \<Rightarrow> (andThen r (\<lambda>vs. Inr (v # vs)), n' # ns')))"

definition demo_seed :: "u8 \<Rightarrow> Seed64" where
  "demo_seed b = from_be_bytes (replicate 64 b)"

definition deterministic_for_demo :: "crypto \<Rightarrow> OrderingError + OrderingCommittee" where
  "deterministic_for_demo E =
     andThen (CommitteePolicy_validate seven_node) (\<lambda>_.
     andThen (collect_results (map (\<lambda>i. OrderingNode_new (of_nat i) (SigningKey (demo_seed (of_nat i)))) [1..<8])) (\<lambda>nodes.
     Inr \<lparr>oc_policy = seven_node, oc_nodes = nodes,
       oc_keys = fold (\<lambda>n. btree_insert (on_id n) (verifying_key E (on_key n))) nodes [],
       oc_log = log_default\<rparr>))"

definition certify ::
  "crypto \<Rightarrow> OrderingCommittee \<Rightarrow> rust_str \<Rightarrow> OrderCommitment \<Rightarrow> u64 \<Rightarrow> u64 \<Rightarrow>
   (OrderingError + OrderCertificate) \<times> OrderingCommittee" where
  "certify E oc market c expires now =
     (if log_contains (oc_log oc) c then (Inl OrderingReplay, oc)
      else let seq = next_sequence (oc_log oc); prev = log_head E (oc_log oc) in
      case collect_votes E market seq c prev expires now (unat (ordering_quorum (oc_policy oc))) (oc_nodes oc) of
        (Inl e, ns) \<Rightarrow> (Inl e, oc\<lparr>oc_nodes := ns\<rparr>)
      | (Inr votes, ns) \<Rightarrow>
          let t = \<lparr>ct_market_id = market, ct_sequence = seq, ct_commitment = c, previous_certificate = prev,
                   ct_expires_at = expires, ct_votes = votes\<rparr> in
          (case log_append E (oc_log oc) t (oc_policy oc) (oc_keys oc) now of
             (Inl e, l) \<Rightarrow> (Inl e, oc\<lparr>oc_nodes := ns, oc_log := l\<rparr>)
           | (Inr _, l) \<Rightarrow> (Inr t, oc\<lparr>oc_nodes := ns, oc_log := l\<rparr>)))"

end
