(* ===== verification/Quorum.thy ===== *)
theory Quorum
  imports Oclob_Prelude
begin

text \<open>
  The contract of a quorum system: two quorums share more members than may be faulty, so they share a
  correct one. Where a correct member supports one statement only, two quorums cannot support
  different ones. The ordering committee and the settlement authorization both provide it.
\<close>

locale quorum_system =
  fixes quorum :: "'n set \<Rightarrow> bool"
    and faults :: nat
  assumes overlap: "quorum P \<Longrightarrow> quorum Q \<Longrightarrow> faults < card (P \<inter> Q)"
begin

lemma common_correct:
  assumes "quorum P" "quorum Q" "finite bad" "card bad \<le> faults"
  obtains n where "n \<in> P" "n \<in> Q" "n \<notin> bad"
proof -
  have "\<not> P \<inter> Q \<subseteq> bad"
    using overlap [OF assms(1,2)] card_mono [OF assms(3), of "P \<inter> Q"] assms(4) by linarith
  then show thesis using that by blast
qed

lemma correct_member:
  assumes "quorum P" "finite bad" "card bad \<le> faults"
  obtains n where "n \<in> P" "n \<notin> bad"
  using common_correct [OF assms(1,1,2,3)] by blast

lemma agreement:
  assumes "quorum P" "quorum Q" "finite bad" "card bad \<le> faults"
    and "\<And>n. n \<in> P \<Longrightarrow> n \<notin> bad \<Longrightarrow> supports n s" "\<And>n. n \<in> Q \<Longrightarrow> n \<notin> bad \<Longrightarrow> supports n t"
    and "\<And>n s t. n \<notin> bad \<Longrightarrow> supports n s \<Longrightarrow> supports n t \<Longrightarrow> s = t"
  shows "s = t"
proof -
  obtain n where "n \<in> P" "n \<in> Q" "n \<notin> bad" by (rule common_correct [OF assms(1-4)])
  with assms(5-7) show ?thesis by blast
qed

end

text \<open>Threshold quorums: at least \<open>k\<close> of at most \<open>n\<close> members, with \<open>n + f < 2 k\<close>.\<close>

lemma threshold_overlap:
  assumes "finite M" "P \<subseteq> M" "Q \<subseteq> M" "k \<le> card P" "k \<le> card Q" "card M + f < 2 * k"
  shows "f < card (P \<inter> Q)"
proof -
  have "card (P \<union> Q) \<le> card M" using assms(1-3) by (intro card_mono) auto
  moreover have "card (P \<union> Q) + card (P \<inter> Q) = card P + card Q"
    using assms(1-3) by (intro card_Un_Int [symmetric]) (auto intro: finite_subset)
  ultimately show ?thesis using assms(4-6) by linarith
qed

end
