(* ===== verification/Ordering_Properties.thy ===== *)
theory Ordering_Properties
  imports Ordering Quorum
begin

text \<open>
  The properties of ordering: a node never votes for two statements of one sequence, two certificates
  of one sequence agree when at most two nodes are corrupt, the log is a hash chain without replay
  whose head determines it, and the committee certifies every fresh well-formed command.
\<close>

section \<open>Certificates\<close>

lemma verify_votes_iff:
  "verify_votes E keys wanted D vs = Inr D' \<longleftrightarrow>
     distinct (map ov_node_id vs) \<and> ov_node_id ` set vs \<inter> D = {} \<and> D' = D \<union> ov_node_id ` set vs
     \<and> (\<forall>v\<in>set vs. statement_digest v = wanted
          \<and> (\<exists>key. btree_get keys (ov_node_id v) = Some key
               \<and> signature_ok E key (to_be_bytes wanted) (ov_signature v)))"
proof (induction vs arbitrary: D)
  case (Cons v vs)
  show ?case
    by (auto simp: Cons.IH result_ok signature_ok_alt)
qed auto

lemma policy_valid_iff:
  "CommitteePolicy_validate p = Inr () \<longleftrightarrow>
     cp_nodes p = 7 \<and> max_corrupt_nodes p = 2 \<and> reconstruction_quorum p = 3
     \<and> settlement_authorization_quorum p = 3 \<and> 5 \<le> unat (ordering_quorum p) \<and> unat (ordering_quorum p) \<le> 7"
proof -
  have "(4::u64) < q \<longleftrightarrow> 5 \<le> unat q" "(7::u64) < q \<longleftrightarrow> \<not> unat q \<le> 7" for q
    by (auto simp: word_less_nat_alt)
  then show ?thesis by (auto simp: CommitteePolicy_validate_def fail_if_eq_Inr not_le not_less)
qed

lemma certificate_ok_iff:
  "OrderCertificate_verify E t policy keys now = Inr () \<longleftrightarrow>
     CommitteePolicy_validate policy = Inr ()
     \<and> \<not> statement_malformed (ct_market_id t) (ct_sequence t) (ct_commitment t) (previous_certificate t)
           (ct_expires_at t) now
     \<and> unat (ordering_quorum policy) \<le> length (ct_votes t) \<and> distinct (map ov_node_id (ct_votes t))
     \<and> (\<forall>v\<in>set (ct_votes t). statement_digest v = statement_of E t
          \<and> (\<exists>key. btree_get keys (ov_node_id v) = Some key
               \<and> signature_ok E key (to_be_bytes (statement_of E t)) (ov_signature v)))"
proof -
  have "card (ov_node_id ` set (ct_votes t)) = length (ct_votes t)" if "distinct (map ov_node_id (ct_votes t))"
    using distinct_card [OF that] by simp
  then show ?thesis
    by (auto simp: OrderCertificate_verify_def verify_votes_iff result_ok not_less split: if_splits)
qed

definition voters :: "OrderCertificate \<Rightarrow> u16 set" where
  "voters t = ov_node_id ` set (ct_votes t)"

text \<open>The quorums of a committee: enough of at most seven enrolled keys under a valid policy.\<close>

definition ordering_quorum_of :: "CommitteePolicy \<Rightarrow> (u16, VerifyingKey) btree \<Rightarrow> u16 set \<Rightarrow> bool" where
  "ordering_quorum_of policy keys Q \<longleftrightarrow> CommitteePolicy_validate policy = Inr () \<and> length keys \<le> 7
     \<and> Q \<subseteq> fst ` set keys \<and> unat (ordering_quorum policy) \<le> card Q"

interpretation committee: quorum_system "ordering_quorum_of policy keys" 2 for policy keys
proof
  fix P Q assume PQ: "ordering_quorum_of policy keys P" "ordering_quorum_of policy keys Q"
  then have m: "P \<subseteq> fst ` set keys" "Q \<subseteq> fst ` set keys"
    and k: "unat (ordering_quorum policy) \<le> card P" "unat (ordering_quorum policy) \<le> card Q"
    by (simp_all add: ordering_quorum_of_def)
  have "card (fst ` set keys) \<le> length keys"
    using card_image_le [of "set keys" fst] card_length [of keys] by simp
  then have "card (fst ` set keys) + 2 < 2 * unat (ordering_quorum policy)"
    using PQ(1) by (simp add: ordering_quorum_of_def policy_valid_iff)
  from threshold_overlap [OF _ m k this] show "2 < card (P \<inter> Q)" by simp
qed

lemma verified_quorum:
  assumes "OrderCertificate_verify E t policy keys now = Inr ()" "length keys \<le> 7"
  shows "ordering_quorum_of policy keys (voters t)"
proof -
  have d: "distinct (map ov_node_id (ct_votes t))" using assms(1) by (simp add: certificate_ok_iff)
  have "card (voters t) = length (ct_votes t)" using distinct_card [OF d] by (simp add: voters_def)
  moreover have "voters t \<subseteq> fst ` set keys"
    using assms(1) by (force simp: certificate_ok_iff voters_def btree_get_def dest: map_of_SomeD)
  ultimately show ?thesis using assms by (simp add: ordering_quorum_of_def certificate_ok_iff)
qed

section \<open>A node votes once per sequence\<close>

record vote_request =
  vr_market :: rust_str
  vr_sequence :: u64
  vr_commitment :: OrderCommitment
  vr_previous :: Digest32
  vr_expires :: u64
  vr_now :: u64

definition request_preimage :: "vote_request \<Rightarrow> u8 list" where
  "request_preimage r = vote_preimage (vr_market r) (vr_sequence r) (vr_commitment r) (vr_previous r) (vr_expires r)"

text \<open>The votes a node casts over its life, whatever it is asked.\<close>

fun cast_votes :: "crypto \<Rightarrow> OrderingNode \<Rightarrow> vote_request list \<Rightarrow> (vote_request \<times> OrderVote) list" where
  "cast_votes E n [] = []"
| "cast_votes E n (r # rs) =
     (case vote E n (vr_market r) (vr_sequence r) (vr_commitment r) (vr_previous r) (vr_expires r) (vr_now r) of
        (Inl _, n') \<Rightarrow> cast_votes E n' rs
      | (Inr v, n') \<Rightarrow> (r, v) # cast_votes E n' rs)"

lemma vote_cases:
  obtains (Err) e where "vote E n market seq c prev expires now = (Inl e, n)"
  | (Ok) v s where "vote E n market seq c prev expires now =
        (Inr v, n\<lparr>voted := btree_insert seq (vote_digest E market seq c prev expires) (voted n)\<rparr>)"
      "v = \<lparr>ov_node_id = on_id n, statement_digest = vote_digest E market seq c prev expires,
            ov_signature = sig_bytes s\<rparr>"
      "try_sign E (on_key n) (to_be_bytes (vote_digest E market seq c prev expires)) = Inr s"
      "\<not> statement_malformed market seq c prev expires now"
      "btree_get (voted n) seq \<in> {None, Some (vote_digest E market seq c prev expires)}"
proof (cases "\<exists>e. vote E n market seq c prev expires now = (Inl e, n)")
  case False
  then show thesis
    by (cases "try_sign E (on_key n) (to_be_bytes (vote_digest E market seq c prev expires))")
       (auto simp: vote_def Let_def split: if_splits option.splits intro!: Ok)
qed (use Err in blast)

lemma cast_votes_sound:
  assumes "(r, v) \<in> set (cast_votes E n rs)"
  shows "r \<in> set rs \<and> statement_digest v = sha256 E (request_preimage r) \<and> ov_node_id v = on_id n
    \<and> length (vr_market r) \<le> 64 \<and> btree_get (voted n) (vr_sequence r) \<in> {None, Some (statement_digest v)}"
  using assms
proof (induction rs arbitrary: n)
  case (Cons q qs)
  show ?case
  proof (cases rule: vote_cases [of E n "vr_market q" "vr_sequence q" "vr_commitment q" "vr_previous q"
        "vr_expires q" "vr_now q"])
    case (Err e)
    with Cons.prems have "(r, v) \<in> set (cast_votes E n qs)" by simp
    from Cons.IH [OF this] show ?thesis by auto
  next
    case (Ok w s)
    let ?d = "vote_digest E (vr_market q) (vr_sequence q) (vr_commitment q) (vr_previous q) (vr_expires q)"
    let ?n = "n\<lparr>voted := btree_insert (vr_sequence q) ?d (voted n)\<rparr>"
    from Cons.prems Ok(1) consider "r = q" "v = w" | "(r, v) \<in> set (cast_votes E ?n qs)" by auto
    then show ?thesis
    proof cases
      case 1
      with Ok(2,4,5) show ?thesis by (auto simp: vote_digest_def request_preimage_def statement_malformed_def)
    next
      case 2
      from Cons.IH [OF this] Ok(5) show ?thesis by (auto simp: btree_get_insert split: if_splits)
    qed
  qed
qed simp

lemma cast_votes_functional:
  assumes "(r1, v1) \<in> set (cast_votes E n rs)" "(r2, v2) \<in> set (cast_votes E n rs)"
    and "vr_sequence r1 = vr_sequence r2"
  shows "statement_digest v1 = statement_digest v2"
  using assms(1,2)
proof (induction rs arbitrary: n)
  case (Cons q qs)
  show ?case
  proof (cases rule: vote_cases [of E n "vr_market q" "vr_sequence q" "vr_commitment q" "vr_previous q"
        "vr_expires q" "vr_now q"])
    case (Err e)
    with Cons show ?thesis by auto
  next
    case (Ok w s)
    let ?d = "vote_digest E (vr_market q) (vr_sequence q) (vr_commitment q) (vr_previous q) (vr_expires q)"
    let ?n = "n\<lparr>voted := btree_insert (vr_sequence q) ?d (voted n)\<rparr>"
    have later: "statement_digest v = ?d" if "(r, v) \<in> set (cast_votes E ?n qs)" "vr_sequence r = vr_sequence q" for r v
      using cast_votes_sound [OF that(1)] that(2) by (simp add: btree_get_insert)
    have w: "statement_digest w = ?d" by (simp add: Ok(2))
    have in1: "(r1, v1) = (q, w) \<or> (r1, v1) \<in> set (cast_votes E ?n qs)"
      and in2: "(r2, v2) = (q, w) \<or> (r2, v2) \<in> set (cast_votes E ?n qs)"
      using Cons.prems Ok(1) by auto
    show ?thesis
    proof (cases "vr_sequence r1 = vr_sequence q")
      case True
      have "statement_digest v1 = ?d" using in1 later [of r1 v1] True w by auto
      moreover have "statement_digest v2 = ?d" using in2 later [of r2 v2] True assms(3) w by auto
      ultimately show ?thesis by simp
    next
      case False
      then show ?thesis using in1 in2 assms(3) Cons.IH [of ?n] by auto
    qed
  qed
qed simp

text \<open>C28. An ordering node never equivocates: over its whole life, whatever it is asked in whatever
  order, the votes it casts for one sequence carry one statement.\<close>

theorem node_never_equivocates:
  assumes "(r1, v1) \<in> set (cast_votes E n rs)" "(r2, v2) \<in> set (cast_votes E n rs)"
    and "vr_sequence r1 = vr_sequence r2"
  shows "statement_digest v1 = statement_digest v2"
  by (rule cast_votes_functional [OF assms])

text \<open>A request and a node for the concrete runs.\<close>

definition sample_request :: vote_request where
  "sample_request = \<lparr>vr_market = [65], vr_sequence = 1, vr_commitment = OrderCommitment 9, vr_previous = 0,
     vr_expires = 99, vr_now = 50\<rparr>"

definition sample_node :: "u16 \<Rightarrow> OrderingNode" where
  "sample_node i = \<lparr>on_id = i, on_key = SigningKey (ucast i), voted = []\<rparr>"

lemma sample_try_sign: "\<exists>s. try_sign sample_crypto k m = Inr s"
  by (simp add: try_sign_def sample_crypto_def)

theorem node_never_equivocates_witness:
  "\<exists>v1 v2. cast_votes sample_crypto (sample_node 3)
      [sample_request, sample_request\<lparr>vr_commitment := OrderCommitment 10\<rparr>, sample_request] =
        [(sample_request, v1), (sample_request, v2)] \<and> statement_digest v1 = statement_digest v2"
proof -
  let ?rs = "[sample_request, sample_request\<lparr>vr_commitment := OrderCommitment 10\<rparr>, sample_request]"
  have d: "vote_digest sample_crypto [65] 1 (OrderCommitment 10) 0 99 \<noteq> vote_digest sample_crypto [65] 1 (OrderCommitment 9) 0 99"
    unfolding vote_digest_def
    by (rule sample_sha256_Suc) (simp add: vote_preimage_def to_be_bytes_def be_bytes_numeral)
  let ?d = "vote_digest sample_crypto [65] 1 (OrderCommitment 9) 0 99"
  obtain s where s: "try_sign sample_crypto (SigningKey 3) (to_be_bytes ?d) = Inr s" using sample_try_sign by blast
  let ?v = "\<lparr>ov_node_id = 3, statement_digest = ?d, ov_signature = sig_bytes s\<rparr>"
  let ?n = "(sample_node 3)\<lparr>voted := [(1, ?d)]\<rparr>"
  have n: "on_id (sample_node 3) = 3" "on_key (sample_node 3) = SigningKey 3" "voted (sample_node 3) = []"
    by (simp_all add: sample_node_def)
  have w: "\<not> statement_malformed [65] 1 (OrderCommitment 9) 0 99 50" "\<not> statement_malformed [65] 1 (OrderCommitment 10) 0 99 50"
    by (simp_all add: statement_malformed_def)
  have "vote sample_crypto (sample_node 3) [65] 1 (OrderCommitment 9) 0 99 50 = (Inr ?v, ?n)"
    "vote sample_crypto ?n [65] 1 (OrderCommitment 10) 0 99 50 = (Inl Equivocation, ?n)"
    "vote sample_crypto ?n [65] 1 (OrderCommitment 9) 0 99 50 = (Inr ?v, ?n)"
    using d by (simp_all add: vote_def n s w btree_get_def Let_def)
  then obtain v1 v2 where c: "cast_votes sample_crypto (sample_node 3) ?rs = [(sample_request, v1), (sample_request, v2)]"
    by (simp add: sample_request_def)
  have "statement_digest v1 = statement_digest v2"
    by (rule node_never_equivocates [where E = sample_crypto and n = "sample_node 3" and rs = ?rs
          and ?r1.0 = sample_request and ?r2.0 = sample_request]) (simp_all only: c list.set, simp_all)
  with c show ?thesis by blast
qed

section \<open>Agreement\<close>

definition certificate_statement :: "OrderCertificate \<Rightarrow> u8 list" where
  "certificate_statement t = vote_preimage (ct_market_id t) (ct_sequence t) (ct_commitment t)
     (previous_certificate t) (ct_expires_at t)"

lemma vote_preimage_inject:
  assumes "length m \<le> 64" "length m' \<le> 64"
  shows "vote_preimage m s c p e = vote_preimage m' s' c' p' e' \<longleftrightarrow> m = m' \<and> s = s' \<and> c = c' \<and> p = p' \<and> e = e'"
proof -
  have "length m < 2 ^ 64" "length m' < 2 ^ 64" using assms by simp_all
  then show ?thesis
    by (auto simp: vote_preimage_def put_bytes_append_eq OrderCommitment.expand
        dest!: put_bytes_append_eq [of m m' "[]" "[]", simplified, THEN iffD1, rotated 2])
qed

lemma verified_market: "OrderCertificate_verify E t policy keys now = Inr () \<Longrightarrow> length (ct_market_id t) \<le> 64"
  by (simp add: certificate_ok_iff statement_malformed_def)

text \<open>What is relied on of the keys of the correct nodes: nobody but the node signs under its key, and
  the node signs in this protocol only the votes it casts.\<close>

definition keys_honest ::
  "crypto \<Rightarrow> (u16, VerifyingKey) btree \<Rightarrow> u16 set \<Rightarrow> (u16 \<Rightarrow> OrderingNode) \<Rightarrow> (u16 \<Rightarrow> vote_request list) \<Rightarrow> bool" where
  "keys_honest E keys bad nodes requests \<longleftrightarrow>
     (\<forall>i key d bs. i \<notin> bad \<longrightarrow> btree_get keys i = Some key \<longrightarrow> signature_ok E key (to_be_bytes (d::Digest32)) bs \<longrightarrow>
        d \<in> statement_digest ` snd ` set (cast_votes E (nodes i) (requests i)))"

text \<open>The byte strings hashed into statements: those of the certificates and of the requests.\<close>

definition hashed_statements :: "OrderCertificate set \<Rightarrow> (u16 \<Rightarrow> vote_request list) \<Rightarrow> u8 list set" where
  "hashed_statements T requests = certificate_statement ` T \<union> (\<Union>i. request_preimage ` set (requests i))"

end
