(* ===== verification/Matching.thy ===== *)
theory Matching
  imports Orders
begin

text \<open>
  The matching rule of \<open>oclob-core/src/lib.rs\<close>: the fixed-shape batch handed to the matching
  engine, the reference transition \<open>expected_batch\<close> every engine result is compared with, and
  the canonical form of the public depth. The lemmas characterise the rule by a closed formula,
  from which price-time priority and conservation follow, and the published depth by the sums of
  the residual quantities.
\<close>

section \<open>Data\<close>

record PrivateRestingInput =
  ri_commitment :: OrderCommitment
  ri_side :: Side
  ri_price :: u64
  ri_quantity :: u64

record PrivateMatchBatch =
  resting :: "PrivateRestingInput list"
  arriving_side :: Side
  arriving_price :: u64
  arriving_quantity :: u64
  arriving_can_rest :: bool

record MpcSlotResult =
  matched :: bool
  trade_price :: u64
  trade_quantity :: u64

record MpcPriceLevel =
  pl_side :: Side
  pl_price :: u64
  pl_quantity :: u64

record MpcBatchResult =
  slots :: "MpcSlotResult list"
  arriving_remaining :: u64
  public_levels :: "MpcPriceLevel list option"

section \<open>The canonical form of the public depth\<close>

definition u32_max :: u64 where
  "u32_max = 0xFFFFFFFF"

definition level_key :: "MpcPriceLevel \<Rightarrow> u8 \<times> u64" where
  "level_key l =
     (Side_wire (pl_side l), if pl_side l = Buy then u64_max - pl_price l else pl_price l)"

fun validate_levels :: "(u8 \<times> u64) option \<Rightarrow> MpcPriceLevel list \<Rightarrow> string + unit" where
  "validate_levels previous [] = Inr ()"
| "validate_levels previous (l # ls) =
     (if pl_price l = 0 \<or> u32_max < pl_price l \<or> pl_quantity l = 0
         \<or> u32_max * (of_nat MAX_MATCH_SLOTS + 1) < pl_quantity l
      then Inl ''public depth is outside circuit bounds''
      else if (case previous of None \<Rightarrow> False | Some p \<Rightarrow> level_key l \<le> p)
      then Inl ''public depth has duplicate or unordered levels''
      else validate_levels (Some (level_key l)) ls)"

definition validate_public_levels :: "MpcPriceLevel list \<Rightarrow> string + unit" where
  "validate_public_levels ls =
     (if MAX_MATCH_SLOTS + 1 < length ls then Inl ''public depth exceeds circuit capacity''
      else validate_levels None ls)"

section \<open>The reference transition\<close>

text \<open>An arriving order and a resting price cross.\<close>

definition crosses :: "Side \<Rightarrow> u64 \<Rightarrow> u64 \<Rightarrow> bool" where
  "crosses s price resting_price =
     (case s of Buy \<Rightarrow> resting_price \<le> price | Sell \<Rightarrow> price \<le> resting_price)"

definition match_slot :: "PrivateMatchBatch \<Rightarrow> u64 \<Rightarrow> PrivateRestingInput \<Rightarrow> MpcSlotResult" where
  "match_slot batch remaining r =
     (let crossed = ri_side r \<noteq> arriving_side batch
            \<and> crosses (arriving_side batch) (arriving_price batch) (ri_price r)
            \<and> 0 < remaining \<and> 0 < ri_quantity r
      in \<lparr>matched = crossed, trade_price = (if crossed then ri_price r else 0),
          trade_quantity = (if crossed then min remaining (ri_quantity r) else 0)\<rparr>)"

fun match_slots ::
  "PrivateMatchBatch \<Rightarrow> u64 \<Rightarrow> PrivateRestingInput list \<Rightarrow> MpcSlotResult list \<times> u64" where
  "match_slots batch remaining [] = ([], remaining)"
| "match_slots batch remaining (r # rs) =
     (let slot = match_slot batch remaining r;
          (rest, left) = match_slots batch (remaining - trade_quantity slot) rs
      in (slot # rest, left))"

definition add_level :: "(u8 \<times> u64) \<Rightarrow> u64 \<Rightarrow> (u8 \<times> u64, u64) btree \<Rightarrow> (u8 \<times> u64, u64) btree" where
  "add_level k q m = (if 0 < q then btree_upsert k 0 (\<lambda>v. v + q) m else m)"

definition residual_levels ::
  "PrivateMatchBatch \<Rightarrow> MpcSlotResult list \<Rightarrow> u64 \<Rightarrow> (u8 \<times> u64, u64) btree" where
  "residual_levels batch fills remaining =
     add_level (Side_wire (arriving_side batch), arriving_price batch) remaining
       (fold (\<lambda>(r, f). add_level (Side_wire (ri_side r), ri_price r) (ri_quantity r - trade_quantity f))
         (zip (resting batch) fills) [])"

definition expected_batch :: "PrivateMatchBatch \<Rightarrow> MpcBatchResult" where
  "expected_batch batch =
     (let (fills, left) = match_slots batch (arriving_quantity batch) (resting batch);
          remaining = (if arriving_can_rest batch then left else 0);
          levels = map (\<lambda>((s, price), q). \<lparr>pl_side = (if s = 0 then Buy else Sell), pl_price = price,
                     pl_quantity = q\<rparr>) (residual_levels batch fills remaining)
      in \<lparr>slots = fills, arriving_remaining = remaining,
          public_levels = Some (sort_key level_key levels)\<rparr>)"

section \<open>The closed formula of the matching rule\<close>

text \<open>A resting slot is eligible when it would trade with an inexhaustible arriving order.\<close>

definition eligible :: "PrivateMatchBatch \<Rightarrow> PrivateRestingInput \<Rightarrow> bool" where
  "eligible batch r \<longleftrightarrow> ri_side r \<noteq> arriving_side batch
     \<and> crosses (arriving_side batch) (arriving_price batch) (ri_price r) \<and> 0 < ri_quantity r"

text \<open>The eligible quantity of a list of slots, and what a slot trades when a given quantity has
  priority over it: the arriving quantity less what is ahead, capped by the slot.\<close>

definition depth_ahead :: "PrivateMatchBatch \<Rightarrow> PrivateRestingInput list \<Rightarrow> nat" where
  "depth_ahead batch rs = (\<Sum>r\<leftarrow>filter (eligible batch) rs. unat (ri_quantity r))"

definition fair_share :: "PrivateMatchBatch \<Rightarrow> nat \<Rightarrow> nat \<Rightarrow> PrivateRestingInput \<Rightarrow> nat" where
  "fair_share batch amount ahead r =
     (if eligible batch r then min (unat (ri_quantity r)) (amount - ahead) else 0)"

lemma depth_ahead_simps [simp]:
  "depth_ahead batch [] = 0"
  "depth_ahead batch (r # rs) = (if eligible batch r then unat (ri_quantity r) else 0) + depth_ahead batch rs"
  "depth_ahead batch (rs @ ss) = depth_ahead batch rs + depth_ahead batch ss"
  by (simp_all add: depth_ahead_def)

lemma unat_match_slot:
  "unat (trade_quantity (match_slot batch remaining r)) = fair_share batch (unat remaining) 0 r"
  by (auto simp: match_slot_def fair_share_def eligible_def Let_def word_gt_0_unat min_def
      word_le_nat_alt)

lemma matched_match_slot:
  "matched (match_slot batch remaining r) \<longleftrightarrow> 0 < trade_quantity (match_slot batch remaining r)"
  by (auto simp: match_slot_def Let_def min_def)

lemma match_slot_le: "trade_quantity (match_slot batch remaining r) \<le> remaining"
  "trade_quantity (match_slot batch remaining r) \<le> ri_quantity r"
  by (auto simp: match_slot_def Let_def)

lemma length_match_slots [simp]: "length (fst (match_slots batch remaining rs)) = length rs"
  by (induction rs arbitrary: remaining) (simp_all add: Let_def split_def)

lemma match_slots_left:
  "unat (snd (match_slots batch remaining rs)) = unat remaining - depth_ahead batch rs"
proof (induction rs arbitrary: remaining)
  case (Cons r rs)
  then show ?case
    using unat_diff [OF match_slot_le(1) [of batch remaining r]]
    by (auto simp: Let_def split_def unat_match_slot fair_share_def min_def)
qed simp

text \<open>The arriving quantity is split between the trades and what is left.\<close>

lemma match_slots_sum:
  "(\<Sum>slot\<leftarrow>fst (match_slots batch remaining rs). unat (trade_quantity slot))
     + unat (snd (match_slots batch remaining rs)) = unat remaining"
proof (induction rs arbitrary: remaining)
  case (Cons r rs)
  have le: "trade_quantity (match_slot batch remaining r) \<le> remaining" by (rule match_slot_le)
  show ?case
    using Cons.IH [of "remaining - trade_quantity (match_slot batch remaining r)"] unat_diff [OF le] le
    by (simp add: Let_def split_def word_le_nat_alt)
qed simp

lemma match_slots_nth:
  assumes "i < length rs"
  shows "fst (match_slots batch remaining rs) ! i =
    match_slot batch (snd (match_slots batch remaining (take i rs))) (rs ! i)"
  using assms
proof (induction rs arbitrary: i remaining)
  case (Cons r rs)
  then show ?case by (cases i) (simp_all add: Let_def split_def)
qed simp

lemma match_slots_share:
  assumes "i < length rs"
  shows "unat (trade_quantity (fst (match_slots batch remaining rs) ! i))
    = fair_share batch (unat remaining) (depth_ahead batch (take i rs)) (rs ! i)"
  using assms by (simp add: match_slots_nth unat_match_slot fair_share_def match_slots_left)

lemma slots_expected_batch:
  "slots (expected_batch batch) = fst (match_slots batch (arriving_quantity batch) (resting batch))"
  by (simp add: expected_batch_def Let_def split_def)

lemma arriving_remaining_expected_batch:
  "arriving_remaining (expected_batch batch) =
     (if arriving_can_rest batch
      then snd (match_slots batch (arriving_quantity batch) (resting batch)) else 0)"
  by (simp add: expected_batch_def Let_def split_def)

lemma length_slots_expected_batch [simp]: "length (slots (expected_batch batch)) = length (resting batch)"
  by (simp add: slots_expected_batch)

lemma slot_cases:
  assumes "i < length (resting batch)"
  obtains before where "slots (expected_batch batch) ! i = match_slot batch before (resting batch ! i)"
  using match_slots_nth [OF assms] by (simp add: slots_expected_batch)

text \<open>C12. The matching rule is price-time priority over the slots in their order: slot \<open>i\<close>
  trades exactly the arriving quantity left after every eligible slot ahead of it, capped by its
  own quantity, at its own price; an ineligible slot (same side, not crossing, or empty) trades
  nothing; and what can rest is exactly what the eligible depth did not absorb.\<close>

theorem expected_batch_price_time:
  "(\<forall>i < length (resting batch).
      let r = resting batch ! i; slot = slots (expected_batch batch) ! i
      in unat (trade_quantity slot) =
           (if eligible batch r
            then min (unat (ri_quantity r))
                   (unat (arriving_quantity batch) - depth_ahead batch (take i (resting batch)))
            else 0)
         \<and> matched slot = (0 < trade_quantity slot)
         \<and> trade_price slot = (if matched slot then ri_price r else 0))
   \<and> length (slots (expected_batch batch)) = length (resting batch)
   \<and> unat (arriving_remaining (expected_batch batch)) =
       (if arriving_can_rest batch
        then unat (arriving_quantity batch) - depth_ahead batch (resting batch) else 0)"
proof -
  have "trade_price slot = (if matched slot then ri_price r else 0)"
    if "slot = match_slot batch before r" for slot before r
    by (simp add: that match_slot_def Let_def)
  then show ?thesis
    using match_slots_share [where batch = batch and rs = "resting batch"
        and remaining = "arriving_quantity batch"]
    by (auto simp: Let_def slots_expected_batch arriving_remaining_expected_batch match_slots_left
        match_slots_nth matched_match_slot fair_share_def)
qed

text \<open>A concrete batch: a buy of 5 at 12 against asks of 3 at 10, 4 at 11 and 9 at 13.\<close>

definition sample_slot :: "Digest32 \<Rightarrow> u64 \<Rightarrow> u64 \<Rightarrow> PrivateRestingInput" where
  "sample_slot n price qty =
     \<lparr>ri_commitment = OrderCommitment n, ri_side = Sell, ri_price = price, ri_quantity = qty\<rparr>"

definition sample_batch :: PrivateMatchBatch where
  "sample_batch =
     \<lparr>resting = [sample_slot 1 10 3, sample_slot 2 11 4, sample_slot 3 13 9],
      arriving_side = Buy, arriving_price = 12, arriving_quantity = 5, arriving_can_rest = True\<rparr>"

lemma sample_eligible:
  "eligible sample_batch (sample_slot 1 10 3)" "eligible sample_batch (sample_slot 2 11 4)"
  "\<not> eligible sample_batch (sample_slot 3 13 9)"
  by (simp_all add: eligible_def crosses_def sample_batch_def sample_slot_def)

theorem expected_batch_price_time_witness:
  "unat (trade_quantity (slots (expected_batch sample_batch) ! 1)) = 2
   \<and> trade_price (slots (expected_batch sample_batch) ! 1) = 11
   \<and> unat (arriving_remaining (expected_batch sample_batch)) = 0"
proof -
  have r: "resting sample_batch = [sample_slot 1 10 3, sample_slot 2 11 4, sample_slot 3 13 9]"
      "arriving_quantity sample_batch = 5" "arriving_can_rest sample_batch"
    by (simp_all add: sample_batch_def)
  have q: "ri_quantity (sample_slot 1 10 3) = 3" "ri_quantity (sample_slot 2 11 4) = 4"
      "ri_price (sample_slot 2 11 4) = 11"
    by (simp_all add: sample_slot_def)
  show ?thesis
    using conjunct1 [OF expected_batch_price_time [of sample_batch], rule_format, of 1]
      conjunct2 [OF expected_batch_price_time [of sample_batch]]
    by (simp add: r q sample_eligible word_gt_0_unat Let_def)
qed

section \<open>The published depth\<close>

text \<open>The residual quantities by level, in the order they are accumulated.\<close>

definition residuals :: "PrivateMatchBatch \<Rightarrow> MpcSlotResult list \<Rightarrow> u64 \<Rightarrow> ((u8 \<times> u64) \<times> u64) list" where
  "residuals batch fills remaining =
     map (\<lambda>(r, f). ((Side_wire (ri_side r), ri_price r), ri_quantity r - trade_quantity f))
       (zip (resting batch) fills)
     @ [((Side_wire (arriving_side batch), arriving_price batch), remaining)]"

lemma fold_add_level:
  "fold (\<lambda>(k, q). add_level k q) xs m
    = fold (\<lambda>(k, q). btree_upsert k 0 (\<lambda>v. v + q)) (filter (\<lambda>(k, q). 0 < q) xs) m"
  by (induction xs arbitrary: m) (auto simp: add_level_def)

lemma residual_levels_fold:
  "residual_levels batch fills remaining
    = fold (\<lambda>(k, q). btree_upsert k 0 (\<lambda>v. v + q))
        (filter (\<lambda>(k, q). 0 < q) (residuals batch fills remaining)) []"
  unfolding fold_add_level [symmetric]
  by (simp add: residual_levels_def residuals_def fold_map comp_def split_def)

lemma btree_ok_residual_levels: "btree_ok (residual_levels batch fills remaining)"
  unfolding residual_levels_fold by (rule bt.ok_fold_upsert) simp

definition depth_of :: "((u8 \<times> u64) \<times> u64) list \<Rightarrow> u8 \<times> u64 \<Rightarrow> nat" where
  "depth_of xs k = (\<Sum>(j, q)\<leftarrow>xs. if j = k then unat q else 0)"

lemma depth_of_filter:
  "depth_of xs k = sum_list (map unat (map snd (filter (\<lambda>(j, q). j = k) (filter (\<lambda>(j, q). 0 < q) xs))))"
  by (induction xs) (auto simp: depth_of_def word_gt_0_unat)

lemma depth_of_pos: "0 < depth_of xs k \<longleftrightarrow> k \<in> fst ` set (filter (\<lambda>(j, q). 0 < q) xs)"
  by (induction xs) (auto simp: depth_of_def word_gt_0_unat split: if_splits)

lemma fold_plus: "fold (\<lambda>q v. v + q) xs (a::'a::comm_monoid_add) = a + sum_list xs"
  by (induction xs arbitrary: a) (auto simp: ac_simps)

lemma get_residual_levels:
  fixes batch fills remaining
  defines "xs \<equiv> residuals batch fills remaining"
  assumes "depth_of xs k < 2 ^ 64"
  shows "btree_get (residual_levels batch fills remaining) k = Some q \<longleftrightarrow>
    0 < depth_of xs k \<and> unat q = depth_of xs k"
proof -
  let ?p = "filter (\<lambda>(j, q). 0 < q) xs"
  let ?s = "sum_list (map snd (filter (\<lambda>(j, q). j = k) ?p))"
  have g: "btree_get (residual_levels batch fills remaining) k
      = (if k \<in> fst ` set ?p then Some ?s else None)"
    using bt.get_fold_upsert [of "[]" 0 "\<lambda>q v. v + q" ?p k]
    by (simp add: residual_levels_fold xs_def fold_plus bt.get_empty)
  have "unat ?s = depth_of xs k"
    using assms(2) unfolding depth_of_filter by (intro unat_sum_list) simp
  then have "q = ?s \<longleftrightarrow> unat q = depth_of xs k"
    by (simp only: word_eq_unat)
  then show ?thesis
    unfolding g depth_of_pos
    by (cases "k \<in> fst ` set ?p") (simp_all only: if_True if_False option.inject simp_thms, auto)
qed

lemma validate_levels_iff:
  "validate_levels previous ls = Inr () \<longleftrightarrow>
     (\<forall>l\<in>set ls. pl_price l \<noteq> 0 \<and> pl_price l \<le> u32_max \<and> pl_quantity l \<noteq> 0
        \<and> pl_quantity l \<le> u32_max * (of_nat MAX_MATCH_SLOTS + 1))
     \<and> sorted_wrt (<) (map level_key ls)
     \<and> (\<forall>p l. previous = Some p \<longrightarrow> l \<in> set ls \<longrightarrow> p < level_key l)"
proof (induction ls arbitrary: previous)
  case (Cons l ls)
  show ?case
    by (auto simp: Cons.IH not_less not_le split: option.splits intro: less_trans)
qed simp

lemma Side_wire_decode [simp]: "(if Side_wire s = 0 then Buy else Sell) = s"
  by (cases s) (simp_all add: Side_wire_def)

lemma Side_wire_eq [simp]: "Side_wire s = Side_wire t \<longleftrightarrow> s = t"
  by (cases s; cases t) (simp_all add: Side_wire_def)

lemma level_key_inj: "level_key a = level_key b \<longleftrightarrow> pl_side a = pl_side b \<and> pl_price a = pl_price b"
  by (auto simp: level_key_def)

text \<open>The levels of the result, before and after the canonical sort.\<close>

definition levels_of :: "(u8 \<times> u64, u64) btree \<Rightarrow> MpcPriceLevel list" where
  "levels_of m = map (\<lambda>((s, price), q). \<lparr>pl_side = (if s = 0 then Buy else Sell), pl_price = price,
     pl_quantity = q\<rparr>) m"

lemma public_levels_expected_batch:
  "public_levels (expected_batch batch) = Some (sort_key level_key (levels_of
     (residual_levels batch (slots (expected_batch batch)) (arriving_remaining (expected_batch batch)))))"
  by (simp add: expected_batch_def levels_of_def Let_def split_def)

lemma residual_wire: "(k, q) \<in> set (residuals batch fills remaining) \<Longrightarrow> \<exists>s. fst k = Side_wire s"
  by (auto simp: residuals_def)

lemma residual_levels_key:
  assumes "(k, q) \<in> set (residual_levels batch fills remaining)"
  shows "k \<in> fst ` set (residuals batch fills remaining)"
proof -
  let ?p = "filter (\<lambda>(j, q). 0 < q) (residuals batch fills remaining)"
  have "btree_get (residual_levels batch fills remaining) k = Some q"
    using bt.entries_get [OF btree_ok_residual_levels] assms by blast
  then have "k \<in> fst ` set ?p"
    using bt.get_fold_upsert [of "[]" 0 "\<lambda>q v. v + q" ?p k]
    by (simp add: residual_levels_fold bt.get_empty split: if_splits)
  then show ?thesis by auto
qed

lemma residual_levels_wire:
  assumes "((w, price), q) \<in> set (residual_levels batch fills remaining)"
  obtains s where "w = Side_wire s"
  using residual_levels_key [OF assms] by (force dest: residual_wire)

lemma in_levels_of_iff:
  assumes m_def: "m = residual_levels batch fills remaining"
  shows "l \<in> set (levels_of m) \<longleftrightarrow>
    btree_get m (Side_wire (pl_side l), pl_price l) = Some (pl_quantity l)" (is "?l \<longleftrightarrow> ?r")
proof
  assume ?l
  then obtain s p q where e: "((s, p), q) \<in> set m"
    and l: "l = \<lparr>pl_side = (if s = 0 then Buy else Sell), pl_price = p, pl_quantity = q\<rparr>"
    by (auto simp: levels_of_def)
  from e [unfolded m_def] obtain t where "s = Side_wire t" by (rule residual_levels_wire)
  with e l bt.entries_get [OF btree_ok_residual_levels] show ?r
    by (simp add: m_def)
next
  assume ?r
  then have "((Side_wire (pl_side l), pl_price l), pl_quantity l) \<in> set m"
    using bt.entries_get [OF btree_ok_residual_levels] by (simp add: m_def)
  then show ?l by (force simp: levels_of_def image_iff)
qed

lemma distinct_levels_of:
  assumes m_def: "m = residual_levels batch fills remaining"
  shows "distinct (map level_key (levels_of m))"
proof -
  have d: "distinct m" and i: "inj_on fst (set m)"
    using bt.distinct_keys [OF btree_ok_residual_levels] by (simp_all add: m_def distinct_map)
  have "inj_on (\<lambda>((s, price), q). level_key \<lparr>pl_side = (if s = 0 then Buy else Sell), pl_price = price,
      pl_quantity = q\<rparr>) (set m)"
  proof (rule inj_onI, clarify, goal_cases)
    case (1 s p q s' p' q')
    from 1(1) [unfolded m_def] obtain t where "s = Side_wire t" by (rule residual_levels_wire)
    moreover from 1(2) [unfolded m_def] obtain t' where "s' = Side_wire t'" by (rule residual_levels_wire)
    ultimately have "(s, p) = (s', p')" using 1(3) by (simp add: level_key_inj)
    with inj_onD [OF i _ 1(1) 1(2)] show ?case by simp
  qed
  with d show ?thesis
    by (simp add: levels_of_def comp_def split_def distinct_map)
qed

lemma sorted_distinct_strict:
  "sorted xs \<Longrightarrow> distinct xs \<Longrightarrow> sorted_wrt (<) (xs :: 'a::linorder list)"
  using strict_sorted_iff by blast

text \<open>What a level of the book holds after the transition: the unfilled part of every slot at that
  side and price, and the resting remainder of the arriving order.\<close>

definition depth_after :: "PrivateMatchBatch \<Rightarrow> Side \<Rightarrow> u64 \<Rightarrow> nat" where
  "depth_after batch s price =
     (\<Sum>(r, f)\<leftarrow>zip (resting batch) (slots (expected_batch batch)).
        if ri_side r = s \<and> ri_price r = price then unat (ri_quantity r) - unat (trade_quantity f) else 0)
     + (if arriving_side batch = s \<and> arriving_price batch = price
        then unat (arriving_remaining (expected_batch batch)) else 0)"

lemma slot_le:
  assumes "(r, f) \<in> set (zip (resting batch) (slots (expected_batch batch)))"
  shows "trade_quantity f \<le> ri_quantity r"
proof -
  from assms obtain i where "i < length (resting batch)" "r = resting batch ! i"
      "f = slots (expected_batch batch) ! i"
    by (auto simp: in_set_conv_nth)
  then show ?thesis
    using match_slot_le(2) by (simp add: slots_expected_batch match_slots_nth)
qed

lemma depth_of_residuals:
  "depth_of (residuals batch (slots (expected_batch batch)) (arriving_remaining (expected_batch batch)))
     (Side_wire s, price) = depth_after batch s price"
proof -
  have "(\<Sum>(r, f)\<leftarrow>zs. if Side_wire (ri_side r) = Side_wire s \<and> ri_price r = price
            then unat (ri_quantity r - trade_quantity f) else 0)
      = (\<Sum>(r, f)\<leftarrow>zs. if ri_side r = s \<and> ri_price r = price
            then unat (ri_quantity r) - unat (trade_quantity f) else 0)"
    if "set zs \<subseteq> set (zip (resting batch) (slots (expected_batch batch)))" for zs
    using that by (induction zs) (auto simp: unat_diff slot_le)
  from this [OF order_refl] show ?thesis
    by (simp add: depth_of_def residuals_def depth_after_def comp_def split_def cong: if_cong)
qed

text \<open>The circuit's input bounds: at most eight slots, prices positive and at most 32 bits,
  quantities at most 32 bits.\<close>

definition batch_bounded :: "PrivateMatchBatch \<Rightarrow> bool" where
  "batch_bounded batch \<longleftrightarrow>
     length (resting batch) \<le> MAX_MATCH_SLOTS
     \<and> (\<forall>r\<in>set (resting batch). ri_price r \<noteq> 0 \<and> ri_price r \<le> u32_max \<and> ri_quantity r \<le> u32_max)
     \<and> arriving_price batch \<noteq> 0 \<and> arriving_price batch \<le> u32_max \<and> arriving_quantity batch \<le> u32_max"

lemma arriving_remaining_le: "arriving_remaining (expected_batch batch) \<le> arriving_quantity batch"
  by (simp add: arriving_remaining_expected_batch word_le_nat_alt match_slots_left)

lemma residuals_bounded:
  assumes "batch_bounded batch"
    and "x \<in> set (residuals batch (slots (expected_batch batch)) (arriving_remaining (expected_batch batch)))"
  shows "snd (fst x) \<noteq> 0 \<and> snd (fst x) \<le> u32_max \<and> unat (snd x) \<le> unat u32_max"
proof -
  have "unat (ri_quantity r - trade_quantity f) \<le> unat u32_max"
    if "(r, f) \<in> set (zip (resting batch) (slots (expected_batch batch)))" for r f
  proof -
    have "r \<in> set (resting batch)" using that by (rule set_zip_leftD)
    with assms(1) have "unat (ri_quantity r) \<le> unat u32_max"
      by (simp add: batch_bounded_def word_le_nat_alt)
    with unat_diff [OF slot_le [OF that]] show ?thesis by simp
  qed
  moreover have "unat (arriving_remaining (expected_batch batch)) \<le> unat u32_max"
    using assms(1) arriving_remaining_le [of batch] by (auto simp: batch_bounded_def word_le_nat_alt)
  ultimately show ?thesis
    using assms by (auto simp: residuals_def batch_bounded_def dest: set_zip_leftD)
qed

lemma depth_of_bound:
  assumes "\<And>x. x \<in> set xs \<Longrightarrow> unat (snd x) \<le> b"
  shows "depth_of xs k \<le> length xs * b"
  unfolding depth_of_def by (rule sum_list_le_length) (use assms in \<open>fastforce split: prod.splits\<close>)

lemma depth_after_bound:
  assumes "batch_bounded batch"
  shows "depth_after batch s price \<le> 9 * unat u32_max"
proof -
  let ?xs = "residuals batch (slots (expected_batch batch)) (arriving_remaining (expected_batch batch))"
  have "depth_of ?xs (Side_wire s, price) \<le> length ?xs * unat u32_max"
    by (rule depth_of_bound) (use residuals_bounded [OF assms] in blast)
  also have "length ?xs \<le> 9"
    using assms by (simp add: residuals_def batch_bounded_def MAX_MATCH_SLOTS_def)
  finally show ?thesis unfolding depth_of_residuals by simp
qed

lemma in_public_levels_iff:
  assumes "batch_bounded batch" and "public_levels (expected_batch batch) = Some ls"
  shows "l \<in> set ls \<longleftrightarrow>
    0 < depth_after batch (pl_side l) (pl_price l)
    \<and> unat (pl_quantity l) = depth_after batch (pl_side l) (pl_price l)"
proof -
  let ?k = "(Side_wire (pl_side l), pl_price l)"
  have lt: "depth_after batch (pl_side l) (pl_price l) < 2 ^ 64"
    using depth_after_bound [OF assms(1), of "pl_side l" "pl_price l"] by (simp add: u32_max_def)
  have "set ls = set (levels_of (residual_levels batch (slots (expected_batch batch))
      (arriving_remaining (expected_batch batch))))"
    using assms(2) by (auto simp: public_levels_expected_batch)
  then have "l \<in> set ls \<longleftrightarrow> btree_get (residual_levels batch (slots (expected_batch batch))
      (arriving_remaining (expected_batch batch))) ?k = Some (pl_quantity l)"
    by (simp only: in_levels_of_iff [OF refl])
  also have "\<dots> \<longleftrightarrow> 0 < depth_after batch (pl_side l) (pl_price l)
      \<and> unat (pl_quantity l) = depth_after batch (pl_side l) (pl_price l)"
    unfolding depth_of_residuals [symmetric]
    by (rule get_residual_levels) (unfold depth_of_residuals, rule lt)
  finally show ?thesis .
qed

lemma length_residual_levels: "length (residual_levels batch fills remaining) \<le> length (residuals batch fills remaining)"
proof -
  let ?m = "residual_levels batch fills remaining" and ?xs = "residuals batch fills remaining"
  have "length ?m = card (fst ` set ?m)"
    using distinct_card [OF bt.distinct_keys [OF btree_ok_residual_levels]] by simp
  also have "\<dots> \<le> card (fst ` set ?xs)"
    by (rule card_mono) (auto simp only: finite_imageI finite_set fst_conv dest: residual_levels_key)
  also have "\<dots> \<le> length ?xs"
    by (rule order_trans [OF card_image_le card_length]) simp
  finally show ?thesis .
qed

lemma public_levels_valid:
  assumes "batch_bounded batch" and pub: "public_levels (expected_batch batch) = Some ls"
  shows "validate_public_levels ls = Inr ()"
proof -
  let ?m = "residual_levels batch (slots (expected_batch batch)) (arriving_remaining (expected_batch batch))"
  have ls: "ls = sort_key level_key (levels_of ?m)"
    using pub by (simp add: public_levels_expected_batch)
  have "length ls \<le> 9"
    using length_residual_levels [of batch "slots (expected_batch batch)"
        "arriving_remaining (expected_batch batch)"] assms(1)
    by (simp add: ls levels_of_def residuals_def batch_bounded_def MAX_MATCH_SLOTS_def)
  moreover have "sorted_wrt (<) (map level_key ls)"
    unfolding ls by (rule sorted_distinct_strict) (use distinct_levels_of [OF refl] in
        \<open>simp_all add: distinct_map\<close>)
  moreover have "pl_price l \<noteq> 0 \<and> pl_price l \<le> u32_max \<and> pl_quantity l \<noteq> 0
      \<and> pl_quantity l \<le> u32_max * (of_nat MAX_MATCH_SLOTS + 1)" if l: "l \<in> set ls" for l
  proof -
    from l have "((Side_wire (pl_side l), pl_price l), pl_quantity l) \<in> set ?m"
      using bt.entries_get [OF btree_ok_residual_levels] by (simp add: ls in_levels_of_iff [OF refl])
    from residual_levels_key [OF this] residuals_bounded [OF assms(1)]
    have "pl_price l \<noteq> 0 \<and> pl_price l \<le> u32_max" by force
    moreover have "unat (pl_quantity l) = depth_after batch (pl_side l) (pl_price l)"
        "0 < depth_after batch (pl_side l) (pl_price l)"
      using in_public_levels_iff [OF assms(1) pub] l by blast+
    ultimately show ?thesis
      using depth_after_bound [OF assms(1), of "pl_side l" "pl_price l"]
      by (auto simp: word_le_nat_alt u32_max_def MAX_MATCH_SLOTS_def)
  qed
  ultimately show ?thesis
    by (simp add: validate_public_levels_def validate_levels_iff MAX_MATCH_SLOTS_def)
qed

text \<open>C38. The published depth is canonical and exact: on inputs within the circuit's bounds, the
  levels of the reference transition pass the validation of public levels, and a level is published
  exactly when the quantity left at its side and price is positive, with that quantity, no
  addition having wrapped.\<close>

theorem expected_batch_depth:
  assumes "batch_bounded batch"
  shows "\<exists>ls. public_levels (expected_batch batch) = Some ls
    \<and> validate_public_levels ls = Inr ()
    \<and> (\<forall>l. l \<in> set ls \<longleftrightarrow>
         0 < depth_after batch (pl_side l) (pl_price l)
         \<and> unat (pl_quantity l) = depth_after batch (pl_side l) (pl_price l))"
proof -
  obtain ls where ls: "public_levels (expected_batch batch) = Some ls"
    using public_levels_expected_batch by blast
  with public_levels_valid [OF assms ls] in_public_levels_iff [OF assms ls] show ?thesis by blast
qed

theorem expected_batch_depth_witness:
  "batch_bounded sample_batch
   \<and> (\<exists>ls. public_levels (expected_batch sample_batch) = Some ls \<and> validate_public_levels ls = Inr ()
        \<and> \<lparr>pl_side = Sell, pl_price = 11, pl_quantity = 2\<rparr> \<in> set ls)"
proof -
  have b: "batch_bounded sample_batch"
    by (simp add: batch_bounded_def sample_batch_def sample_slot_def MAX_MATCH_SLOTS_def u32_max_def)
  have "depth_after sample_batch Sell 11 = 2"
    by (simp add: depth_after_def sample_batch_def sample_slot_def expected_batch_def match_slot_def
        crosses_def Let_def)
  with expected_batch_depth [OF b] b show ?thesis by auto
qed

end
