(* ===== verification/Private_Book.thy ===== *)
theory Private_Book
  imports Matching
begin

text \<open>
  The private book of \<open>oclob-core/src/lib.rs\<close>: two ordered maps from price to a queue of resting
  orders, the set of admitted commands and the sequence of the last one. Every public operation of
  \<open>PrivateBook\<close> is a definition; the ones that take \<open>&mut self\<close> return their result together with
  the book they leave, also on an error.
\<close>

section \<open>Data\<close>

record MpcMatchResult =
  mm_matched :: bool
  mm_trade_price :: u64
  mm_trade_quantity :: u64
  mm_resting_remaining :: u64
  mm_arriving_remaining :: u64

record PrivateMatchInput =
  mi_resting_side :: Side
  mi_resting_price :: u64
  mi_resting_quantity :: u64
  mi_arriving_side :: Side
  mi_arriving_price :: u64
  mi_arriving_quantity :: u64

record PublicFill =
  maker_order :: OrderCommitment
  taker_order :: OrderCommitment
  fill_price :: u64
  fill_quantity :: u64

record PublicLevel =
  lv_side :: Side
  lv_price :: u64
  lv_quantity :: u64

record PublicBookSnapshot =
  sn_market_id :: rust_str
  sn_sequence :: u64
  sn_levels :: "PublicLevel list"
  sn_state_root :: Digest32

record BookTransition =
  bx_sequence :: u64
  bx_private_before_root :: Digest32
  bx_private_after_root :: Digest32
  bx_public_before_root :: Digest32
  bx_public_after :: PublicBookSnapshot
  bx_fill :: "PublicFill option"
  bx_fills :: "PublicFill list"
  bx_arriving_remaining :: u64

record CancellationTransition =
  cx_sequence :: u64
  cx_cancellation_commitment :: OrderCommitment
  cx_target_commitment :: OrderCommitment
  cx_released_quantity :: u64
  cx_private_before_root :: Digest32
  cx_private_after_root :: Digest32
  cx_public_before_root :: Digest32
  cx_public_after :: PublicBookSnapshot

record ExpiryTransition =
  ex_sequence :: u64
  ex_expiry_commitment :: OrderCommitment
  ex_cutoff :: u64
  ex_expired_orders :: "OrderCommitment list"
  ex_released_quantity :: u64
  ex_private_before_root :: Digest32
  ex_private_after_root :: Digest32
  ex_public_before_root :: Digest32
  ex_public_after :: PublicBookSnapshot

record RestingOrder =
  secret :: SecretOrder
  authority :: OrderAuthority
  remaining :: u64
  ro_sequence :: u64

type_synonym book_side = "(u64, RestingOrder list) btree"

record PrivateBook =
  pb_market_id :: rust_str
  pb_sequence :: u64
  bids :: book_side
  asks :: book_side
  admitted :: "OrderCommitment set"

abbreviation rc :: "RestingOrder \<Rightarrow> OrderCommitment" where
  "rc r \<equiv> oa_commitment (authority r)"

section \<open>Reading the book\<close>

definition PrivateBook_new :: "rust_str \<Rightarrow> OrderError + PrivateBook" where
  "PrivateBook_new market =
     (if market = [] \<or> 64 < length market then Inl (Invalid ''market id must contain 1-64 bytes'')
      else Inr \<lparr>pb_market_id = market, pb_sequence = 0, bids = [], asks = [], admitted = {}\<rparr>)"

text \<open>All the orders of a side in the order of its map.\<close>

definition flat :: "book_side \<Rightarrow> RestingOrder list" where
  "flat m = concat (map snd m)"

definition ordered_opposite :: "PrivateBook \<Rightarrow> Side \<Rightarrow> RestingOrder list" where
  "ordered_opposite b s = (case s of Buy \<Rightarrow> flat (asks b) | Sell \<Rightarrow> flat (rev (bids b)))"

definition best_opposite :: "PrivateBook \<Rightarrow> SecretOrder \<Rightarrow> RestingOrder option" where
  "best_opposite b ord =
     (case (case side ord of Buy \<Rightarrow> asks b | Sell \<Rightarrow> rev (bids b)) of
        [] \<Rightarrow> None
      | (_, queue) # _ \<Rightarrow> (case queue of [] \<Rightarrow> None | r # _ \<Rightarrow> Some r))"

definition private_match_input :: "PrivateBook \<Rightarrow> SecretOrder \<Rightarrow> OrderError + PrivateMatchInput option" where
  "private_match_input b ord =
     (if market_id ord \<noteq> pb_market_id b then Inl WrongMarket
      else Inr (map_option (\<lambda>r. \<lparr>mi_resting_side = side (secret r),
             mi_resting_price = limit_price (secret r), mi_resting_quantity = remaining r,
             mi_arriving_side = side ord, mi_arriving_price = limit_price ord,
             mi_arriving_quantity = quantity ord\<rparr>) (best_opposite b ord)))"

definition resting_input :: "RestingOrder \<Rightarrow> PrivateRestingInput" where
  "resting_input r =
     \<lparr>ri_commitment = rc r, ri_side = side (secret r), ri_price = limit_price (secret r),
      ri_quantity = remaining r\<rparr>"

definition live_opposite :: "PrivateBook \<Rightarrow> SecretOrder \<Rightarrow> u64 \<Rightarrow> RestingOrder list" where
  "live_opposite b ord now =
     filter (\<lambda>r. now \<le> expires_at (secret r)) (ordered_opposite b (side ord))"

definition private_match_batch ::
  "PrivateBook \<Rightarrow> SecretOrder \<Rightarrow> u64 \<Rightarrow> OrderError + PrivateMatchBatch" where
  "private_match_batch b ord now =
     (if market_id ord \<noteq> pb_market_id b then Inl WrongMarket
      else Inr \<lparr>resting = map resting_input (take MAX_MATCH_SLOTS (live_opposite b ord now)),
             arriving_side = side ord, arriving_price = limit_price ord,
             arriving_quantity = quantity ord,
             arriving_can_rest = (time_in_force ord = GoodTilCancelled)\<rparr>)"

fun count_matches :: "SecretOrder \<Rightarrow> u64 \<Rightarrow> nat \<Rightarrow> RestingOrder list \<Rightarrow> bool" where
  "count_matches ord left matches [] = False"
| "count_matches ord left matches (r # rs) =
     (if \<not> crosses (side ord) (limit_price ord) (limit_price (secret r)) \<or> left = 0 then False
      else if MAX_MATCH_SLOTS < matches + 1 then True
      else count_matches ord (left - min left (remaining r)) (matches + 1) rs)"

definition exceeds_fixed_match_capacity :: "PrivateBook \<Rightarrow> SecretOrder \<Rightarrow> u64 \<Rightarrow> bool" where
  "exceeds_fixed_match_capacity b ord now = count_matches ord (quantity ord) 0 (live_opposite b ord now)"

definition find_record :: "PrivateBook \<Rightarrow> OrderCommitment \<Rightarrow> RestingOrder option" where
  "find_record b c = find (\<lambda>r. rc r = c) (flat (bids b) @ flat (asks b))"

definition expired_commitments :: "PrivateBook \<Rightarrow> u64 \<Rightarrow> OrderCommitment list" where
  "expired_commitments b cutoff =
     sort (map rc (filter (\<lambda>r. expires_at (secret r) < cutoff) (flat (bids b) @ flat (asks b))))"

section \<open>Roots and the public snapshot\<close>

definition level :: "Side \<Rightarrow> u64 \<Rightarrow> RestingOrder list \<Rightarrow> PublicLevel" where
  "level s price queue = \<lparr>lv_side = s, lv_price = price, lv_quantity = sum_list (map remaining queue)\<rparr>"

definition public_root :: "crypto \<Rightarrow> rust_str \<Rightarrow> u64 \<Rightarrow> PublicLevel list \<Rightarrow> Digest32" where
  "public_root E market seq levels =
     sha256 E (bytes_of ''OCLOB:PUBLIC-BOOK:v2'' @ put_bytes market @ to_be_bytes seq
       @ concat (map (\<lambda>l. [Side_wire (lv_side l)] @ to_be_bytes (lv_price l)
                           @ to_be_bytes (lv_quantity l)) levels))"

definition snapshot_levels :: "PrivateBook \<Rightarrow> PublicLevel list" where
  "snapshot_levels b =
     map (\<lambda>(price, queue). level Buy price queue) (rev (bids b))
     @ map (\<lambda>(price, queue). level Sell price queue) (asks b)"

definition public_snapshot :: "crypto \<Rightarrow> PrivateBook \<Rightarrow> PublicBookSnapshot" where
  "public_snapshot E b =
     \<lparr>sn_market_id = pb_market_id b, sn_sequence = pb_sequence b, sn_levels = snapshot_levels b,
      sn_state_root = public_root E (pb_market_id b) (pb_sequence b) (snapshot_levels b)\<rparr>"

definition private_root :: "crypto \<Rightarrow> PrivateBook \<Rightarrow> Digest32" where
  "private_root E b =
     sha256 E (bytes_of ''OCLOB:PRIVATE-BOOK:v2'' @ put_bytes (pb_market_id b)
       @ to_be_bytes (pb_sequence b)
       @ concat (map (\<lambda>(price, queue). to_be_bytes price
            @ concat (map (\<lambda>r. to_be_bytes (commitment_bytes (rc r)) @ to_be_bytes (remaining r)
                                @ to_be_bytes (ro_sequence r)) queue)) (bids b @ asks b)))"

section \<open>Changing a side\<close>

text \<open>The loop of \<open>update_remainder\<close> over the prices of one side: the first queue holding the
  commitment is changed, and dropped when it becomes empty.\<close>

fun update_prices ::
  "u64 list \<Rightarrow> OrderCommitment \<Rightarrow> u64 \<Rightarrow> book_side \<Rightarrow> book_side option" where
  "update_prices [] c left m = None"
| "update_prices (price # prices) c left m =
     (case btree_get m price of
        None \<Rightarrow> update_prices prices c left m
      | Some queue \<Rightarrow>
          (case position (\<lambda>r. rc r = c) queue of
             None \<Rightarrow> update_prices prices c left m
           | Some i \<Rightarrow>
               let queue' = (if left = 0 then remove_at i queue
                             else queue[i := (queue ! i)\<lparr>remaining := left\<rparr>])
               in Some (if queue' = [] then btree_remove price m else btree_insert price queue' m)))"

definition update_remainder ::
  "PrivateBook \<Rightarrow> OrderCommitment \<Rightarrow> u64 \<Rightarrow> OrderError + PrivateBook" where
  "update_remainder b c left =
     (case update_prices (map fst (bids b)) c left (bids b) of
        Some m \<Rightarrow> Inr (b\<lparr>bids := m\<rparr>)
      | None \<Rightarrow> (case update_prices (map fst (asks b)) c left (asks b) of
                   Some m \<Rightarrow> Inr (b\<lparr>asks := m\<rparr>)
                 | None \<Rightarrow> Inl InvalidMpcResult))"

definition remove_by_commitment :: "PrivateBook \<Rightarrow> OrderCommitment \<Rightarrow> OrderError + PrivateBook" where
  "remove_by_commitment b c = map_err (\<lambda>_. UnknownOrder) (update_remainder b c 0)"

definition insert_record :: "RestingOrder \<Rightarrow> PrivateBook \<Rightarrow> PrivateBook" where
  "insert_record r b =
     (let ins = btree_upsert (limit_price (secret r)) [] (\<lambda>queue. queue @ [r])
      in case side (secret r) of
           Buy \<Rightarrow> b\<lparr>bids := ins (bids b)\<rparr>
         | Sell \<Rightarrow> b\<lparr>asks := ins (asks b)\<rparr>)"

section \<open>Admission\<close>

definition check_admission ::
  "PrivateBook \<Rightarrow> SecretOrder \<Rightarrow> OrderCommitment \<Rightarrow> u64 \<Rightarrow> OrderError + unit" where
  "check_admission b ord c seq =
     (if market_id ord \<noteq> pb_market_id b then Inl WrongMarket
      else if c \<in> admitted b then Inl Replay
      else if seq \<noteq> pb_sequence b + 1 then Inl (Invalid ''certificate sequence is not next'')
      else Inr ())"

text \<open>\<open>admitted.insert(c)\<close> and \<open>sequence = seq\<close>, the end of every accepted command.\<close>

definition admit :: "OrderCommitment \<Rightarrow> u64 \<Rightarrow> PrivateBook \<Rightarrow> PrivateBook" where
  "admit c seq b = b\<lparr>admitted := insert c (admitted b), pb_sequence := seq\<rparr>"

definition insert_resting ::
  "crypto \<Rightarrow> PrivateBook \<Rightarrow> SecretOrder \<Rightarrow> OrderAuthority \<Rightarrow> u64 \<Rightarrow> u64 \<Rightarrow>
   (OrderError + unit) \<times> PrivateBook" where
  "insert_resting E b ord a seq now =
     guarded (OrderAuthority_verify E a ord now) b (\<lambda>_.
     guarded (check_admission b ord (oa_commitment a) seq) b (\<lambda>_.
     if time_in_force ord \<noteq> GoodTilCancelled then (Inl (Invalid ''only GTC orders can rest''), b)
     else (Inr (), admit (oa_commitment a) seq
             (insert_record \<lparr>secret = ord, authority = a, remaining = quantity ord, ro_sequence = seq\<rparr> b))))"

section \<open>Applying a batch result\<close>

text \<open>The loop over the slots: each matched slot lowers the resting order and adds a fill.\<close>

fun apply_slots ::
  "OrderCommitment \<Rightarrow> PublicFill list \<Rightarrow> (PrivateRestingInput \<times> MpcSlotResult) list \<Rightarrow> PrivateBook \<Rightarrow>
   (OrderError + PublicFill list) \<times> PrivateBook" where
  "apply_slots taker fills [] b = (Inr fills, b)"
| "apply_slots taker fills ((r, slot) # rest) b =
     (if \<not> matched slot then apply_slots taker fills rest b
      else guarded (ok_or (checked_sub (ri_quantity r) (trade_quantity slot)) InvalidMpcResult) b (\<lambda>left.
           guarded (update_remainder b (ri_commitment r) left) b (\<lambda>b'.
           apply_slots taker (fills @ [\<lparr>maker_order = ri_commitment r, taker_order = taker,
             fill_price = trade_price slot, fill_quantity = trade_quantity slot\<rparr>]) rest b')))"

text \<open>The remainder of an arriving order rests when it is positive and good till cancelled.\<close>

definition rest_arriving ::
  "SecretOrder \<Rightarrow> OrderAuthority \<Rightarrow> u64 \<Rightarrow> u64 \<Rightarrow> PrivateBook \<Rightarrow> PrivateBook" where
  "rest_arriving ord a seq left b =
     (if 0 < left \<and> time_in_force ord = GoodTilCancelled
      then insert_record \<lparr>secret = ord, authority = a, remaining = left, ro_sequence = seq\<rparr> b
      else b)"

definition apply_mpc_batch_result ::
  "crypto \<Rightarrow> PrivateBook \<Rightarrow> SecretOrder \<Rightarrow> OrderAuthority \<Rightarrow> u64 \<Rightarrow> u64 \<Rightarrow> MpcBatchResult \<Rightarrow>
   (OrderError + BookTransition) \<times> PrivateBook" where
  "apply_mpc_batch_result E b ord a seq now result =
     guarded (OrderAuthority_verify E a ord now) b (\<lambda>_.
     guarded (check_admission b ord (oa_commitment a) seq) b (\<lambda>_.
     guarded (private_match_batch b ord now) b (\<lambda>batch.
     if result \<noteq> expected_batch batch then (Inl InvalidMpcResult, b)
     else case apply_slots (oa_commitment a) [] (zip (resting batch) (slots result)) b of
         (Inl e, b1) \<Rightarrow> (Inl e, b1)
       | (Inr fills, b1) \<Rightarrow>
           let b2 = admit (oa_commitment a) seq (rest_arriving ord a seq (arriving_remaining result) b1)
           in (Inr \<lparr>bx_sequence = seq, bx_private_before_root = private_root E b,
                 bx_private_after_root = private_root E b2,
                 bx_public_before_root = sn_state_root (public_snapshot E b),
                 bx_public_after = public_snapshot E b2,
                 bx_fill = (case fills of [] \<Rightarrow> None | f # _ \<Rightarrow> Some f), bx_fills = fills,
                 bx_arriving_remaining = arriving_remaining result\<rparr>, b2))))"

section \<open>Applying a single result\<close>

definition expected_result :: "PrivateBook \<Rightarrow> SecretOrder \<Rightarrow> MpcMatchResult" where
  "expected_result b ord =
     (case best_opposite b ord of
        None \<Rightarrow> \<lparr>mm_matched = False, mm_trade_price = 0, mm_trade_quantity = 0,
                 mm_resting_remaining = 0, mm_arriving_remaining = quantity ord\<rparr>
      | Some r \<Rightarrow>
          let crossed = crosses (side ord) (limit_price ord) (limit_price (secret r));
              qty = (if crossed then min (quantity ord) (remaining r) else 0)
          in \<lparr>mm_matched = crossed,
              mm_trade_price = (if crossed then limit_price (secret r) else 0),
              mm_trade_quantity = qty, mm_resting_remaining = remaining r - qty,
              mm_arriving_remaining = quantity ord - qty\<rparr>)"

text \<open>\<open>best_opposite_mut\<close> followed by an assignment to the order's remainder, and \<open>remove_best\<close>.\<close>

definition set_front :: "u64 \<Rightarrow> u64 \<times> RestingOrder list \<Rightarrow> u64 \<times> RestingOrder list" where
  "set_front left e =
     (case e of (price, []) \<Rightarrow> (price, []) | (price, r # rs) \<Rightarrow> (price, r\<lparr>remaining := left\<rparr> # rs))"

definition set_best :: "PrivateBook \<Rightarrow> SecretOrder \<Rightarrow> u64 \<Rightarrow> PrivateBook" where
  "set_best b ord left =
     (case side ord of
        Buy \<Rightarrow> (case asks b of [] \<Rightarrow> b | e # m \<Rightarrow> b\<lparr>asks := set_front left e # m\<rparr>)
      | Sell \<Rightarrow> (case rev (bids b) of [] \<Rightarrow> b | e # m \<Rightarrow> b\<lparr>bids := rev (set_front left e # m)\<rparr>))"

definition pop_price :: "u64 option \<Rightarrow> book_side \<Rightarrow> book_side" where
  "pop_price price m =
     (case price of None \<Rightarrow> m
      | Some p \<Rightarrow>
          (case btree_get m p of None \<Rightarrow> m
           | Some queue \<Rightarrow> if tl queue = [] then btree_remove p m else btree_insert p (tl queue) m))"

definition remove_best :: "PrivateBook \<Rightarrow> SecretOrder \<Rightarrow> PrivateBook" where
  "remove_best b ord =
     (case side ord of
        Buy \<Rightarrow> b\<lparr>asks := pop_price (if asks b = [] then None else Some (fst (hd (asks b)))) (asks b)\<rparr>
      | Sell \<Rightarrow> b\<lparr>bids := pop_price (if bids b = [] then None else Some (fst (last (bids b)))) (bids b)\<rparr>)"

definition apply_mpc_result ::
  "crypto \<Rightarrow> PrivateBook \<Rightarrow> SecretOrder \<Rightarrow> OrderAuthority \<Rightarrow> u64 \<Rightarrow> u64 \<Rightarrow> MpcMatchResult \<Rightarrow>
   (OrderError + BookTransition) \<times> PrivateBook" where
  "apply_mpc_result E b ord a seq now result =
     guarded (OrderAuthority_verify E a ord now) b (\<lambda>_.
     guarded (check_admission b ord (oa_commitment a) seq) b (\<lambda>_.
     if result \<noteq> expected_result b ord then (Inl InvalidMpcResult, b)
     else guarded (if mm_matched result
                   then ok_or (map_option Some (best_opposite b ord)) InvalidMpcResult
                   else Inr None) b (\<lambda>best.
       let b1 = (case best of None \<Rightarrow> b
                 | Some _ \<Rightarrow> if mm_resting_remaining result = 0 then remove_best b ord
                            else set_best b ord (mm_resting_remaining result));
           fill = map_option (\<lambda>r. \<lparr>maker_order = rc r, taker_order = oa_commitment a,
                    fill_price = mm_trade_price result, fill_quantity = mm_trade_quantity result\<rparr>) best;
           b2 = admit (oa_commitment a) seq (rest_arriving ord a seq (mm_arriving_remaining result) b1)
       in (Inr \<lparr>bx_sequence = seq, bx_private_before_root = private_root E b,
             bx_private_after_root = private_root E b2,
             bx_public_before_root = sn_state_root (public_snapshot E b),
             bx_public_after = public_snapshot E b2, bx_fill = fill,
             bx_fills = (case fill of None \<Rightarrow> [] | Some f \<Rightarrow> [f]),
             bx_arriving_remaining = mm_arriving_remaining result\<rparr>, b2))))"

section \<open>Cancellation and expiry\<close>

definition apply_cancellation ::
  "crypto \<Rightarrow> PrivateBook \<Rightarrow> SecretCancellation \<Rightarrow> u64 \<Rightarrow>
   (OrderError + CancellationTransition) \<times> PrivateBook" where
  "apply_cancellation E b k seq =
     (let command = SecretCancellation_commitment E k in
      if seq \<noteq> pb_sequence b + 1 then (Inl (Invalid ''certificate sequence is not next''), b)
      else if command \<in> admitted b then (Inl Replay, b)
      else guarded (ok_or (find_record b (sc_target k)) UnknownOrder) b (\<lambda>record.
      if cancellation_secret_digest (secret record) \<noteq> cancellation_digest E (sc_secret k)
      then (Inl InvalidCancellation, b)
      else guarded (remove_by_commitment b (sc_target k)) b (\<lambda>b1.
      let b2 = admit command seq b1
      in (Inr \<lparr>cx_sequence = seq, cx_cancellation_commitment = command,
            cx_target_commitment = sc_target k, cx_released_quantity = remaining record,
            cx_private_before_root = private_root E b, cx_private_after_root = private_root E b2,
            cx_public_before_root = sn_state_root (public_snapshot E b),
            cx_public_after = public_snapshot E b2\<rparr>, b2))))"

fun release_expired ::
  "u64 \<Rightarrow> OrderCommitment list \<Rightarrow> PrivateBook \<Rightarrow> (OrderError + u64) \<times> PrivateBook" where
  "release_expired released [] b = (Inr released, b)"
| "release_expired released (c # cs) b =
     guarded (ok_or (find_record b c) UnknownOrder) b (\<lambda>record.
     guarded (ok_or (checked_add released (remaining record)) (Invalid ''expired quantity overflowed'')) b
       (\<lambda>released'.
     guarded (remove_by_commitment b c) b (\<lambda>b'. release_expired released' cs b')))"

definition apply_expiry ::
  "crypto \<Rightarrow> PrivateBook \<Rightarrow> u64 \<Rightarrow> OrderCommitment \<Rightarrow> u64 \<Rightarrow>
   (OrderError + ExpiryTransition) \<times> PrivateBook" where
  "apply_expiry E b cutoff command seq =
     (let expired = expired_commitments b cutoff in
      if seq \<noteq> pb_sequence b + 1 then (Inl (Invalid ''certificate sequence is not next''), b)
      else if command \<in> admitted b then (Inl Replay, b)
      else if expired = [] \<or> command \<noteq> expiry_commitment E (pb_market_id b) cutoff expired
      then (Inl (Invalid ''expiry command is empty or non-canonical''), b)
      else case release_expired 0 expired b of
          (Inl e, b1) \<Rightarrow> (Inl e, b1)
        | (Inr released, b1) \<Rightarrow>
            let b2 = admit command seq b1
            in (Inr \<lparr>ex_sequence = seq, ex_expiry_commitment = command, ex_cutoff = cutoff,
                  ex_expired_orders = expired, ex_released_quantity = released,
                  ex_private_before_root = private_root E b, ex_private_after_root = private_root E b2,
                  ex_public_before_root = sn_state_root (public_snapshot E b),
                  ex_public_after = public_snapshot E b2\<rparr>, b2))"

end
