(* ===== verification/Transition_Proofs.thy ===== *)
theory Transition_Proofs
  imports Ordering_Properties Private_Book
begin

text \<open>
  The committee evidence for a book transition, \<open>oclob-proofs/src/lib.rs\<close>: the statements that bind an
  ordered input, its execution and the book roots, their quorum attestations, and the bindings a
  settlement engine checks before it treats a proof as authority. The timing fields of the engine
  receipts, which nothing reads, are left out.
\<close>

section \<open>Data\<close>

record MpcReceipt =
  mr_protocol :: rust_str
  mr_parties :: usize
  mr_max_corrupt_nodes :: usize
  mr_program_sha256 :: Digest32
  mr_public_output_sha256 :: Digest32
  mr_all_parties_agreed :: bool
  mr_result :: MpcMatchResult

record MpcBatchReceipt =
  mb_protocol :: rust_str
  mb_parties :: usize
  mb_max_corrupt_nodes :: usize
  mb_program_sha256 :: Digest32
  mb_public_output_sha256 :: Digest32
  mb_all_parties_agreed :: bool
  mb_result :: MpcBatchResult

datatype ProofError = StatementMismatch | TooFewAttestations | InvalidSignature | InvalidCommittee

record TransitionStatement =
  ts_market_id :: rust_str
  ts_sequence :: u64
  order_certificate_digest :: Digest32
  eligibility_proof_digest :: Digest32
  ts_private_before_root :: Digest32
  ts_private_after_root :: Digest32
  ts_public_before_root :: Digest32
  ts_public_after_root :: Digest32
  mpc_program_digest :: Digest32
  mpc_output_digest :: Digest32
  fill_digest :: Digest32

record TransitionAttestation =
  ta_node_id :: u16
  ta_signature :: "u8 list"

record TransitionProof =
  tp_statement :: TransitionStatement
  tp_attestations :: "TransitionAttestation list"

record VerifiedTransitionProof =
  vp_proof :: TransitionProof
  vp_committee_trust_root :: Digest32

record CancellationStatement =
  cs_market_id :: rust_str
  cs_sequence :: u64
  cs_certificate_digest :: Digest32
  cs_target_commitment :: Digest32
  cs_private_before_root :: Digest32
  cs_private_after_root :: Digest32
  cs_public_before_root :: Digest32
  cs_public_after_root :: Digest32

record CancellationProof =
  cn_statement :: CancellationStatement
  cn_attestations :: "TransitionAttestation list"

record ExpiryStatement =
  es_market_id :: rust_str
  es_sequence :: u64
  es_certificate_digest :: Digest32
  es_cutoff :: u64
  es_expired_orders :: "Digest32 list"
  es_private_before_root :: Digest32
  es_private_after_root :: Digest32
  es_public_before_root :: Digest32
  es_public_after_root :: Digest32

record ExpiryProof =
  ep_statement :: ExpiryStatement
  ep_attestations :: "TransitionAttestation list"

section \<open>Statements\<close>

definition fill_encoding :: "PublicFill \<Rightarrow> u8 list" where
  "fill_encoding f = to_be_bytes (commitment_bytes (maker_order f)) @ to_be_bytes (commitment_bytes (taker_order f))
     @ to_be_bytes (fill_price f) @ to_be_bytes (fill_quantity f)"

definition fills_preimage :: "PublicFill list \<Rightarrow> u8 list" where
  "fills_preimage fs = bytes_of ''OCLOB:PUBLIC-FILL:v2'' @ to_be_bytes (of_nat (length fs) :: u64)
     @ concat (map fill_encoding fs)"

definition public_fills_digest :: "crypto \<Rightarrow> PublicFill list \<Rightarrow> Digest32" where
  "public_fills_digest E fs = sha256 E (fills_preimage fs)"

text \<open>The two constructors from an execution differ in the receipt and in which fills they check.\<close>

definition statement_from ::
  "crypto \<Rightarrow> OrderCertificate \<Rightarrow> BookTransition \<Rightarrow> Digest32 \<Rightarrow> Digest32 \<Rightarrow> Digest32 \<Rightarrow> TransitionStatement" where
  "statement_from E t x program output eligibility =
     \<lparr>ts_market_id = ct_market_id t, ts_sequence = ct_sequence t,
      order_certificate_digest = certificate_digest E t, eligibility_proof_digest = eligibility,
      ts_private_before_root = bx_private_before_root x, ts_private_after_root = bx_private_after_root x,
      ts_public_before_root = bx_public_before_root x,
      ts_public_after_root = sn_state_root (bx_public_after x), mpc_program_digest = program,
      mpc_output_digest = output, fill_digest = public_fills_digest E (bx_fills x)\<rparr>"

definition from_execution ::
  "crypto \<Rightarrow> OrderCertificate \<Rightarrow> BookTransition \<Rightarrow> MpcReceipt \<Rightarrow> Digest32 \<Rightarrow> ProofError + TransitionStatement" where
  "from_execution E t x mpc eligibility =
     (if ct_sequence t \<noteq> bx_sequence x \<or> ct_market_id t \<noteq> sn_market_id (bx_public_after x)
         \<or> \<not> mr_all_parties_agreed mpc \<or> eligibility = 0
      then Inl StatementMismatch
      else if (case bx_fill x of Some f \<Rightarrow> taker_order f \<noteq> ct_commitment t | None \<Rightarrow> False)
      then Inl StatementMismatch
      else Inr (statement_from E t x (mr_program_sha256 mpc) (mr_public_output_sha256 mpc) eligibility))"

definition from_batch_execution ::
  "crypto \<Rightarrow> OrderCertificate \<Rightarrow> BookTransition \<Rightarrow> MpcBatchReceipt \<Rightarrow> Digest32 \<Rightarrow> ProofError + TransitionStatement" where
  "from_batch_execution E t x mpc eligibility =
     (if ct_sequence t \<noteq> bx_sequence x \<or> ct_market_id t \<noteq> sn_market_id (bx_public_after x)
         \<or> \<not> mb_all_parties_agreed mpc \<or> eligibility = 0
      then Inl StatementMismatch
      else if list_ex (\<lambda>f. taker_order f \<noteq> ct_commitment t) (bx_fills x)
      then Inl StatementMismatch
      else Inr (statement_from E t x (mb_program_sha256 mpc) (mb_public_output_sha256 mpc) eligibility))"

definition statement_preimage :: "TransitionStatement \<Rightarrow> u8 list" where
  "statement_preimage s = bytes_of ''OCLOB:TRANSITION-STATEMENT:v3'' @ put_bytes (ts_market_id s)
     @ to_be_bytes (ts_sequence s) @ to_be_bytes (order_certificate_digest s)
     @ to_be_bytes (eligibility_proof_digest s) @ to_be_bytes (ts_private_before_root s)
     @ to_be_bytes (ts_private_after_root s) @ to_be_bytes (ts_public_before_root s)
     @ to_be_bytes (ts_public_after_root s) @ to_be_bytes (mpc_program_digest s)
     @ to_be_bytes (mpc_output_digest s) @ to_be_bytes (fill_digest s)"

definition statement_digest_of :: "crypto \<Rightarrow> TransitionStatement \<Rightarrow> Digest32" where
  "statement_digest_of E s = sha256 E (statement_preimage s)"

definition cancellation_from_transition ::
  "crypto \<Rightarrow> OrderCertificate \<Rightarrow> CancellationTransition \<Rightarrow> ProofError + CancellationStatement" where
  "cancellation_from_transition E t x =
     (if ct_sequence t \<noteq> cx_sequence x \<or> ct_commitment t \<noteq> cx_cancellation_commitment x
         \<or> ct_market_id t \<noteq> sn_market_id (cx_public_after x)
      then Inl StatementMismatch
      else Inr \<lparr>cs_market_id = ct_market_id t, cs_sequence = cx_sequence x,
        cs_certificate_digest = certificate_digest E t,
        cs_target_commitment = commitment_bytes (cx_target_commitment x),
        cs_private_before_root = cx_private_before_root x, cs_private_after_root = cx_private_after_root x,
        cs_public_before_root = cx_public_before_root x,
        cs_public_after_root = sn_state_root (cx_public_after x)\<rparr>)"

definition cancellation_preimage :: "CancellationStatement \<Rightarrow> u8 list" where
  "cancellation_preimage s = bytes_of ''OCLOB:CANCELLATION-STATEMENT:v2'' @ put_bytes (cs_market_id s)
     @ to_be_bytes (cs_sequence s) @ to_be_bytes (cs_certificate_digest s)
     @ to_be_bytes (cs_target_commitment s) @ to_be_bytes (cs_private_before_root s)
     @ to_be_bytes (cs_private_after_root s) @ to_be_bytes (cs_public_before_root s)
     @ to_be_bytes (cs_public_after_root s)"

definition cancellation_statement_digest :: "crypto \<Rightarrow> CancellationStatement \<Rightarrow> Digest32" where
  "cancellation_statement_digest E s = sha256 E (cancellation_preimage s)"

definition expiry_from_transition ::
  "crypto \<Rightarrow> OrderCertificate \<Rightarrow> ExpiryTransition \<Rightarrow> ProofError + ExpiryStatement" where
  "expiry_from_transition E t x =
     (if ct_sequence t \<noteq> ex_sequence x \<or> ct_commitment t \<noteq> ex_expiry_commitment x
         \<or> ct_market_id t \<noteq> sn_market_id (ex_public_after x)
      then Inl StatementMismatch
      else Inr \<lparr>es_market_id = ct_market_id t, es_sequence = ex_sequence x,
        es_certificate_digest = certificate_digest E t, es_cutoff = ex_cutoff x,
        es_expired_orders = map commitment_bytes (ex_expired_orders x),
        es_private_before_root = ex_private_before_root x, es_private_after_root = ex_private_after_root x,
        es_public_before_root = ex_public_before_root x,
        es_public_after_root = sn_state_root (ex_public_after x)\<rparr>)"

definition expiry_statement_preimage :: "ExpiryStatement \<Rightarrow> u8 list" where
  "expiry_statement_preimage s = bytes_of ''OCLOB:EXPIRY-STATEMENT:v2'' @ put_bytes (es_market_id s)
     @ to_be_bytes (es_sequence s) @ to_be_bytes (es_certificate_digest s) @ to_be_bytes (es_cutoff s)
     @ to_be_bytes (of_nat (length (es_expired_orders s)) :: u64)
     @ concat (map to_be_bytes (es_expired_orders s))
     @ to_be_bytes (es_private_before_root s) @ to_be_bytes (es_private_after_root s)
     @ to_be_bytes (es_public_before_root s) @ to_be_bytes (es_public_after_root s)"

definition expiry_statement_digest :: "crypto \<Rightarrow> ExpiryStatement \<Rightarrow> Digest32" where
  "expiry_statement_digest E s = sha256 E (expiry_statement_preimage s)"

section \<open>Attestations\<close>

text \<open>The three \<open>attest\<close> functions sign the digest of their statement with the first signers of the
  quorum, and the three \<open>verify\<close> functions check distinct committee signatures on it.\<close>

definition attest_digest ::
  "crypto \<Rightarrow> Digest32 \<Rightarrow> (u16 \<times> SigningKey) list \<Rightarrow> CommitteePolicy \<Rightarrow> ProofError + TransitionAttestation list" where
  "attest_digest E digest signers policy =
     andThen (map_err (\<lambda>_. InvalidCommittee) (CommitteePolicy_validate policy)) (\<lambda>_.
     if length signers < unat (ordering_quorum policy) then Inl TooFewAttestations
     else collect_results (map (\<lambda>(i, key).
         andThen (map_err (\<lambda>_. InvalidSignature) (try_sign E key (to_be_bytes digest))) (\<lambda>s.
         Inr \<lparr>ta_node_id = i, ta_signature = sig_bytes s\<rparr>))
       (take (unat (ordering_quorum policy)) signers)))"

fun verify_attestations ::
  "crypto \<Rightarrow> (u16, VerifyingKey) btree \<Rightarrow> Digest32 \<Rightarrow> u16 set \<Rightarrow> TransitionAttestation list \<Rightarrow> ProofError + u16 set" where
  "verify_attestations E keys digest distinct_ids [] = Inr distinct_ids"
| "verify_attestations E keys digest distinct_ids (a # as) =
     (if ta_node_id a \<in> distinct_ids then Inl InvalidSignature
      else andThen (ok_or (btree_get keys (ta_node_id a)) InvalidSignature) (\<lambda>key.
           andThen (map_err (\<lambda>_. InvalidSignature) (Signature_try_from E (ta_signature a))) (\<lambda>s.
           andThen (map_err (\<lambda>_. InvalidSignature) (verify_strict E key (to_be_bytes digest) s)) (\<lambda>_.
           verify_attestations E keys digest (insert (ta_node_id a) distinct_ids) as))))"

definition verify_digest ::
  "crypto \<Rightarrow> Digest32 \<Rightarrow> TransitionAttestation list \<Rightarrow> (u16, VerifyingKey) btree \<Rightarrow> CommitteePolicy \<Rightarrow> ProofError + unit" where
  "verify_digest E digest as keys policy =
     andThen (map_err (\<lambda>_. InvalidCommittee) (CommitteePolicy_validate policy)) (\<lambda>_.
     andThen (verify_attestations E keys digest {} as) (\<lambda>distinct_ids.
     if card distinct_ids < unat (ordering_quorum policy) then Inl TooFewAttestations else Inr ()))"

definition TransitionProof_attest ::
  "crypto \<Rightarrow> TransitionStatement \<Rightarrow> (u16 \<times> SigningKey) list \<Rightarrow> CommitteePolicy \<Rightarrow> ProofError + TransitionProof" where
  "TransitionProof_attest E s signers policy =
     andThen (attest_digest E (statement_digest_of E s) signers policy) (\<lambda>as.
     Inr \<lparr>tp_statement = s, tp_attestations = as\<rparr>)"

definition TransitionProof_verify ::
  "crypto \<Rightarrow> TransitionProof \<Rightarrow> (u16, VerifyingKey) btree \<Rightarrow> CommitteePolicy \<Rightarrow> ProofError + unit" where
  "TransitionProof_verify E p keys policy =
     verify_digest E (statement_digest_of E (tp_statement p)) (tp_attestations p) keys policy"

definition CancellationProof_attest ::
  "crypto \<Rightarrow> CancellationStatement \<Rightarrow> (u16 \<times> SigningKey) list \<Rightarrow> CommitteePolicy \<Rightarrow> ProofError + CancellationProof" where
  "CancellationProof_attest E s signers policy =
     andThen (attest_digest E (cancellation_statement_digest E s) signers policy) (\<lambda>as.
     Inr \<lparr>cn_statement = s, cn_attestations = as\<rparr>)"

definition CancellationProof_verify ::
  "crypto \<Rightarrow> CancellationProof \<Rightarrow> (u16, VerifyingKey) btree \<Rightarrow> CommitteePolicy \<Rightarrow> ProofError + unit" where
  "CancellationProof_verify E p keys policy =
     verify_digest E (cancellation_statement_digest E (cn_statement p)) (cn_attestations p) keys policy"

definition ExpiryProof_attest ::
  "crypto \<Rightarrow> ExpiryStatement \<Rightarrow> (u16 \<times> SigningKey) list \<Rightarrow> CommitteePolicy \<Rightarrow> ProofError + ExpiryProof" where
  "ExpiryProof_attest E s signers policy =
     andThen (attest_digest E (expiry_statement_digest E s) signers policy) (\<lambda>as.
     Inr \<lparr>ep_statement = s, ep_attestations = as\<rparr>)"

definition ExpiryProof_verify ::
  "crypto \<Rightarrow> ExpiryProof \<Rightarrow> (u16, VerifyingKey) btree \<Rightarrow> CommitteePolicy \<Rightarrow> ProofError + unit" where
  "ExpiryProof_verify E p keys policy =
     verify_digest E (expiry_statement_digest E (ep_statement p)) (ep_attestations p) keys policy"

section \<open>The trust anchor and the verified proof\<close>

definition trust_preimage :: "(u16, VerifyingKey) btree \<Rightarrow> CommitteePolicy \<Rightarrow> u8 list" where
  "trust_preimage keys policy = bytes_of ''OCLOB:TRANSITION-COMMITTEE:v2''
     @ to_be_bytes (cp_nodes policy) @ to_be_bytes (max_corrupt_nodes policy)
     @ to_be_bytes (reconstruction_quorum policy) @ to_be_bytes (ordering_quorum policy)
     @ to_be_bytes (settlement_authorization_quorum policy)
     @ concat (map (\<lambda>(i, key). to_be_bytes i @ to_be_bytes (vk_bytes key)) keys)"

definition committee_trust_root ::
  "crypto \<Rightarrow> (u16, VerifyingKey) btree \<Rightarrow> CommitteePolicy \<Rightarrow> ProofError + Digest32" where
  "committee_trust_root E keys policy =
     andThen (map_err (\<lambda>_. InvalidCommittee) (CommitteePolicy_validate policy)) (\<lambda>_.
     if length keys \<noteq> unat (cp_nodes policy) \<or> list_ex (\<lambda>(i, _). i = 0) keys then Inl InvalidCommittee
     else Inr (sha256 E (trust_preimage keys policy)))"

definition into_verified ::
  "crypto \<Rightarrow> TransitionProof \<Rightarrow> (u16, VerifyingKey) btree \<Rightarrow> CommitteePolicy \<Rightarrow> ProofError + VerifiedTransitionProof" where
  "into_verified E p keys policy =
     andThen (TransitionProof_verify E p keys policy) (\<lambda>_.
     andThen (committee_trust_root E keys policy) (\<lambda>root.
     Inr \<lparr>vp_proof = p, vp_committee_trust_root = root\<rparr>))"

section \<open>Bindings\<close>

definition verify_admission_binding ::
  "crypto \<Rightarrow> VerifiedTransitionProof \<Rightarrow> OrderCertificate \<Rightarrow> Digest32 \<Rightarrow> ProofError + unit" where
  "verify_admission_binding E v t expected =
     (let s = tp_statement (vp_proof v) in
      fail_if (vp_committee_trust_root v \<noteq> expected \<or> ts_market_id s \<noteq> ct_market_id t
        \<or> ts_sequence s \<noteq> ct_sequence t \<or> order_certificate_digest s \<noteq> certificate_digest E t
        \<or> fill_digest s \<noteq> public_fills_digest E []) StatementMismatch)"

definition verify_settlement_binding ::
  "crypto \<Rightarrow> VerifiedTransitionProof \<Rightarrow> rust_str \<Rightarrow> OrderCommitment \<Rightarrow> PublicFill list \<Rightarrow> Digest32 \<Rightarrow> ProofError + unit" where
  "verify_settlement_binding E v market arriving fills expected =
     (let s = tp_statement (vp_proof v) in
      fail_if (vp_committee_trust_root v \<noteq> expected \<or> ts_market_id s \<noteq> market
        \<or> fill_digest s \<noteq> public_fills_digest E fills
        \<or> list_ex (\<lambda>f. taker_order f \<noteq> arriving) fills) StatementMismatch)"

definition verify_execution_binding ::
  "crypto \<Rightarrow> VerifiedTransitionProof \<Rightarrow> OrderCertificate \<Rightarrow> OrderCommitment \<Rightarrow> PublicFill list \<Rightarrow> Digest32 \<Rightarrow>
   ProofError + unit" where
  "verify_execution_binding E v t arriving fills expected =
     andThen (verify_settlement_binding E v (ct_market_id t) arriving fills expected) (\<lambda>_.
     let s = tp_statement (vp_proof v) in
     fail_if (ts_sequence s \<noteq> ct_sequence t \<or> order_certificate_digest s \<noteq> certificate_digest E t)
       StatementMismatch)"

end
