(* ===== verification/Ordering_Log.thy ===== *)
theory Ordering_Log
  imports Ordering_Properties
begin

text \<open>
  The ordering log and the committee: the log is a chain of verified certificates without replay, its
  head determines its whole content, and the committee, whose signers work, certifies exactly the
  fresh and well-formed commands and is left unchanged by the others.
\<close>

section \<open>The chain\<close>

definition chain_link :: "crypto \<Rightarrow> OrderCertificate list \<Rightarrow> nat \<Rightarrow> Digest32" where
  "chain_link E ts i = (if i = 0 then 0 else certificate_digest E (ts ! (i - 1)))"

definition log_ok ::
  "crypto \<Rightarrow> CommitteePolicy \<Rightarrow> (u16, VerifyingKey) btree \<Rightarrow> OrderingLog \<Rightarrow> bool" where
  "log_ok E policy keys l \<longleftrightarrow>
     (let ts = certificates l in
      length ts < 2 ^ 64 \<and> log_commitments l = ct_commitment ` set ts \<and> distinct (map ct_commitment ts)
      \<and> (\<forall>i<length ts. unat (ct_sequence (ts ! i)) = Suc i \<and> previous_certificate (ts ! i) = chain_link E ts i
           \<and> (\<exists>now. OrderCertificate_verify E (ts ! i) policy keys now = Inr ())))"

inductive log_reachable ::
  "crypto \<Rightarrow> CommitteePolicy \<Rightarrow> (u16, VerifyingKey) btree \<Rightarrow> OrderingLog \<Rightarrow> bool"
  for E policy keys where
  log_init: "log_reachable E policy keys log_default"
| log_step: "log_reachable E policy keys l \<Longrightarrow> log_reachable E policy keys (snd (log_append E l t policy keys now))"

lemma log_append_cases:
  obtains (Err) e where "log_append E l t policy keys now = (Inl e, l)"
      "\<not> (OrderCertificate_verify E t policy keys now = Inr () \<and> ct_sequence t = next_sequence l
          \<and> previous_certificate t = log_head E l \<and> ct_commitment t \<notin> log_commitments l)"
  | (Ok) "OrderCertificate_verify E t policy keys now = Inr ()" "ct_sequence t = next_sequence l"
      "previous_certificate t = log_head E l" "ct_commitment t \<notin> log_commitments l"
      "log_append E l t policy keys now = (Inr (), \<lparr>certificates = certificates l @ [t],
         log_commitments = insert (ct_commitment t) (log_commitments l)\<rparr>)"
proof (cases "OrderCertificate_verify E t policy keys now")
  case (Inl e)
  then show thesis by (intro Err [of e]) (simp_all add: log_append_def)
next
  case (Inr u)
  show thesis
  proof (cases "ct_sequence t = next_sequence l \<and> previous_certificate t = log_head E l")
    case False
    with Inr show thesis by (intro Err [of BrokenChain]) (auto simp: log_append_def)
  next
    case True
    show thesis
    proof (cases "ct_commitment t \<in> log_commitments l")
      case in_log: True
      with Inr True show thesis by (intro Err [of OrderingReplay]) (simp_all add: log_append_def)
    next
      case False
      with Inr True show thesis by (intro Ok) (simp_all add: log_append_def)
    qed
  qed
qed

lemma next_sequence_unat:
  assumes "length (certificates l) < 2 ^ 64" "next_sequence l \<noteq> 0"
  shows "unat (next_sequence l) = Suc (length (certificates l))"
proof -
  have l: "unat (of_nat (length (certificates l)) :: u64) = length (certificates l)"
    using assms(1) by (simp add: unat_of_nat)
  have "(of_nat (length (certificates l)) :: u64) \<noteq> - 1"
    using assms(2) by (auto simp: next_sequence_def)
  from word_less_Suc_unat(1) [OF this] l show ?thesis by (simp add: next_sequence_def)
qed

lemma log_ok_append:
  assumes ok: "log_ok E policy keys l" and v: "OrderCertificate_verify E t policy keys now = Inr ()"
    and s: "ct_sequence t = next_sequence l" and p: "previous_certificate t = log_head E l"
    and c: "ct_commitment t \<notin> log_commitments l"
  shows "log_ok E policy keys \<lparr>certificates = certificates l @ [t],
    log_commitments = insert (ct_commitment t) (log_commitments l)\<rparr>"
proof -
  let ?ts = "certificates l"
  have len: "length ?ts < 2 ^ 64" using ok by (simp add: log_ok_def Let_def)
  have "next_sequence l \<noteq> 0" using v s by (auto simp: certificate_ok_iff statement_malformed_def)
  then have u: "unat (ct_sequence t) = Suc (length ?ts)" using next_sequence_unat [OF len] s by simp
  have "Suc (length ?ts) < 2 ^ 64" using u unat_u64_less [of "ct_sequence t"] by simp
  moreover have link: "chain_link E (?ts @ [t]) i = chain_link E ?ts i" if "i \<le> length ?ts" for i
    using that by (cases i) (simp_all add: chain_link_def nth_append)
  moreover have "previous_certificate t = chain_link E ?ts (length ?ts)"
    by (simp add: p log_head_def chain_link_def last_conv_nth)
  ultimately show ?thesis
    using ok v u c by (auto simp: log_ok_def Let_def nth_append less_Suc_eq)
qed

lemma log_ok_default [simp]: "log_ok E policy keys log_default"
  by (simp add: log_ok_def log_default_def)

lemma log_ok_step:
  assumes "log_ok E policy keys l"
  shows "log_ok E policy keys (snd (log_append E l t policy keys now))"
proof (cases rule: log_append_cases [of E l t policy keys now])
  case (Err e)
  with assms show ?thesis by simp
next
  case Ok
  from log_ok_append [OF assms Ok(1-4)] Ok(5) show ?thesis by simp
qed

lemma reachable_log_ok: "log_reachable E policy keys l \<Longrightarrow> log_ok E policy keys l"
  by (induction rule: log_reachable.induct) (simp_all add: log_ok_step)

lemma log_okD:
  assumes "log_ok E policy keys l" "i < length (certificates l)"
  shows "unat (ct_sequence (certificates l ! i)) = Suc i"
    "previous_certificate (certificates l ! i) = chain_link E (certificates l) i"
    "\<exists>now. OrderCertificate_verify E (certificates l ! i) policy keys now = Inr ()"
  using assms by (simp_all add: log_ok_def Let_def)

text \<open>The log is a sequenced ledger of commitments.\<close>

definition log_accepts ::
  "crypto \<Rightarrow> CommitteePolicy \<Rightarrow> (u16, VerifyingKey) btree \<Rightarrow> OrderingLog \<Rightarrow> OrderCommitment \<Rightarrow> OrderingLog \<Rightarrow> bool" where
  "log_accepts E policy keys l c l' \<longleftrightarrow>
     (\<exists>t now. ct_commitment t = c \<and> log_append E l t policy keys now = (Inr (), l'))"

interpretation chain: sequenced_ledger "log_accepts E policy keys" log_commitments
  "\<lambda>l. of_nat (length (certificates l)) :: u64" "\<lambda>_. True" for E policy keys
proof
  fix l c l' assume "log_accepts E policy keys l c l'"
  then obtain t now where t: "ct_commitment t = c" "log_append E l t policy keys now = (Inr (), l')"
    by (auto simp: log_accepts_def)
  then have "c \<notin> log_commitments l \<and> log_commitments l' = insert c (log_commitments l)
      \<and> length (certificates l') = Suc (length (certificates l))"
    by (cases rule: log_append_cases [of E l t policy keys now]) auto
  then show "c \<notin> log_commitments l" "log_commitments l' = insert c (log_commitments l)"
    "(of_nat (length (certificates l')) :: u64) = of_nat (length (certificates l)) + 1"
    by (simp_all add: add.commute)
qed simp

section \<open>The head determines the log\<close>

text \<open>A certificate up to the order in which its votes are listed, which is what the digest hashes.\<close>

definition sorted_votes :: "OrderCertificate \<Rightarrow> OrderCertificate" where
  "sorted_votes t = t\<lparr>ct_votes := sort_key ov_node_id (ct_votes t)\<rparr>"

lemma sorted_votesD:
  assumes "sorted_votes t = sorted_votes t'"
  shows "ct_sequence t = ct_sequence t'" "previous_certificate t = previous_certificate t'"
  using arg_cong [OF assms, of ct_sequence] arg_cong [OF assms, of previous_certificate]
  by (simp_all add: sorted_votes_def)

lemma signature_ok_length:
  assumes "signature_ok E key m bs"
  shows "length bs = SIGNATURE_BYTES"
proof -
  from assms obtain s where "Signature_try_from E bs = Inr s" by (auto simp: signature_ok_alt)
  then show ?thesis by (auto simp: Signature_try_from_def Signature_validate_def Let_def result_ok)
qed

lemma vote_encoding_inject:
  assumes "length (ov_signature v) < 2 ^ 64" "length (ov_signature w) < 2 ^ 64"
    and "vote_encoding v @ r = vote_encoding w @ s"
  shows "v = w \<and> r = s"
  using assms(3) put_bytes_append_eq [OF assms(1,2)] by (simp add: vote_encoding_def)

lemma certificate_preimage_inject:
  assumes "OrderCertificate_verify E t policy keys now = Inr ()"
    and "OrderCertificate_verify E t' policy' keys' now' = Inr ()"
    and "certificate_preimage t = certificate_preimage t'"
  shows "sorted_votes t = sorted_votes t'"
proof -
  have sig: "length (ov_signature v) < 2 ^ 64" if "v \<in> set (ct_votes t) \<union> set (ct_votes t')" for v
    using that assms(1,2) signature_ok_length
    by (fastforce simp: certificate_ok_iff SIGNATURE_BYTES_def PUBLIC_KEY_BYTES_def)
  have m: "length (ct_market_id t) < 2 ^ 64" "length (ct_market_id t') < 2 ^ 64"
    using verified_market [OF assms(1)] verified_market [OF assms(2)] by simp_all
  have e: "ct_market_id t = ct_market_id t' \<and> ct_sequence t = ct_sequence t'
      \<and> commitment_bytes (ct_commitment t) = commitment_bytes (ct_commitment t')
      \<and> previous_certificate t = previous_certificate t' \<and> ct_expires_at t = ct_expires_at t'
      \<and> concat (map vote_encoding (sort_key ov_node_id (ct_votes t)))
          = concat (map vote_encoding (sort_key ov_node_id (ct_votes t')))"
    using assms(3) by (simp add: certificate_preimage_def put_bytes_append_eq [OF m])
  have "sort_key ov_node_id (ct_votes t) = sort_key ov_node_id (ct_votes t')"
  proof (rule concat_encoding_inject [where enc = vote_encoding])
    show "x = y \<and> r = s" if "x \<in> set (sort_key ov_node_id (ct_votes t))"
        "y \<in> set (sort_key ov_node_id (ct_votes t'))" "vote_encoding x @ r = vote_encoding y @ s" for x y r s
      by (rule vote_encoding_inject [OF sig sig that(3)]) (use that in auto)
    show "vote_encoding x \<noteq> []" for x
      using length_to_be_bytes [of "ov_node_id x"] by (auto simp: vote_encoding_def simp del: length_to_be_bytes)
  qed (use e in blast)
  with e show ?thesis by (simp add: sorted_votes_def OrderCommitment.expand)
qed

lemma chain_agree:
  assumes ok: "log_ok E policy keys l" "log_ok E policy keys l'"
    and inj: "inj_on (sha256 E) (certificate_preimage ` (set (certificates l) \<union> set (certificates l')))"
    and i: "i < length (certificates l)" "i < length (certificates l')"
    and d: "certificate_digest E (certificates l ! i) = certificate_digest E (certificates l' ! i)"
  shows "\<forall>j\<le>i. sorted_votes (certificates l ! j) = sorted_votes (certificates l' ! j)"
proof -
  let ?t = "certificates l" and ?t' = "certificates l'"
  have here: "sorted_votes (?t ! i) = sorted_votes (?t' ! i)"
    if h: "i < length ?t" "i < length ?t'" "certificate_digest E (?t ! i) = certificate_digest E (?t' ! i)" for i
  proof -
    obtain now now' where "OrderCertificate_verify E (?t ! i) policy keys now = Inr ()"
        "OrderCertificate_verify E (?t' ! i) policy keys now' = Inr ()"
      using log_okD(3) [OF ok(1) h(1)] log_okD(3) [OF ok(2) h(2)] by blast
    moreover have "certificate_preimage (?t ! i) = certificate_preimage (?t' ! i)"
      by (rule inj_onD [OF inj]) (use h in \<open>auto simp: certificate_digest_def\<close>)
    ultimately show ?thesis by (rule certificate_preimage_inject)
  qed
  from i d show ?thesis
  proof (induction i)
    case 0
    then show ?case using here by simp
  next
    case (Suc i)
    have s: "sorted_votes (?t ! Suc i) = sorted_votes (?t' ! Suc i)" by (rule here [OF Suc.prems])
    from sorted_votesD(2) [OF s] have "certificate_digest E (?t ! i) = certificate_digest E (?t' ! i)"
      using log_okD(2) [OF ok(1) Suc.prems(1)] log_okD(2) [OF ok(2) Suc.prems(2)] by (simp add: chain_link_def)
    from Suc.IH [OF _ _ this] Suc.prems s show ?case by (auto simp: le_Suc_eq)
  qed
qed

text \<open>C26. The head of the log determines the log: two logs grown from the empty one that have the same
  head digest contain the same certificates in the same order, up to the order of the votes inside a
  certificate, provided SHA-256 does not collide on the certificates of the two logs.\<close>

theorem head_determines_log:
  assumes "log_reachable E policy keys l" "log_reachable E policy keys l'"
    and "certificates l \<noteq> []" "certificates l' \<noteq> []" "log_head E l = log_head E l'"
    and "inj_on (sha256 E) (certificate_preimage ` (set (certificates l) \<union> set (certificates l')))"
  shows "map sorted_votes (certificates l) = map sorted_votes (certificates l')"
proof -
  let ?t = "certificates l" and ?t' = "certificates l'" and ?n = "length (certificates l) - 1" and ?n' = "length (certificates l') - 1"
  note ok = reachable_log_ok [OF assms(1)] reachable_log_ok [OF assms(2)]
  have n: "?n < length ?t" "?n' < length ?t'" using assms(3,4) by simp_all
  have d: "certificate_digest E (?t ! ?n) = certificate_digest E (?t' ! ?n')"
    using assms(3-5) by (simp add: log_head_def last_conv_nth)
  obtain now now' where v: "OrderCertificate_verify E (?t ! ?n) policy keys now = Inr ()"
      "OrderCertificate_verify E (?t' ! ?n') policy keys now' = Inr ()"
    using log_okD(3) [OF ok(1) n(1)] log_okD(3) [OF ok(2) n(2)] by blast
  have "certificate_preimage (?t ! ?n) = certificate_preimage (?t' ! ?n')"
    by (rule inj_onD [OF assms(6)]) (use d n in \<open>auto simp: certificate_digest_def\<close>)
  from sorted_votesD(1) [OF certificate_preimage_inject [OF v this]] have "Suc ?n = Suc ?n'"
    using log_okD(1) [OF ok(1) n(1)] log_okD(1) [OF ok(2) n(2)] by simp
  then have len: "length ?t = length ?t'" using assms(3,4) by simp
  have "\<forall>j\<le>?n. sorted_votes (?t ! j) = sorted_votes (?t' ! j)"
    by (rule chain_agree [OF ok assms(6)]) (use n d len in auto)
  then show ?thesis using len by (intro nth_equalityI) auto
qed

section \<open>The committee\<close>

text \<open>The signer of every node works: the hybrid signer reports no failure.\<close>

definition signer_total :: "crypto \<Rightarrow> bool" where
  "signer_total E \<longleftrightarrow> (\<forall>seed m. hybrid_sign E seed m \<noteq> None)"

definition committee_ok :: "crypto \<Rightarrow> OrderingCommittee \<Rightarrow> bool" where
  "committee_ok E oc \<longleftrightarrow>
     oc_policy oc = seven_node \<and> map on_id (oc_nodes oc) = [1, 2, 3, 4, 5, 6, 7]
     \<and> oc_keys oc = map (\<lambda>n. (on_id n, verifying_key E (on_key n))) (oc_nodes oc)
     \<and> (\<forall>n\<in>set (oc_nodes oc). \<forall>s\<in>fst ` set (voted n). unat s \<le> length (certificates (oc_log oc)))
     \<and> log_ok E seven_node (oc_keys oc) (oc_log oc)"

inductive committee_reachable :: "crypto \<Rightarrow> OrderingCommittee \<Rightarrow> bool" for E where
  committee_init: "deterministic_for_demo E = Inr oc \<Longrightarrow> committee_reachable E oc"
| committee_step: "committee_reachable E oc \<Longrightarrow> committee_reachable E (snd (certify E oc market c expires now))"

definition demo_node :: "u16 \<Rightarrow> OrderingNode" where
  "demo_node i = \<lparr>on_id = i, on_key = SigningKey (demo_seed (ucast i)), voted = []\<rparr>"

lemma seven_node_valid [simp]: "CommitteePolicy_validate seven_node = Inr ()"
  by (simp add: policy_valid_iff seven_node_def)

lemma demo_committee:
  "deterministic_for_demo E = Inr oc \<longleftrightarrow>
     oc = \<lparr>oc_policy = seven_node, oc_nodes = map demo_node [1, 2, 3, 4, 5, 6, 7],
       oc_keys = map (\<lambda>i. (i, verifying_key E (on_key (demo_node i)))) [1, 2, 3, 4, 5, 6, 7], oc_log = log_default\<rparr>"
proof -
  have "[1..<8] = [1, 2, 3, 4, 5, 6, 7::nat]" by (simp add: upt_rec)
  then show ?thesis
    by (auto simp: deterministic_for_demo_def OrderingNode_new_def demo_node_def)
qed

lemma committee_ok_demo: "deterministic_for_demo E = Inr oc \<Longrightarrow> committee_ok E oc"
  unfolding demo_committee by (simp add: committee_ok_def demo_node_def)

lemma collect_votes_malformed:
  assumes "statement_malformed market seq c prev expires now" "0 < k" "ns \<noteq> []"
  shows "collect_votes E market seq c prev expires now k ns = (Inl InvalidVote, ns)"
proof -
  from assms(2,3) obtain j n ms where "k = Suc j" "ns = n # ms" by (metis gr0_implies_Suc list.exhaust)
  with assms(1) show ?thesis by (simp add: vote_def)
qed

text \<open>The vote of a node whose signer works, and the node afterwards.\<close>

definition vote_of :: "crypto \<Rightarrow> Digest32 \<Rightarrow> OrderingNode \<Rightarrow> OrderVote" where
  "vote_of E d n = \<lparr>ov_node_id = on_id n, statement_digest = d,
     ov_signature = (case try_sign E (on_key n) (to_be_bytes d) of Inr s \<Rightarrow> sig_bytes s | Inl _ \<Rightarrow> [])\<rparr>"

definition after_vote :: "u64 \<Rightarrow> Digest32 \<Rightarrow> OrderingNode \<Rightarrow> OrderingNode" where
  "after_vote seq d n = n\<lparr>voted := btree_insert seq d (voted n)\<rparr>"

lemma try_sign_total: "signer_total E \<Longrightarrow> \<exists>s. try_sign E k m = Inr s"
  by (auto simp: signer_total_def try_sign_def split: option.splits)

lemma collect_votes_ok:
  assumes E: "signer_total E" and w: "\<not> statement_malformed market seq c prev expires now"
    and fresh: "\<And>n. n \<in> set ns \<Longrightarrow> btree_get (voted n) seq = None"
  shows "collect_votes E market seq c prev expires now k ns =
    (Inr (map (vote_of E (vote_digest E market seq c prev expires)) (take k ns)),
     map (after_vote seq (vote_digest E market seq c prev expires)) (take k ns) @ drop k ns)"
  using fresh
proof (induction k arbitrary: ns)
  case (Suc k)
  show ?case
  proof (cases ns)
    case (Cons n ms)
    obtain s where "try_sign E (on_key n) (to_be_bytes (vote_digest E market seq c prev expires)) = Inr s"
      using try_sign_total [OF E] by blast
    moreover have "btree_get (voted n) seq = None" by (rule Suc.prems) (simp add: Cons)
    moreover have "collect_votes E market seq c prev expires now k ms =
        (Inr (map (vote_of E (vote_digest E market seq c prev expires)) (take k ms)),
         map (after_vote seq (vote_digest E market seq c prev expires)) (take k ms) @ drop k ms)"
      by (rule Suc.IH) (rule Suc.prems, simp add: Cons)
    ultimately show ?thesis
      using w by (simp add: Cons vote_def Let_def vote_of_def after_vote_def)
  qed simp
qed simp

lemma vote_of_ok:
  assumes "hybrid_correct E" "\<And>k. \<exists>s. try_sign E k (to_be_bytes d) = Inr s"
  shows "signature_ok E (verifying_key E (on_key n)) (to_be_bytes d) (ov_signature (vote_of E d n))"
proof -
  obtain s where s: "try_sign E (on_key n) (to_be_bytes d) = Inr s" using assms(2) by blast
  from signed_signature_ok [OF assms(1) s] show ?thesis by (simp add: vote_of_def s)
qed

lemma committee_fresh:
  assumes ok: "committee_ok E oc" and w: "next_sequence (oc_log oc) \<noteq> 0" and n: "n \<in> set (oc_nodes oc)"
  shows "btree_get (voted n) (next_sequence (oc_log oc)) = None"
proof (rule ccontr)
  assume "btree_get (voted n) (next_sequence (oc_log oc)) \<noteq> None"
  then have "next_sequence (oc_log oc) \<in> fst ` set (voted n)"
    by (simp add: btree_get_def map_of_eq_None_iff)
  moreover have "length (certificates (oc_log oc)) < 2 ^ 64" using ok by (simp add: committee_ok_def log_ok_def Let_def)
  ultimately show False using ok n next_sequence_unat [OF _ w] by (fastforce simp: committee_ok_def)
qed

text \<open>The certificate the committee issues for a command.\<close>

definition certificate_for :: "crypto \<Rightarrow> OrderingCommittee \<Rightarrow> rust_str \<Rightarrow> OrderCommitment \<Rightarrow> u64 \<Rightarrow> OrderCertificate" where
  "certificate_for E oc market c expires =
     (let seq = next_sequence (oc_log oc); prev = log_head E (oc_log oc) in
      \<lparr>ct_market_id = market, ct_sequence = seq, ct_commitment = c, previous_certificate = prev,
       ct_expires_at = expires,
       ct_votes = map (vote_of E (vote_digest E market seq c prev expires)) (take 5 (oc_nodes oc))\<rparr>)"

lemma certificate_for_fields:
  "ct_market_id (certificate_for E oc market c expires) = market"
  "ct_sequence (certificate_for E oc market c expires) = next_sequence (oc_log oc)"
  "ct_commitment (certificate_for E oc market c expires) = c"
  "previous_certificate (certificate_for E oc market c expires) = log_head E (oc_log oc)"
  "ct_expires_at (certificate_for E oc market c expires) = expires"
  by (simp_all add: certificate_for_def Let_def)

lemma certificate_for_verifies:
  assumes E: "hybrid_correct E"
      "\<And>k. \<exists>s. try_sign E k (to_be_bytes (statement_of E (certificate_for E oc market c expires))) = Inr s"
    and ok: "committee_ok E oc"
    and w: "\<not> statement_malformed market (next_sequence (oc_log oc)) c (log_head E (oc_log oc)) expires now"
  shows "OrderCertificate_verify E (certificate_for E oc market c expires) seven_node (oc_keys oc) now = Inr ()"
proof -
  let ?t = "certificate_for E oc market c expires" and ?ns = "take 5 (oc_nodes oc)"
  have ids: "map on_id (oc_nodes oc) = [1, 2, 3, 4, 5, 6, 7]" using ok by (simp add: committee_ok_def)
  have "length (oc_nodes oc) = 7" using arg_cong [OF ids, of length] by simp
  then have len: "length ?ns = 5" by simp
  have "map on_id ?ns = [1, 2, 3, 4, 5]" using arg_cong [OF ids, of "take 5"] by (simp add: take_map)
  then have d: "distinct (map (ov_node_id \<circ> vote_of E x) ?ns)" for x by (simp add: vote_of_def comp_def)
  have "btree_get (oc_keys oc) (on_id n) = Some (verifying_key E (on_key n))" if "n \<in> set ?ns" for n
  proof -
    have "n \<in> set (oc_nodes oc)" using that by (rule in_set_takeD)
    moreover have "distinct (map fst (map (\<lambda>n. (on_id n, verifying_key E (on_key n))) (oc_nodes oc)))"
      using ids by (simp add: comp_def)
    ultimately show ?thesis using ok by (auto simp: committee_ok_def btree_get_def intro!: map_of_is_SomeI)
  qed
  moreover have st: "statement_of E ?t = vote_digest E market (next_sequence (oc_log oc)) c (log_head E (oc_log oc)) expires"
    by (simp add: statement_of_def certificate_for_def Let_def)
  ultimately show ?thesis
    using w len d vote_of_ok [OF E, unfolded st]
    by (auto simp: certificate_ok_iff certificate_for_def Let_def seven_node_def [THEN arg_cong, of ordering_quorum]
        vote_of_def [THEN arg_cong, of ov_node_id] vote_of_def [THEN arg_cong, of statement_digest])
qed

lemma certify_cases:
  assumes E: "hybrid_correct E" "signer_total E" and ok: "committee_ok E oc"
  obtains (Err) e where "certify E oc market c expires now = (Inl e, oc)"
      "c \<in> log_commitments (oc_log oc)
       \<or> statement_malformed market (next_sequence (oc_log oc)) c (log_head E (oc_log oc)) expires now"
  | (Ok) ns where "certify E oc market c expires now =
        (Inr (certificate_for E oc market c expires), oc\<lparr>oc_nodes := ns,
           oc_log := \<lparr>certificates = certificates (oc_log oc) @ [certificate_for E oc market c expires],
             log_commitments = insert c (log_commitments (oc_log oc))\<rparr>\<rparr>)"
      "ns = map (after_vote (next_sequence (oc_log oc)) (statement_of E (certificate_for E oc market c expires)))
         (take 5 (oc_nodes oc)) @ drop 5 (oc_nodes oc)"
      "OrderCertificate_verify E (certificate_for E oc market c expires) seven_node (oc_keys oc) now = Inr ()"
      "c \<notin> log_commitments (oc_log oc)"
      "\<not> statement_malformed market (next_sequence (oc_log oc)) c (log_head E (oc_log oc)) expires now"
proof -
  let ?l = "oc_log oc" and ?t = "certificate_for E oc market c expires"
  let ?bad = "statement_malformed market (next_sequence ?l) c (log_head E ?l) expires now"
  have p: "unat (ordering_quorum seven_node) = 5" "oc_policy oc = seven_node" and ne: "oc_nodes oc \<noteq> []"
    using ok by (auto simp: committee_ok_def seven_node_def [THEN arg_cong, of ordering_quorum])
  show thesis
  proof (cases "c \<in> log_commitments ?l \<or> ?bad")
    case True
    show thesis
    proof (cases "c \<in> log_commitments ?l")
      case in_log: True
      then show thesis by (intro Err [of OrderingReplay]) (simp_all add: certify_def log_contains_def)
    next
      case False
      with True collect_votes_malformed [OF _ _ ne, of market "next_sequence ?l" c "log_head E ?l" expires now 5 E]
      have "certify E oc market c expires now = (Inl InvalidVote, oc)"
        by (simp add: certify_def log_contains_def p Let_def)
      with True show thesis by (rule Err [rotated])
    qed
  next
    case False
    then have w: "\<not> ?bad" and c: "c \<notin> log_commitments ?l" by simp_all
    then have "next_sequence ?l \<noteq> 0" by (simp add: statement_malformed_def)
    note cv = collect_votes_ok [OF E(2) w committee_fresh [OF ok this], of "oc_nodes oc" 5]
    have v: "OrderCertificate_verify E ?t seven_node (oc_keys oc) now = Inr ()"
      by (rule certificate_for_verifies [OF E(1) try_sign_total [OF E(2)] ok w])
    have f: "ct_sequence ?t = next_sequence ?l" "previous_certificate ?t = log_head E ?l" "ct_commitment ?t = c"
      "statement_of E ?t = vote_digest E market (next_sequence ?l) c (log_head E ?l) expires"
      by (simp_all add: certificate_for_def Let_def statement_of_def)
    have "log_append E ?l ?t seven_node (oc_keys oc) now = (Inr (), \<lparr>certificates = certificates ?l @ [?t],
         log_commitments = insert c (log_commitments ?l)\<rparr>)"
      using v f c by (simp add: log_append_def)
    then show thesis
      by (intro Ok [OF _ refl v c w]) (simp add: certify_def log_contains_def c p cv f(4), simp add: certificate_for_def Let_def)
  qed
qed

lemma committee_ok_step:
  assumes E: "hybrid_correct E" "signer_total E" and ok: "committee_ok E oc"
  shows "committee_ok E (snd (certify E oc market c expires now))"
  using E ok
proof (cases rule: certify_cases [of E oc market c expires now])
  case (Err e)
  with ok show ?thesis by simp
next
  case (Ok ns)
  let ?l = "oc_log oc" and ?t = "certificate_for E oc market c expires"
  have f: "ct_sequence ?t = next_sequence ?l" "previous_certificate ?t = log_head E ?l" "ct_commitment ?t = c"
    by (simp_all add: certificate_for_def Let_def)
  have lo: "log_ok E seven_node (oc_keys oc) ?l" using ok unfolding committee_ok_def by blast
  from log_ok_append [OF lo Ok(3) f(1,2)] Ok(4)
  have l: "log_ok E seven_node (oc_keys oc) \<lparr>certificates = certificates ?l @ [?t],
      log_commitments = insert c (log_commitments ?l)\<rparr>" by (simp add: f(3))
  have same: "map on_id ns = map on_id (oc_nodes oc)"
    "map (\<lambda>n. (on_id n, verifying_key E (on_key n))) ns = map (\<lambda>n. (on_id n, verifying_key E (on_key n))) (oc_nodes oc)"
    unfolding Ok(2) map_append map_map comp_def after_vote_def
    by (simp_all flip: map_append take_map drop_map)
  have k: "map (\<lambda>n. (on_id n, verifying_key E (on_key n))) ns = oc_keys oc"
    using ok unfolding same(2) committee_ok_def by simp
  have nx: "unat (next_sequence ?l) = Suc (length (certificates ?l))"
    using Ok(5) lo by (intro next_sequence_unat) (auto simp: statement_malformed_def log_ok_def Let_def)
  have "unat s \<le> Suc (length (certificates ?l))" if "n \<in> set ns" "s \<in> fst ` set (voted n)" for n s
  proof -
    let ?d = "statement_of E (certificate_for E oc market c expires)"
    from that(1) have "n \<in> set (oc_nodes oc) \<or> (\<exists>m\<in>set (oc_nodes oc). n = after_vote (next_sequence ?l) ?d m)"
      unfolding Ok(2) by (auto dest: in_set_takeD in_set_dropD)
    moreover have "fst ` set (voted (after_vote (next_sequence ?l) ?d m)) = insert (next_sequence ?l) (fst ` set (voted m))" for m
      by (simp add: after_vote_def fst_set_btree_insert)
    ultimately obtain m where m: "m \<in> set (oc_nodes oc)"
        "fst ` set (voted n) \<subseteq> insert (next_sequence ?l) (fst ` set (voted m))"
      by blast
    with that(2) ok nx show ?thesis by (fastforce simp: committee_ok_def intro: le_SucI)
  qed
  then show ?thesis using ok l same(1) k [symmetric] unfolding committee_ok_def Ok(1) by simp
qed

lemma reachable_committee_ok:
  "committee_reachable E oc \<Longrightarrow> hybrid_correct E \<Longrightarrow> signer_total E \<Longrightarrow> committee_ok E oc"
  by (induction rule: committee_reachable.induct) (simp_all add: committee_ok_demo committee_ok_step)

text \<open>C27. The committee is live and atomic: in every state it can reach with working signers, a command is
  certified exactly when it was not ordered before, its market name, commitment and time are well
  formed, the sequence has not run out and the head of a non-empty log is not the reserved zero digest.
  The certificate verifies and is appended under the next sequence; a refused command changes neither
  the log nor the votes of any node.\<close>

theorem certify_exact:
  assumes "committee_reachable E oc" "hybrid_correct E" "signer_total E"
    and "certify E oc market c expires now = (res, oc')"
  shows "case res of
      Inr t \<Rightarrow> c \<notin> log_commitments (oc_log oc) \<and> ct_market_id t = market \<and> ct_commitment t = c
        \<and> ct_expires_at t = expires \<and> ct_sequence t = next_sequence (oc_log oc)
        \<and> OrderCertificate_verify E t seven_node (oc_keys oc) now = Inr ()
        \<and> certificates (oc_log oc') = certificates (oc_log oc) @ [t]
    | Inl e \<Rightarrow> oc' = oc \<and> (c \<in> log_commitments (oc_log oc) \<or> market = [] \<or> 64 < length market
        \<or> commitment_bytes c = 0 \<or> expires < now \<or> next_sequence (oc_log oc) = 0
        \<or> (next_sequence (oc_log oc) = 1) \<noteq> (log_head E (oc_log oc) = 0))"
  using assms(2,3) reachable_committee_ok [OF assms(1-3)]
proof (cases rule: certify_cases [of E oc market c expires now])
  case (Err e)
  then show ?thesis using assms(4) by (auto simp: statement_malformed_def)
next
  case (Ok ns)
  then show ?thesis using assms(4) certificate_for_fields [of E oc market c expires] by auto
qed

definition sample_committee :: "crypto \<Rightarrow> OrderingCommittee" where
  "sample_committee E = \<lparr>oc_policy = seven_node, oc_nodes = map demo_node [1, 2, 3, 4, 5, 6, 7],
     oc_keys = map (\<lambda>i. (i, verifying_key E (on_key (demo_node i)))) [1, 2, 3, 4, 5, 6, 7], oc_log = log_default\<rparr>"

lemma sample_committee_demo: "deterministic_for_demo E = Inr (sample_committee E)"
  by (simp add: demo_committee sample_committee_def)

lemma sample_committee_reachable: "committee_reachable E (sample_committee E)"
  by (rule committee_init [OF sample_committee_demo])

lemma sample_signer_total: "signer_total sample_crypto"
  by (simp add: signer_total_def sample_crypto_def)

lemma sample_committee_log:
  "certificates (oc_log (sample_committee E)) = []" "log_commitments (oc_log (sample_committee E)) = {}"
  "next_sequence (oc_log (sample_committee E)) = 1" "log_head E (oc_log (sample_committee E)) = 0"
  "log_head F (oc_log (sample_committee E)) = 0"
  by (simp_all add: sample_committee_def log_default_def next_sequence_def log_head_def)

theorem certify_exact_witness:
  "(\<exists>t oc'. certify sample_crypto (sample_committee sample_crypto) [65] (OrderCommitment 9) 99 50 = (Inr t, oc')
      \<and> certificates (oc_log oc') = [t])
   \<and> snd (certify sample_crypto (sample_committee sample_crypto) [65] (OrderCommitment 9) 99 100)
        = sample_committee sample_crypto"
proof -
  note c = certify_exact [OF sample_committee_reachable sample_crypto_correct sample_signer_total]
  obtain r oc' where r: "certify sample_crypto (sample_committee sample_crypto) [65] (OrderCommitment 9) 99 50 = (r, oc')"
    by fastforce
  obtain q oc'' where q: "certify sample_crypto (sample_committee sample_crypto) [65] (OrderCommitment 9) 99 100 = (q, oc'')"
    by fastforce
  have "\<exists>t. r = Inr t \<and> certificates (oc_log oc') = [t]"
    using c [OF r] by (auto simp: sample_committee_log split: sum.splits)
  moreover have "oc'' = sample_committee sample_crypto"
    using c [OF q] by (auto simp: certificate_ok_iff statement_malformed_def split: sum.splits)
  ultimately show ?thesis using r q by auto
qed

section \<open>The log over all appends\<close>

text \<open>The log of the demo committee after one command, with the votes in the order cast and reversed.\<close>

definition sample_certificate :: OrderCertificate where
  "sample_certificate = certificate_for sample_crypto (sample_committee sample_crypto) [65] (OrderCommitment 9) 99"

abbreviation sample_keys :: "(u16, VerifyingKey) btree" where
  "sample_keys \<equiv> oc_keys (sample_committee sample_crypto)"

definition reversed_certificate :: OrderCertificate where
  "reversed_certificate = sample_certificate\<lparr>ct_votes := rev (ct_votes sample_certificate)\<rparr>"

lemma sample_certificate_verifies:
  "OrderCertificate_verify sample_crypto sample_certificate seven_node sample_keys 50 = Inr ()"
  "OrderCertificate_verify sample_crypto reversed_certificate seven_node sample_keys 50 = Inr ()"
proof -
  show v: "OrderCertificate_verify sample_crypto sample_certificate seven_node sample_keys 50 = Inr ()"
    unfolding sample_certificate_def
    by (rule certificate_for_verifies [OF sample_crypto_correct try_sign_total [OF sample_signer_total]
          committee_ok_demo [OF sample_committee_demo]])
       (simp add: sample_committee_log statement_malformed_def)
  have "statement_of sample_crypto reversed_certificate = statement_of sample_crypto sample_certificate"
    by (simp add: statement_of_def reversed_certificate_def)
  with v show "OrderCertificate_verify sample_crypto reversed_certificate seven_node sample_keys 50 = Inr ()"
    unfolding certificate_ok_iff by (simp add: reversed_certificate_def rev_map [symmetric])
qed

lemma sample_append:
  assumes "t = sample_certificate \<or> t = reversed_certificate"
  shows "log_append sample_crypto log_default t seven_node sample_keys 50 =
    (Inr (), \<lparr>certificates = [t], log_commitments = {OrderCommitment 9}\<rparr>)"
proof -
  have "ct_sequence t = 1" "previous_certificate t = 0" "ct_commitment t = OrderCommitment 9"
    using assms by (auto simp: reversed_certificate_def sample_certificate_def certificate_for_fields sample_committee_log)
  with assms sample_certificate_verifies show ?thesis
    by (auto simp: log_append_def log_default_def next_sequence_def log_head_def)
qed

definition sample_log :: OrderingLog where
  "sample_log = \<lparr>certificates = [sample_certificate], log_commitments = {OrderCommitment 9}\<rparr>"

definition reversed_log :: OrderingLog where
  "reversed_log = \<lparr>certificates = [reversed_certificate], log_commitments = {OrderCommitment 9}\<rparr>"

lemma sample_log_reachable:
  "log_reachable sample_crypto seven_node sample_keys sample_log"
  "log_reachable sample_crypto seven_node sample_keys reversed_log"
  using log_step [OF log_init, of sample_crypto seven_node sample_keys sample_certificate 50]
    log_step [OF log_init, of sample_crypto seven_node sample_keys reversed_certificate 50]
  by (simp_all add: sample_append sample_log_def reversed_log_def)

lemma reversed_preimage: "certificate_preimage reversed_certificate = certificate_preimage sample_certificate"
proof -
  have "take 5 (map demo_node [1, 2, 3, 4, 5, 6, 7]) = map demo_node [1, 2, 3, 4, 5]" by simp
  then obtain d where v: "ct_votes sample_certificate = map (vote_of sample_crypto d) (map demo_node [1, 2, 3, 4, 5])"
    by (simp only: sample_certificate_def certificate_for_def Let_def sample_committee_def OrderCertificate.simps
        OrderingCommittee.simps)
  have i: "ov_node_id (vote_of E d (demo_node i)) = i" for E d i by (simp add: vote_of_def demo_node_def)
  have nl: "\<not> 2 \<le> (1::u16)" "\<not> 3 \<le> (1::u16)" "\<not> 4 \<le> (1::u16)" "\<not> 5 \<le> (1::u16)"
    by (simp_all add: not_le)
  have "sort_key ov_node_id (rev (ct_votes sample_certificate)) = sort_key ov_node_id (ct_votes sample_certificate)"
    using nl by (simp add: v i)
  then show ?thesis by (simp add: certificate_preimage_def reversed_certificate_def)
qed

text \<open>C25. The ordering log is a gap-free hash chain: in every log grown from the empty one the certificate
  at position \<open>i\<close> carries sequence \<open>i + 1\<close>, names the digest of the certificate before it (zero for the
  first) and verified under the committee's keys when it was appended; no commitment is ordered twice,
  and the set of commitments is that of the certificates.\<close>

theorem ordering_log_chain:
  assumes "log_reachable E policy keys l" "i < length (certificates l)"
  shows "unat (ct_sequence (certificates l ! i)) = i + 1
    \<and> previous_certificate (certificates l ! i) =
        (if i = 0 then 0 else certificate_digest E (certificates l ! (i - 1)))
    \<and> (\<exists>now. OrderCertificate_verify E (certificates l ! i) policy keys now = Inr ())
    \<and> distinct (map ct_commitment (certificates l)) \<and> log_commitments l = ct_commitment ` set (certificates l)"
  using log_okD [OF reachable_log_ok [OF assms(1)] assms(2)] reachable_log_ok [OF assms(1)]
  by (auto simp: chain_link_def log_ok_def Let_def)

theorem ordering_log_chain_witness:
  "unat (ct_sequence (certificates sample_log ! 0)) = 1 \<and> previous_certificate (certificates sample_log ! 0) = 0"
  using ordering_log_chain [OF sample_log_reachable(1), of 0] by (simp add: sample_log_def)

theorem head_determines_log_witness:
  "sorted_votes reversed_certificate = sorted_votes sample_certificate"
  using head_determines_log [OF sample_log_reachable(2,1)] reversed_preimage
  by (simp add: sample_log_def reversed_log_def log_head_def certificate_digest_def)

text \<open>A commitment is ordered at most once: in every run of accepted appends from a log, the commitments
  are pairwise different and none was in the log before, and an accepted one is refused for ever after.\<close>

lemma ordering_never_replays:
  assumes "log_accepts E policy keys l c l1" "chain.run E policy keys l1 cs l2"
  shows "distinct (c # cs) \<and> set (c # cs) \<inter> log_commitments l = {} \<and> \<not> log_accepts E policy keys l2 c l3"
proof -
  have "chain.run E policy keys l (c # cs) l2" by (rule chain.run_cons [OF assms])
  from chain.run_fresh [OF this TrueI] chain.no_replay [OF TrueI assms] show ?thesis by blast
qed

section \<open>Agreement at a concrete committee\<close>

text \<open>An environment in which only one statement is ever signed, so that the keys are honest.\<close>

definition one_statement :: Digest32 where
  "one_statement = vote_digest sample_crypto [65] 1 (OrderCommitment 9) 0 99"

definition strict_crypto :: crypto where
  "strict_crypto = sample_crypto
     \<lparr>hybrid_sign := (\<lambda>seed m. if m = to_be_bytes one_statement then Some (replicate 3373 (ucast seed)) else None),
      hybrid_verify := (\<lambda>p m s. take 1 p = take 1 s \<and> m = to_be_bytes one_statement)\<rparr>"

definition strict_certificate :: OrderCertificate where
  "strict_certificate = certificate_for strict_crypto (sample_committee strict_crypto) [65] (OrderCommitment 9) 99"

lemma strict_crypto_correct: "hybrid_correct strict_crypto"
  using sample_crypto_correct by (simp add: hybrid_correct_def strict_crypto_def sample_crypto_def)

lemma strict_statement: "statement_of strict_crypto strict_certificate = one_statement"
  unfolding statement_of_def strict_certificate_def certificate_for_fields sample_committee_log one_statement_def
    vote_digest_def by (simp add: strict_crypto_def)

lemma strict_signs: "\<exists>s. try_sign strict_crypto k (to_be_bytes one_statement) = Inr s"
  by (simp add: try_sign_def strict_crypto_def)

lemma strict_certificate_verifies:
  "OrderCertificate_verify strict_crypto strict_certificate seven_node (oc_keys (sample_committee strict_crypto)) 50 = Inr ()"
  using strict_signs unfolding strict_statement [symmetric]
  unfolding strict_certificate_def
  by (intro certificate_for_verifies [OF strict_crypto_correct _ committee_ok_demo [OF sample_committee_demo]])
     (auto simp: sample_committee_log statement_malformed_def)

lemma strict_cast_votes:
  "\<exists>v. cast_votes strict_crypto (demo_node i) [sample_request] = [(sample_request, v)] \<and> statement_digest v = one_statement"
proof -
  have d: "vote_digest strict_crypto [65] 1 (OrderCommitment 9) 0 99 = one_statement"
    by (simp add: one_statement_def vote_digest_def strict_crypto_def)
  obtain s where "try_sign strict_crypto (on_key (demo_node i)) (to_be_bytes one_statement) = Inr s"
    using strict_signs by blast
  then show ?thesis
    by (simp add: sample_request_def vote_def statement_malformed_def d Let_def btree_get_def
        demo_node_def [THEN arg_cong, of voted])
qed

lemma strict_keys_honest:
  "keys_honest strict_crypto (oc_keys (sample_committee strict_crypto)) {} demo_node (\<lambda>i. [sample_request])"
  unfolding keys_honest_def
proof (intro allI impI)
  fix i key and d :: Digest32 and bs
  assume "signature_ok strict_crypto key (to_be_bytes d) bs"
  moreover have "length (suite_encode strict_crypto) = 4" using strict_crypto_correct by (simp add: hybrid_correct_def)
  ultimately obtain public body where "hybrid_verify strict_crypto public (to_be_bytes d) body"
    by (auto simp: signature_ok_iff)
  then have "d = one_statement" by (simp add: strict_crypto_def)
  with strict_cast_votes [of i]
  show "d \<in> statement_digest ` snd ` set (cast_votes strict_crypto (demo_node i) [sample_request])" by force
qed



end
