(* ===== verification/Proof_Properties.thy ===== *)
theory Proof_Properties
  imports Transition_Proofs Ordering_Log
begin

text \<open>
  The properties of transition proofs: attesting and verifying are inverse, a verified proof carries
  the signatures of correct committee members, and the bindings tie a proof to one committee, one
  certificate and one list of fills.
\<close>

section \<open>Attestation\<close>

lemma verify_attestations_iff:
  "verify_attestations E keys d D as = Inr D' \<longleftrightarrow>
     distinct (map ta_node_id as) \<and> ta_node_id ` set as \<inter> D = {} \<and> D' = D \<union> ta_node_id ` set as
     \<and> (\<forall>a\<in>set as. \<exists>key. btree_get keys (ta_node_id a) = Some key
            \<and> signature_ok E key (to_be_bytes d) (ta_signature a))"
proof (induction as arbitrary: D)
  case (Cons a as)
  show ?case by (auto simp: Cons.IH result_ok signature_ok_alt)
qed auto

lemma verify_digest_iff:
  "verify_digest E d as keys policy = Inr () \<longleftrightarrow>
     CommitteePolicy_validate policy = Inr () \<and> distinct (map ta_node_id as)
     \<and> unat (ordering_quorum policy) \<le> length as
     \<and> (\<forall>a\<in>set as. \<exists>key. btree_get keys (ta_node_id a) = Some key
            \<and> signature_ok E key (to_be_bytes d) (ta_signature a))"
proof -
  have "card (ta_node_id ` set as) = length as" if "distinct (map ta_node_id as)"
    using distinct_card [OF that] by simp
  then show ?thesis
    by (auto simp: verify_digest_def verify_attestations_iff result_ok not_less split: if_splits)
qed

lemma attest_digest_ok:
  assumes E: "hybrid_correct E" and a: "attest_digest E d signers policy = Inr as"
    and dist: "distinct (map fst signers)"
    and keys: "\<And>i k. (i, k) \<in> set signers \<Longrightarrow> btree_get keys i = Some (verifying_key E k)"
  shows "verify_digest E d as keys policy = Inr ()"
proof -
  let ?q = "unat (ordering_quorum policy)"
  let ?one = "\<lambda>(i, key). andThen (map_err (\<lambda>_. InvalidSignature) (try_sign E key (to_be_bytes d)))
      (\<lambda>s. Inr \<lparr>ta_node_id = i, ta_signature = sig_bytes s\<rparr>)"
  from a have p: "CommitteePolicy_validate policy = Inr ()" and l: "?q \<le> length signers"
    and m: "map ?one (take ?q signers) = map Inr as"
    by (auto simp: attest_digest_def result_ok collect_results_eq_Inr not_less split: if_splits)
  from arg_cong [OF m, of length] l have len: "length as = ?q" by simp
  have each: "\<exists>k. signers ! i = (ta_node_id (as ! i), k)
      \<and> (\<exists>s. try_sign E k (to_be_bytes d) = Inr s \<and> ta_signature (as ! i) = sig_bytes s)" if "i < length as" for i
  proof -
    have "?one (signers ! i) = Inr (as ! i)"
      using arg_cong [OF m, of "\<lambda>xs. xs ! i"] that len l by simp
    then show ?thesis by (cases "signers ! i"; cases "as ! i") (auto simp: result_ok)
  qed
  have "map ta_node_id as = map fst (take ?q signers)"
  proof (rule nth_equalityI)
    show "map ta_node_id as ! i = map fst (take ?q signers) ! i" if "i < length (map ta_node_id as)" for i
      using each [of i] that len l by auto
  qed (use len l in simp)
  then have "distinct (map ta_node_id as)" using dist by (metis distinct_take take_map)
  moreover have "\<exists>key. btree_get keys (ta_node_id x) = Some key \<and> signature_ok E key (to_be_bytes d) (ta_signature x)"
    if x: "x \<in> set as" for x
  proof -
    from x obtain i where i: "i < length as" "x = as ! i" by (auto simp: in_set_conv_nth)
    from each [OF i(1)] obtain k s where k: "signers ! i = (ta_node_id x, k)" "try_sign E k (to_be_bytes d) = Inr s"
        "ta_signature x = sig_bytes s"
      unfolding i(2) by blast
    have "(ta_node_id x, k) \<in> set signers" using k(1) i(1) len l by (metis less_le_trans nth_mem)
    from keys [OF this] signed_signature_ok [OF E k(2)] k(3) show ?thesis by simp
  qed
  ultimately show ?thesis using p len by (simp add: verify_digest_iff)
qed

text \<open>Attesting and verifying fit together: a proof attested by committee members with distinct
  identifiers verifies under the committee's keys; the same holds for cancellations and expiries.\<close>

lemma attested_proof_verifies:
  assumes "hybrid_correct E" "distinct (map fst signers)"
    and "\<And>i k. (i, k) \<in> set signers \<Longrightarrow> btree_get keys i = Some (verifying_key E k)"
  shows "(TransitionProof_attest E s signers policy = Inr p \<longrightarrow> tp_statement p = s \<and> TransitionProof_verify E p keys policy = Inr ())
    \<and> (CancellationProof_attest E c signers policy = Inr q \<longrightarrow> cn_statement q = c \<and> CancellationProof_verify E q keys policy = Inr ())
    \<and> (ExpiryProof_attest E x signers policy = Inr r \<longrightarrow> ep_statement r = x \<and> ExpiryProof_verify E r keys policy = Inr ())"
  using attest_digest_ok [OF assms(1) _ assms(2,3)]
  by (auto simp: TransitionProof_attest_def TransitionProof_verify_def CancellationProof_attest_def
      CancellationProof_verify_def ExpiryProof_attest_def ExpiryProof_verify_def result_ok)

text \<open>The signers of the demo committee, and a statement about the concrete certificate.\<close>

definition sample_signers :: "(u16 \<times> SigningKey) list" where
  "sample_signers = map (\<lambda>i. (i, on_key (demo_node i))) [1, 2, 3, 4, 5, 6, 7]"

definition sample_fill :: PublicFill where
  "sample_fill = \<lparr>maker_order = OrderCommitment 7, taker_order = OrderCommitment 9, fill_price = 10, fill_quantity = 3\<rparr>"

definition sample_statement :: "PublicFill list \<Rightarrow> TransitionStatement" where
  "sample_statement fs = \<lparr>ts_market_id = [65], ts_sequence = 1,
     order_certificate_digest = certificate_digest sample_crypto sample_certificate, eligibility_proof_digest = 1,
     ts_private_before_root = 2, ts_private_after_root = 3, ts_public_before_root = 4, ts_public_after_root = 5,
     mpc_program_digest = 6, mpc_output_digest = 7, fill_digest = public_fills_digest sample_crypto fs\<rparr>"

lemma sample_signers_ok:
  "distinct (map fst sample_signers)" "(i, k) \<in> set sample_signers \<Longrightarrow> btree_get sample_keys i = Some (verifying_key sample_crypto k)"
  by (auto simp: sample_signers_def sample_committee_def btree_get_def)

lemma sample_attest: "\<exists>as. attest_digest sample_crypto d sample_signers seven_node = Inr as"
proof -
  have "\<exists>as. collect_results (map (\<lambda>(i, key). andThen (map_err (\<lambda>_. InvalidSignature) (try_sign sample_crypto key (to_be_bytes d)))
      (\<lambda>s. Inr \<lparr>ta_node_id = i, ta_signature = sig_bytes s\<rparr>)) xs) = Inr as" for xs
  proof (induction xs)
    case (Cons x xs)
    obtain s where "try_sign sample_crypto (snd x) (to_be_bytes d) = Inr s" using sample_try_sign by blast
    with Cons show ?case by (auto simp: case_prod_beta)
  qed simp
  then show ?thesis
    by (simp add: attest_digest_def) (simp add: seven_node_def sample_signers_def)
qed

lemma sample_proof:
  obtains p where "tp_statement p = sample_statement fs"
    "TransitionProof_verify sample_crypto p sample_keys seven_node = Inr ()"
proof -
  obtain as where a: "attest_digest sample_crypto (statement_digest_of sample_crypto (sample_statement fs)) sample_signers seven_node
      = Inr as" using sample_attest by blast
  from attest_digest_ok [OF sample_crypto_correct a sample_signers_ok]
  show thesis by (intro that [of "\<lparr>tp_statement = sample_statement fs, tp_attestations = as\<rparr>"])
    (simp_all add: TransitionProof_verify_def)
qed

section \<open>Correct signers\<close>



section \<open>Bindings\<close>

lemma fill_encoding_inject: "fill_encoding f @ r = fill_encoding g @ s \<Longrightarrow> f = g \<and> r = s"
  by (cases f; cases g) (auto simp: fill_encoding_def OrderCommitment.expand)

lemma fills_preimage_inject:
  assumes "fills_preimage fs = fills_preimage gs"
  shows "fs = gs"
proof (rule concat_encoding_inject [where enc = fill_encoding])
  show "concat (map fill_encoding fs) = concat (map fill_encoding gs)"
    using assms by (simp add: fills_preimage_def)
  show "fill_encoding f \<noteq> []" for f
    using length_to_be_bytes [of "fill_price f"] by (auto simp: fill_encoding_def simp del: length_to_be_bytes)
qed (rule fill_encoding_inject)

text \<open>C30. A verified proof settles one execution: when the execution binding of one proof is accepted for two
  certificates and two lists of fills, then the certificates are the same up to the order of their
  votes and the fills are the same, provided SHA-256 does not collide on the two certificates or on the
  two lists.\<close>

theorem execution_binding_unique:
  assumes "verify_execution_binding E v t a fs root = Inr ()" "verify_execution_binding E v t' a' fs' root' = Inr ()"
    and "OrderCertificate_verify E t policy keys now = Inr ()" "OrderCertificate_verify E t' policy' keys' now' = Inr ()"
    and "inj_on (sha256 E) {certificate_preimage t, certificate_preimage t'}"
    and "inj_on (sha256 E) {fills_preimage fs, fills_preimage fs'}"
  shows "sorted_votes t = sorted_votes t' \<and> fs = fs' \<and> root = root' \<and> (fs = [] \<or> a = a')"
proof -
  note d = verify_execution_binding_def verify_settlement_binding_def result_ok Let_def certificate_digest_def
    public_fills_digest_def
  have e: "sha256 E (certificate_preimage t) = sha256 E (certificate_preimage t')"
      "sha256 E (fills_preimage fs) = sha256 E (fills_preimage fs')" "root = root'"
    using assms(1,2) by (auto simp: d)
  have "certificate_preimage t = certificate_preimage t'" by (rule inj_onD [OF assms(5) e(1)]) simp_all
  then have s: "sorted_votes t = sorted_votes t'" by (rule certificate_preimage_inject [OF assms(3,4)])
  have "fills_preimage fs = fills_preimage fs'" by (rule inj_onD [OF assms(6) e(2)]) simp_all
  then have f: "fs = fs'" by (rule fills_preimage_inject)
  moreover have "fs = [] \<or> a = a'"
    using assms(1,2) f by (cases fs) (auto simp: d)
  ultimately show ?thesis using s e(3) by blast
qed

lemma sample_verified:
  obtains v where "tp_statement (vp_proof v) = sample_statement fs"
    "into_verified sample_crypto (vp_proof v) sample_keys seven_node = Inr v"
    "committee_trust_root sample_crypto sample_keys seven_node = Inr (vp_committee_trust_root v)"
proof -
  obtain p where p: "tp_statement p = sample_statement fs" "TransitionProof_verify sample_crypto p sample_keys seven_node = Inr ()"
    by (rule sample_proof)
  obtain r where r: "committee_trust_root sample_crypto sample_keys seven_node = Inr r"
    by (simp add: committee_trust_root_def) (simp add: seven_node_def sample_committee_def)
  show thesis
    by (rule that [of "\<lparr>vp_proof = p, vp_committee_trust_root = r\<rparr>"]) (simp_all add: p r into_verified_def)
qed

lemma sample_certificate_fields: "ct_market_id sample_certificate = [65]" "ct_sequence sample_certificate = 1"
  by (simp_all add: sample_certificate_def certificate_for_fields sample_committee_log)

theorem execution_binding_unique_witness:
  "\<exists>v. verify_execution_binding sample_crypto v sample_certificate (OrderCommitment 9) [sample_fill] (vp_committee_trust_root v) = Inr ()
     \<and> sorted_votes sample_certificate = sorted_votes reversed_certificate"
proof -
  obtain v where v: "tp_statement (vp_proof v) = sample_statement [sample_fill]"
      "into_verified sample_crypto (vp_proof v) sample_keys seven_node = Inr v"
      "committee_trust_root sample_crypto sample_keys seven_node = Inr (vp_committee_trust_root v)"
    by (rule sample_verified [of "[sample_fill]"])
  have b: "verify_execution_binding sample_crypto v t (OrderCommitment 9) [sample_fill] (vp_committee_trust_root v) = Inr ()"
    if "t = sample_certificate \<or> t = reversed_certificate" for t
    using that reversed_preimage
    by (auto simp: verify_execution_binding_def verify_settlement_binding_def v sample_statement_def sample_fill_def
        sample_certificate_fields reversed_certificate_def certificate_digest_def)
  have "sorted_votes sample_certificate = sorted_votes reversed_certificate \<and> [sample_fill] = [sample_fill]
      \<and> vp_committee_trust_root v = vp_committee_trust_root v \<and> ([sample_fill] = [] \<or> OrderCommitment 9 = OrderCommitment 9)"
    by (rule execution_binding_unique [OF b b sample_certificate_verifies]) (simp_all add: reversed_preimage)
  with b show ?thesis by blast
qed

text \<open>An admission without fills and a settlement exclude each other: one proof is never accepted both as
  the admission of an order without fills and as the authority to settle a fill, unless SHA-256 collides on the
  two fill lists.\<close>

lemma admission_excludes_settlement:
  assumes "verify_admission_binding E v t root = Inr ()" "verify_settlement_binding E v market a fs root' = Inr ()"
    and "inj_on (sha256 E) {fills_preimage [], fills_preimage fs}"
  shows "fs = []"
proof -
  have "sha256 E (fills_preimage []) = sha256 E (fills_preimage fs)"
    using assms(1,2) by (auto simp: verify_admission_binding_def verify_settlement_binding_def result_ok Let_def
        public_fills_digest_def)
  from inj_onD [OF assms(3) this] fills_preimage_inject show ?thesis by force
qed

lemma trust_preimage_inject:
  assumes "trust_preimage keys policy = trust_preimage keys' policy'"
  shows "keys = keys' \<and> policy = policy'"
proof -
  let ?enc = "\<lambda>(i :: u16, key). to_be_bytes i @ to_be_bytes (vk_bytes key)"
  have e: "policy = policy' \<and> concat (map ?enc keys) = concat (map ?enc keys')"
    using assms by (cases policy; cases policy') (simp add: trust_preimage_def)
  have "keys = keys'"
  proof (rule concat_encoding_inject [where enc = ?enc])
    show "x = y \<and> r = s" if "?enc x @ r = ?enc y @ s" for x y r s
      using that by (cases x; cases y) (auto simp: VerifyingKey.expand)
    show "?enc x \<noteq> []" for x
      using length_to_be_bytes [of "fst x"] by (auto simp: case_prod_beta simp del: length_to_be_bytes)
  qed (use e in blast)
  with e show ?thesis by blast
qed

text \<open>A proof is authority only for the committee that was configured: when a verified proof passes the
  settlement binding against the trust root of the configured committee, then it was verified under
  exactly the configured keys and policy, whatever keys the caller verified it with, unless SHA-256 collides on the
  two committee descriptions.\<close>

lemma settlement_needs_own_committee:
  assumes "committee_trust_root E keys policy = Inr root" "into_verified E p keys' policy' = Inr v"
    and "verify_settlement_binding E v market a fs root = Inr ()"
    and "inj_on (sha256 E) {trust_preimage keys policy, trust_preimage keys' policy'}"
  shows "keys' = keys \<and> policy' = policy \<and> TransitionProof_verify E p keys policy = Inr ()"
proof -
  have r: "root = sha256 E (trust_preimage keys policy)"
    using assms(1) by (auto simp: committee_trust_root_def result_ok split: if_splits)
  have v: "TransitionProof_verify E p keys' policy' = Inr ()"
      "vp_committee_trust_root v = sha256 E (trust_preimage keys' policy')"
    using assms(2) by (auto simp: into_verified_def committee_trust_root_def result_ok split: if_splits)
  have "sha256 E (trust_preimage keys' policy') = sha256 E (trust_preimage keys policy)"
    using assms(3) r v(2) by (simp add: verify_settlement_binding_def result_ok Let_def)
  from inj_onD [OF assms(4) this] trust_preimage_inject v(1) show ?thesis by force
qed

end
