(* ===== verification/Optimistic.thy ===== *)
theory Optimistic
  imports Proof_Properties
begin

text \<open>
  The optimistic assurance mode, \<open>oclob-proofs/src/optimistic.rs\<close>: the challenge verifier built from the
  canonical committee registry, the finalized optimistic transition, and the authorization trait both
  assurance modes implement. The JSON codec, the identifier of a proposal and the canonical claim state
  belong to other packages: they are the record \<open>optimistic_host\<close>, an argument of the definitions that
  call them.
\<close>

section \<open>Data\<close>

definition ProofError_to_string :: "ProofError \<Rightarrow> string" where
  "ProofError_to_string e = (case e of
     StatementMismatch \<Rightarrow> ''the ordered input, MPC receipt and book transition disagree''
   | TooFewAttestations \<Rightarrow> ''the transition proof has fewer than five independent attestations''
   | InvalidSignature \<Rightarrow> ''the transition proof contains an invalid or duplicate signature''
   | InvalidCommittee \<Rightarrow> ''the committee profile is not the frozen OCLOB profile'')"

text \<open>Of the shared protocol's types, the fields the adapter reads; \<open>rest\<close> stands for the others.\<close>

record ExecutionContext =
  ec_verifier :: Digest32
  ec_input_root :: Digest32
  ec_rest :: "u8 list"

record OptimisticSettlementReference =
  or_claim :: Digest32
  or_context :: ExecutionContext
  or_output_root :: Digest32
  or_public_output :: "u8 list"

record Proposal =
  pr_context :: ExecutionContext
  pr_output_root :: Digest32
  pr_rest :: "u8 list"

record Claim =
  cl_policy_verifier :: Digest32
  cl_proposal :: Proposal

record optimistic_host =
  statement_to_vec :: "TransitionStatement \<Rightarrow> string + u8 list"
  statement_from_slice :: "u8 list \<Rightarrow> string + TransitionStatement"
  proof_from_slice :: "u8 list \<Rightarrow> string + TransitionProof"
  proposal_id :: "Proposal \<Rightarrow> string + Digest32"
  require_finalized :: "Digest32 \<Rightarrow> ExecutionContext \<Rightarrow> Digest32 \<Rightarrow> string + Claim"

record TransitionChallengeVerifier =
  tv_keys :: "(u16, VerifyingKey) btree"
  tv_policy :: CommitteePolicy
  tv_identity :: Digest32
  tv_trust_root :: Digest32

record FinalizedOptimisticTransition =
  fo_statement :: TransitionStatement
  fo_trust_root :: Digest32
  fo_reference :: OptimisticSettlementReference

section \<open>The challenge verifier\<close>

definition TransitionChallengeVerifier_new ::
  "crypto \<Rightarrow> (u16, VerifyingKey) btree \<Rightarrow> CommitteePolicy \<Rightarrow> string + TransitionChallengeVerifier" where
  "TransitionChallengeVerifier_new E keys policy =
     andThen (map_err ProofError_to_string (committee_trust_root E keys policy)) (\<lambda>root.
     Inr \<lparr>tv_keys = keys, tv_policy = policy,
          tv_identity = sha256 E (bytes_of ''OCLOB:optimistic:transition-verifier:v1'' @ to_be_bytes root),
          tv_trust_root = root\<rparr>)"

text \<open>The input-only binding: no root or digest of the output enters.\<close>

definition input_preimage :: "TransitionStatement \<Rightarrow> u8 list" where
  "input_preimage s = bytes_of ''OCLOB:optimistic:transition-input:v1'' @ put_bytes (ts_market_id s)
     @ to_be_bytes (ts_sequence s) @ to_be_bytes (order_certificate_digest s)
     @ to_be_bytes (eligibility_proof_digest s) @ to_be_bytes (ts_private_before_root s)
     @ to_be_bytes (ts_public_before_root s) @ to_be_bytes (mpc_program_digest s)"

definition transition_input_root :: "crypto \<Rightarrow> TransitionStatement \<Rightarrow> Digest32" where
  "transition_input_root E s = sha256 E (input_preimage s)"

definition challenge_verify ::
  "crypto \<Rightarrow> optimistic_host \<Rightarrow> TransitionChallengeVerifier \<Rightarrow> ExecutionContext \<Rightarrow> u8 list \<Rightarrow> string + Digest32" where
  "challenge_verify E H v context bytes =
     (if 1024 * 1024 < length bytes then Inl ''OCLOB challenge proof exceeds its bound''
      else andThen (proof_from_slice H bytes) (\<lambda>p.
           if ec_verifier context \<noteq> tv_identity v
              \<or> transition_input_root E (tp_statement p) \<noteq> ec_input_root context
           then Inl ''OCLOB challenge names another canonical input or committee''
           else andThen (map_err ProofError_to_string (TransitionProof_verify E p (tv_keys v) (tv_policy v))) (\<lambda>_.
                Inr (statement_digest_of E (tp_statement p)))))"

definition verify_settlement_reference ::
  "crypto \<Rightarrow> optimistic_host \<Rightarrow> TransitionChallengeVerifier \<Rightarrow> OptimisticSettlementReference \<Rightarrow> Digest32 \<Rightarrow>
   string + unit" where
  "verify_settlement_reference E H v reference mpc_result =
     (if 1024 * 1024 < length (or_public_output reference) then Inl ''OCLOB public output exceeds its bound''
      else andThen (statement_from_slice H (or_public_output reference)) (\<lambda>s.
           fail_if (ec_verifier (or_context reference) \<noteq> tv_identity v
             \<or> ec_input_root (or_context reference) \<noteq> transition_input_root E s
             \<or> or_output_root reference \<noteq> statement_digest_of E s \<or> mpc_result \<noteq> mpc_output_digest s)
             ''OCLOB settlement differs from the finalized input or public output''))"

definition require_finalized_transition ::
  "crypto \<Rightarrow> optimistic_host \<Rightarrow> Digest32 \<Rightarrow> ExecutionContext \<Rightarrow> TransitionStatement \<Rightarrow>
   TransitionChallengeVerifier \<Rightarrow> string + Claim" where
  "require_finalized_transition E H claim context s v =
     (if ec_verifier context \<noteq> tv_identity v \<or> ec_input_root context \<noteq> transition_input_root E s
      then Inl ''OCLOB finalized transition has another input or verifier''
      else require_finalized H claim context (statement_digest_of E s))"

section \<open>The finalized transition\<close>

definition from_canonical ::
  "crypto \<Rightarrow> optimistic_host \<Rightarrow> Claim \<Rightarrow> TransitionStatement \<Rightarrow> TransitionChallengeVerifier \<Rightarrow>
   string + FinalizedOptimisticTransition" where
  "from_canonical E H claim s v =
     (if cl_policy_verifier claim \<noteq> tv_identity v
         \<or> ec_input_root (pr_context (cl_proposal claim)) \<noteq> transition_input_root E s
         \<or> pr_output_root (cl_proposal claim) \<noteq> statement_digest_of E s
      then Inl ''OCLOB canonical finality belongs to another transition''
      else andThen (proposal_id H (cl_proposal claim)) (\<lambda>i.
           andThen (statement_to_vec H s) (\<lambda>bytes.
           Inr \<lparr>fo_statement = s, fo_trust_root = tv_trust_root v,
                fo_reference = \<lparr>or_claim = i, or_context = pr_context (cl_proposal claim),
                  or_output_root = pr_output_root (cl_proposal claim), or_public_output = bytes\<rparr>\<rparr>)))"

section \<open>Authorization in either mode\<close>

datatype TransitionAuthorization =
    JointProof VerifiedTransitionProof
  | OptimisticFinality FinalizedOptimisticTransition

fun auth_statement :: "TransitionAuthorization \<Rightarrow> TransitionStatement" where
  "auth_statement (JointProof v) = tp_statement (vp_proof v)"
| "auth_statement (OptimisticFinality f) = fo_statement f"

fun auth_trust_root :: "TransitionAuthorization \<Rightarrow> Digest32" where
  "auth_trust_root (JointProof v) = vp_committee_trust_root v"
| "auth_trust_root (OptimisticFinality f) = fo_trust_root f"

fun auth_reference :: "TransitionAuthorization \<Rightarrow> OptimisticSettlementReference option" where
  "auth_reference (JointProof v) = None"
| "auth_reference (OptimisticFinality f) = Some (fo_reference f)"

definition auth_digest :: "crypto \<Rightarrow> TransitionAuthorization \<Rightarrow> Digest32" where
  "auth_digest E a = statement_digest_of E (auth_statement a)"

definition auth_admission_binding ::
  "crypto \<Rightarrow> TransitionAuthorization \<Rightarrow> OrderCertificate \<Rightarrow> Digest32 \<Rightarrow> ProofError + unit" where
  "auth_admission_binding E a t expected =
     (let s = auth_statement a in
      fail_if (auth_trust_root a \<noteq> expected \<or> ts_market_id s \<noteq> ct_market_id t
        \<or> ts_sequence s \<noteq> ct_sequence t \<or> order_certificate_digest s \<noteq> certificate_digest E t
        \<or> fill_digest s \<noteq> public_fills_digest E []) StatementMismatch)"

definition auth_settlement_binding ::
  "crypto \<Rightarrow> TransitionAuthorization \<Rightarrow> rust_str \<Rightarrow> OrderCommitment \<Rightarrow> PublicFill list \<Rightarrow> Digest32 \<Rightarrow>
   ProofError + unit" where
  "auth_settlement_binding E a market arriving fills expected =
     (let s = auth_statement a in
      fail_if (auth_trust_root a \<noteq> expected \<or> ts_market_id s \<noteq> market
        \<or> fill_digest s \<noteq> public_fills_digest E fills
        \<or> list_ex (\<lambda>f. taker_order f \<noteq> arriving) fills) StatementMismatch)"

definition auth_execution_binding ::
  "crypto \<Rightarrow> TransitionAuthorization \<Rightarrow> OrderCertificate \<Rightarrow> OrderCommitment \<Rightarrow> PublicFill list \<Rightarrow> Digest32 \<Rightarrow>
   ProofError + unit" where
  "auth_execution_binding E a t arriving fills expected =
     andThen (auth_settlement_binding E a (ct_market_id t) arriving fills expected) (\<lambda>_.
     fail_if (ts_sequence (auth_statement a) \<noteq> ct_sequence t
       \<or> order_certificate_digest (auth_statement a) \<noteq> certificate_digest E t) StatementMismatch)"

text \<open>On a joint proof the trait's rules are those of the inherent methods.\<close>

lemma auth_bindings_joint:
  "auth_admission_binding E (JointProof v) t expected = verify_admission_binding E v t expected"
  "auth_settlement_binding E (JointProof v) market arriving fills expected =
     verify_settlement_binding E v market arriving fills expected"
  "auth_execution_binding E (JointProof v) t arriving fills expected =
     verify_execution_binding E v t arriving fills expected"
  by (simp_all add: auth_admission_binding_def verify_admission_binding_def auth_settlement_binding_def
      verify_settlement_binding_def auth_execution_binding_def verify_execution_binding_def Let_def)

end
