(* ===== verification/Reservations.thy ===== *)
theory Reservations
  imports Optimistic
begin

text \<open>
  The canonical reservation ledger of \<open>oclob-settlement/src/lib.rs\<close>: \<open>ReservationBook\<close> with the
  participant bindings, the entity-wide capacities and one record per admitted order. A Ristretto
  point is its canonical 32-byte encoding (equal points have equal encodings, and the encoding of
  the identity is zero); the group operations are parameters where they are used. An \<open>expect\<close> that
  would abort the process is the error \<open>Panic\<close>.
\<close>

section \<open>Data\<close>

type_synonym RistrettoPoint = "256 word"

datatype SettlementError =
    InvalidFill
  | Cryptography string
  | Proof string
  | ReplayAccepted
  | Insolvent
  | CanonicalDivergence
  | Finality string
  | Reservation string
  | Panic string

datatype ReservationKind = Cash | Securities

datatype ReservationStatus = Active | Consumed | Released

text \<open>The values an order shows to settlement through the trait \<open>SettlementOrderView\<close>.\<close>

record SettlementOrderView =
  settlement_market_id :: rust_str
  settlement_side :: Side
  settlement_limit_price :: u64
  settlement_quantity :: u64
  settlement_time_in_force :: TimeInForce
  settlement_expires_at :: u64
  settlement_participant_handle :: Digest32
  settlement_dekyx_nullifier :: Digest32
  settlement_reservation_id :: Digest32
  settlement_reservation_limit :: u64
  settlement_max_fee :: u64
  settlement_commitment :: OrderCommitment

text \<open>The view of a secret order under a commitment: its own, or the manifest commitment of the
  verified capability that carries it.\<close>

definition order_view :: "SecretOrder \<Rightarrow> OrderCommitment \<Rightarrow> SettlementOrderView" where
  "order_view o1 c =
     \<lparr>settlement_market_id = market_id o1, settlement_side = side o1,
      settlement_limit_price = limit_price o1, settlement_quantity = quantity o1,
      settlement_time_in_force = time_in_force o1, settlement_expires_at = expires_at o1,
      settlement_participant_handle = participant_handle o1,
      settlement_dekyx_nullifier = dekyx_nullifier o1, settlement_reservation_id = reservation_id o1,
      settlement_reservation_limit = reservation_limit o1, settlement_max_fee = max_fee o1,
      settlement_commitment = c\<rparr>"

definition secret_order_view :: "crypto \<Rightarrow> SecretOrder \<Rightarrow> SettlementOrderView" where
  "secret_order_view E o1 = order_view o1 (commitment E o1)"

record VerifiedSettlementCapability =
  vc_order :: SecretOrder
  vc_order_commitment :: OrderCommitment

definition capability_view :: "VerifiedSettlementCapability \<Rightarrow> SettlementOrderView" where
  "capability_view v = order_view (vc_order v) (vc_order_commitment v)"

record ReservationRecord =
  rr_reservation_id :: Digest32
  rr_order_commitment :: Digest32
  rr_participant_handle :: Digest32
  rr_entity_nullifier :: Digest32
  rr_market_id :: rust_str
  rr_kind :: ReservationKind
  rr_limit_price :: u64
  rr_time_in_force :: TimeInForce
  rr_original_quantity :: u64
  rr_remaining_quantity :: u64
  rr_max_fee :: u64
  rr_expires_at :: u64
  rr_reserved :: u64
  rr_remaining :: u64
  rr_reserve_commitment :: RistrettoPoint
  rr_status :: ReservationStatus

record ReservationBook =
  capacities :: "(Digest32 \<times> u8, u64) btree"
  participant_entities :: "(Digest32, Digest32) btree"
  entity_participants :: "(Digest32, Digest32) btree"
  records :: "(Digest32, ReservationRecord) btree"

definition ReservationBook_default :: ReservationBook where
  "ReservationBook_default =
     \<lparr>capacities = [], participant_entities = [], entity_participants = [], records = []\<rparr>"

record ReservationReceipt =
  rc_reservation_id :: Digest32
  rc_order_commitment :: Digest32
  rc_kind :: ReservationKind
  rc_reserved :: u64
  rc_state_root :: Digest32
  rc_canonical_receipt_digest :: Digest32
  rc_canonical_height :: u64
  rc_zkpi_digest :: "Digest32 option"
  rc_instruction_nullifier :: "Digest32 option"
  rc_proof_digest :: "Digest32 option"
  rc_avalanche_transaction_id :: "rust_str option"
  rc_avalanche_block_id :: "rust_str option"

record ConsumedFill =
  maker_reservation_id :: Digest32
  taker_reservation_id :: Digest32
  maker_kind :: ReservationKind
  maker_reserve_commitment :: RistrettoPoint
  taker_reserve_commitment :: RistrettoPoint
  maker_remaining :: u64
  taker_remaining :: u64
  seller_handle :: Digest32
  buyer_handle :: Digest32

section \<open>Tags and the state root\<close>

definition reservation_kind_tag :: "ReservationKind \<Rightarrow> u8" where
  "reservation_kind_tag k = (case k of Cash \<Rightarrow> 1 | Securities \<Rightarrow> 2)"

definition time_in_force_tag :: "TimeInForce \<Rightarrow> u8" where
  "time_in_force_tag t = (case t of GoodTilCancelled \<Rightarrow> 1 | ImmediateOrCancel \<Rightarrow> 2)"

definition reservation_status_tag :: "ReservationStatus \<Rightarrow> u8" where
  "reservation_status_tag s = (case s of Active \<Rightarrow> 1 | Consumed \<Rightarrow> 2 | Released \<Rightarrow> 3)"

definition record_encoding :: "ReservationRecord \<Rightarrow> u8 list" where
  "record_encoding r = to_be_bytes (rr_reservation_id r) @ to_be_bytes (rr_order_commitment r)
     @ to_be_bytes (rr_participant_handle r) @ to_be_bytes (rr_entity_nullifier r)
     @ put_bytes (rr_market_id r) @ [reservation_kind_tag (rr_kind r)]
     @ to_be_bytes (rr_limit_price r) @ [time_in_force_tag (rr_time_in_force r)]
     @ to_be_bytes (rr_original_quantity r) @ to_be_bytes (rr_remaining_quantity r)
     @ to_be_bytes (rr_max_fee r) @ to_be_bytes (rr_expires_at r) @ to_be_bytes (rr_reserved r)
     @ to_be_bytes (rr_remaining r) @ to_be_bytes (rr_reserve_commitment r)
     @ [reservation_status_tag (rr_status r)]"

definition root_preimage :: "ReservationBook \<Rightarrow> u8 list" where
  "root_preimage b = bytes_of ''OCLOB:DEFMI-RESERVATIONS:v3''
     @ concat (map (\<lambda>((entity, kind), capacity). to_be_bytes entity @ [kind] @ to_be_bytes capacity) (capacities b))
     @ concat (map (\<lambda>(participant, entity). to_be_bytes participant @ to_be_bytes entity) (participant_entities b))
     @ concat (map (\<lambda>(_, r). record_encoding r) (records b))"

definition ReservationBook_root :: "crypto \<Rightarrow> ReservationBook \<Rightarrow> Digest32" where
  "ReservationBook_root E b = sha256 E (root_preimage b)"

section \<open>Bindings and capacities\<close>

definition bind_participant ::
  "ReservationBook \<Rightarrow> Digest32 \<Rightarrow> Digest32 \<Rightarrow> u64 \<Rightarrow> u64 \<Rightarrow> (SettlementError + unit) \<times> ReservationBook" where
  "bind_participant b participant entity cash securities =
     (if participant = 0 \<or> entity = 0
      then (Inl (Reservation ''participant and DeKYX entity identifiers are required''), b)
      else if (case btree_get (participant_entities b) participant of Some e \<Rightarrow> e \<noteq> entity | None \<Rightarrow> False)
         \<or> (case btree_get (entity_participants b) entity of Some p \<Rightarrow> p \<noteq> participant | None \<Rightarrow> False)
      then (Inl (Reservation ''one participant handle and one DeKYX entity must remain one-to-one''), b)
      else (Inr (), b\<lparr>participant_entities := btree_insert participant entity (participant_entities b),
                    entity_participants := btree_insert entity participant (entity_participants b),
                    capacities := btree_insert (entity, 2) securities
                      (btree_insert (entity, 1) cash (capacities b))\<rparr>))"

definition refresh_capacity ::
  "ReservationBook \<Rightarrow> Digest32 \<Rightarrow> u64 \<Rightarrow> u64 \<Rightarrow> (SettlementError + unit) \<times> ReservationBook" where
  "refresh_capacity b participant cash securities =
     guarded (ok_or (btree_get (participant_entities b) participant)
                (Reservation ''participant has no DeKYX binding'')) b (\<lambda>entity.
     (Inr (), b\<lparr>capacities := btree_insert (entity, 2) securities
                  (btree_insert (entity, 1) cash (capacities b))\<rparr>))"

definition reserved_for ::
  "ReservationBook \<Rightarrow> Digest32 \<Rightarrow> ReservationKind \<Rightarrow> SettlementError + u64" where
  "reserved_for b participant kind =
     ok_or (checked_sum (map rr_remaining (filter (\<lambda>r. rr_participant_handle r = participant
                \<and> rr_kind r = kind \<and> rr_status r = Active) (map snd (records b)))))
       (Reservation ''reservation sum overflowed'')"

section \<open>Reservation\<close>

definition side_kind :: "Side \<Rightarrow> ReservationKind" where
  "side_kind s = (case s of Buy \<Rightarrow> Cash | Sell \<Rightarrow> Securities)"

definition new_record :: "SettlementOrderView \<Rightarrow> RistrettoPoint \<Rightarrow> ReservationRecord" where
  "new_record v point =
     \<lparr>rr_reservation_id = settlement_reservation_id v,
      rr_order_commitment = commitment_bytes (settlement_commitment v),
      rr_participant_handle = settlement_participant_handle v,
      rr_entity_nullifier = settlement_dekyx_nullifier v, rr_market_id = settlement_market_id v,
      rr_kind = side_kind (settlement_side v), rr_limit_price = settlement_limit_price v,
      rr_time_in_force = settlement_time_in_force v, rr_original_quantity = settlement_quantity v,
      rr_remaining_quantity = settlement_quantity v, rr_max_fee = settlement_max_fee v,
      rr_expires_at = settlement_expires_at v, rr_reserved = settlement_reservation_limit v,
      rr_remaining = settlement_reservation_limit v, rr_reserve_commitment = point,
      rr_status = Active\<rparr>"

definition in_use :: "ReservationBook \<Rightarrow> Digest32 \<Rightarrow> ReservationKind \<Rightarrow> u64 option" where
  "in_use b entity kind = checked_sum (map rr_remaining (filter (\<lambda>r. rr_entity_nullifier r = entity
     \<and> rr_kind r = kind \<and> rr_status r = Active) (map snd (records b))))"

definition ReservationBook_reserve ::
  "crypto \<Rightarrow> ReservationBook \<Rightarrow> SettlementOrderView \<Rightarrow> RistrettoPoint \<Rightarrow>
   (SettlementError + ReservationReceipt) \<times> ReservationBook" where
  "ReservationBook_reserve E b v point =
     (let id = settlement_reservation_id v; c = commitment_bytes (settlement_commitment v);
          kind = side_kind (settlement_side v); limit = settlement_reservation_limit v in
      if point = 0 then (Inl (Reservation ''reservation commitment is the identity point''), b)
      else if btree_get (participant_entities b) (settlement_participant_handle v)
                \<noteq> Some (settlement_dekyx_nullifier v)
      then (Inl (Reservation ''order participant is not bound to the presented DeKYX entity''), b)
      else if btree_get (records b) id \<noteq> None
                \<or> list_ex (\<lambda>(_, r). rr_order_commitment r = c) (records b)
      then (Inl (Reservation ''reservation id or order commitment was already used''), b)
      else guarded (ok_or (btree_get (capacities b) (settlement_dekyx_nullifier v, reservation_kind_tag kind))
                     (Reservation ''entity has no canonical capacity'')) b (\<lambda>capacity.
           guarded (ok_or (in_use b (settlement_dekyx_nullifier v) kind)
                     (Reservation ''reservation sum overflowed'')) b (\<lambda>used.
           if (case checked_add used limit of None \<Rightarrow> True | Some t \<Rightarrow> capacity < t)
           then (Inl (Reservation ''the entity-wide cash, inventory, or guarantee capacity is exceeded''), b)
           else (let b' = b\<lparr>records := btree_insert id (new_record v point) (records b)\<rparr> in
             (Inr \<lparr>rc_reservation_id = id, rc_order_commitment = c, rc_kind = kind, rc_reserved = limit,
                rc_state_root = ReservationBook_root E b', rc_canonical_receipt_digest = 0,
                rc_canonical_height = 0, rc_zkpi_digest = None, rc_instruction_nullifier = None,
                rc_proof_digest = None, rc_avalanche_transaction_id = None,
                rc_avalanche_block_id = None\<rparr>, b')))))"

definition record_id_for :: "ReservationBook \<Rightarrow> Digest32 \<Rightarrow> Digest32 option" where
  "record_id_for b c =
     map_option rr_reservation_id (List.find (\<lambda>r. rr_order_commitment r = c) (map snd (records b)))"

definition validate_active_order :: "ReservationBook \<Rightarrow> SettlementOrderView \<Rightarrow> SettlementError + unit" where
  "validate_active_order b v =
     (let absent = Reservation ''reservation is absent''; c = commitment_bytes (settlement_commitment v) in
      andThen (ok_or (record_id_for b c) absent) (\<lambda>id.
      andThen (ok_or (btree_get (records b) id) absent) (\<lambda>r.
      fail_if (rr_reservation_id r \<noteq> settlement_reservation_id v \<or> rr_order_commitment r \<noteq> c
        \<or> rr_participant_handle r \<noteq> settlement_participant_handle v
        \<or> rr_entity_nullifier r \<noteq> settlement_dekyx_nullifier v
        \<or> rr_market_id r \<noteq> settlement_market_id v \<or> rr_kind r \<noteq> side_kind (settlement_side v)
        \<or> rr_limit_price r \<noteq> settlement_limit_price v
        \<or> rr_time_in_force r \<noteq> settlement_time_in_force v
        \<or> rr_original_quantity r \<noteq> settlement_quantity v
        \<or> rr_remaining_quantity r \<noteq> settlement_quantity v \<or> rr_max_fee r \<noteq> settlement_max_fee v
        \<or> rr_expires_at r \<noteq> settlement_expires_at v \<or> rr_reserved r \<noteq> settlement_reservation_limit v
        \<or> rr_remaining r \<noteq> settlement_reservation_limit v \<or> rr_status r \<noteq> Active)
        (Reservation ''reservation candidate does not match the admitted order''))))"

section \<open>Fills\<close>

text \<open>What an order must keep reserved for an unfilled quantity.\<close>

definition remaining_required :: "ReservationKind \<Rightarrow> u64 \<Rightarrow> u64 \<Rightarrow> u64 \<Rightarrow> u64 option" where
  "remaining_required kind price fee left =
     (if left = 0 then Some 0
      else case kind of
        Cash \<Rightarrow> Option.bind (checked_mul price left) (\<lambda>value. checked_add value fee)
      | Securities \<Rightarrow> Some left)"

definition consume_record :: "ReservationRecord \<Rightarrow> u64 \<Rightarrow> u64 \<Rightarrow> SettlementError + ReservationRecord" where
  "consume_record r spent filled =
     andThen (ok_or (checked_sub (rr_remaining r) spent)
                (Reservation ''reservation cannot cover the fill'')) (\<lambda>after.
     andThen (ok_or (checked_sub (rr_remaining_quantity r) filled)
                (Reservation ''fill exceeds the order remainder'')) (\<lambda>left.
     andThen (ok_or (remaining_required (rr_kind r) (rr_limit_price r) (rr_max_fee r) left)
                (Reservation ''remaining cash reservation overflowed'')) (\<lambda>required.
     if after < required
     then Inl (Reservation ''reservation no longer covers the committed order remainder'')
     else Inr (r\<lparr>rr_remaining_quantity := left, rr_remaining := required,
                 rr_status := (if left = 0 then Consumed else Active)\<rparr>))))"

definition respects_limit :: "u64 \<Rightarrow> ReservationRecord \<Rightarrow> bool" where
  "respects_limit price r =
     (case rr_kind r of Cash \<Rightarrow> price \<le> rr_limit_price r | Securities \<Rightarrow> rr_limit_price r \<le> price)"

definition fill_required :: "u64 \<Rightarrow> u64 \<Rightarrow> ReservationRecord \<Rightarrow> u64" where
  "fill_required cash qty r = (case rr_kind r of Cash \<Rightarrow> cash | Securities \<Rightarrow> qty)"

text \<open>The guards of \<open>consume_fill\<close> on the two records it has looked up.\<close>

definition fill_guard ::
  "PublicFill \<Rightarrow> rust_str \<Rightarrow> u64 \<Rightarrow> u64 \<Rightarrow> ReservationRecord \<Rightarrow> ReservationRecord \<Rightarrow> SettlementError + unit" where
  "fill_guard f market now cash maker taker =
     andThen (fail_if (rr_kind maker = rr_kind taker)
       (Reservation ''a fill must join one cash reservation and one inventory reservation'')) (\<lambda>_.
     andThen (fail_if (rr_market_id maker \<noteq> market \<or> rr_market_id taker \<noteq> market)
       (Reservation ''a fill cannot cross reservations from another market'')) (\<lambda>_.
     andThen (fail_if (rr_expires_at maker < now \<or> rr_expires_at taker < now)
       (Reservation ''an expired reservation cannot be filled'')) (\<lambda>_.
     andThen (fail_if (rr_remaining_quantity maker < fill_quantity f \<or> rr_remaining_quantity taker < fill_quantity f)
       (Reservation ''fill quantity exceeds an order remainder'')) (\<lambda>_.
     andThen (fail_if (\<not> respects_limit (fill_price f) maker \<or> \<not> respects_limit (fill_price f) taker)
       (Reservation ''fill price violates a committed order limit'')) (\<lambda>_.
     andThen (fail_if (rr_status maker \<noteq> Active \<or> rr_remaining maker < fill_required cash (fill_quantity f) maker)
       (Reservation ''maker reservation cannot cover the fill'')) (\<lambda>_.
     fail_if (rr_status taker \<noteq> Active \<or> rr_remaining taker < fill_required cash (fill_quantity f) taker)
       (Reservation ''taker reservation cannot cover the fill'')))))))"

definition set_record :: "ReservationBook \<Rightarrow> Digest32 \<Rightarrow> ReservationRecord \<Rightarrow> ReservationBook" where
  "set_record b i r = b\<lparr>records := btree_insert i r (records b)\<rparr>"

definition consume_fill ::
  "ReservationBook \<Rightarrow> PublicFill \<Rightarrow> rust_str \<Rightarrow> u64 \<Rightarrow> (SettlementError + ConsumedFill) \<times> ReservationBook" where
  "consume_fill b f market now =
     guarded (ok_or (checked_mul (fill_price f) (fill_quantity f)) (Reservation ''cash fill overflowed'')) b (\<lambda>cash.
     guarded (ok_or (record_id_for b (commitment_bytes (maker_order f)))
                (Reservation ''maker reservation is absent'')) b (\<lambda>maker_id.
     guarded (ok_or (record_id_for b (commitment_bytes (taker_order f)))
                (Reservation ''taker reservation is absent'')) b (\<lambda>taker_id.
     guarded (fail_if (maker_id = taker_id)
                (Reservation ''maker and taker cannot consume the same reservation'')) b (\<lambda>_.
     guarded (ok_or (btree_get (records b) maker_id) (Panic ''looked up maker'')) b (\<lambda>maker.
     guarded (ok_or (btree_get (records b) taker_id) (Panic ''looked up taker'')) b (\<lambda>taker.
     guarded (fill_guard f market now cash maker taker) b (\<lambda>_.
     guarded (consume_record maker (fill_required cash (fill_quantity f) maker) (fill_quantity f)) b (\<lambda>maker'.
     let b1 = set_record b maker_id maker' in
     guarded (ok_or (btree_get (records b1) taker_id) (Panic ''looked up taker'')) b1 (\<lambda>taker1.
     guarded (consume_record taker1 (fill_required cash (fill_quantity f) taker) (fill_quantity f)) b1 (\<lambda>taker'.
     (Inr \<lparr>maker_reservation_id = maker_id, taker_reservation_id = taker_id, maker_kind = rr_kind maker,
        maker_reserve_commitment = rr_reserve_commitment maker,
        taker_reserve_commitment = rr_reserve_commitment taker,
        maker_remaining = rr_remaining maker', taker_remaining = rr_remaining taker',
        seller_handle = (case rr_kind maker of Securities \<Rightarrow> rr_participant_handle maker
                         | Cash \<Rightarrow> rr_participant_handle taker),
        buyer_handle = (case rr_kind maker of Securities \<Rightarrow> rr_participant_handle taker
                        | Cash \<Rightarrow> rr_participant_handle maker)\<rparr>,
      set_record b1 taker_id taker')))))))))))"

definition apply_collaborative_remainders ::
  "ReservationBook \<Rightarrow> ConsumedFill \<Rightarrow> RistrettoPoint \<Rightarrow> RistrettoPoint \<Rightarrow> RistrettoPoint \<Rightarrow>
   (SettlementError + unit) \<times> ReservationBook" where
  "apply_collaborative_remainders b c securities_remainder cash_remainder maker_pool_remainder =
     (let taker_remainder = (case maker_kind c of Securities \<Rightarrow> cash_remainder | Cash \<Rightarrow> securities_remainder) in
      guarded (ok_or (btree_get (records b) (maker_reservation_id c))
                 (Reservation ''maker reservation disappeared'')) b (\<lambda>maker.
      let b1 = set_record b (maker_reservation_id c) (maker\<lparr>rr_reserve_commitment := maker_pool_remainder\<rparr>) in
      guarded (ok_or (btree_get (records b1) (taker_reservation_id c))
                 (Reservation ''taker reservation disappeared'')) b1 (\<lambda>taker.
      (Inr (), set_record b1 (taker_reservation_id c) (taker\<lparr>rr_reserve_commitment := taker_remainder\<rparr>)))))"

definition reconcile_arriving ::
  "ReservationBook \<Rightarrow> SettlementOrderView \<Rightarrow> u64 \<Rightarrow> (SettlementError + u64) \<times> ReservationBook" where
  "reconcile_arriving b v left =
     guarded (ok_or (record_id_for b (commitment_bytes (settlement_commitment v)))
                (Reservation ''taker reservation is absent'')) b (\<lambda>id.
     guarded (if left = 0 \<or> settlement_time_in_force v = ImmediateOrCancel then Inr 0
              else case settlement_side v of
                Buy \<Rightarrow> ok_or (Option.bind (checked_mul (settlement_limit_price v) left)
                           (\<lambda>value. checked_add value (settlement_max_fee v)))
                         (Reservation ''remaining cash reservation overflowed'')
              | Sell \<Rightarrow> Inr left) b (\<lambda>required.
     guarded (ok_or (btree_get (records b) id) (Panic ''looked up reservation'')) b (\<lambda>r.
     guarded (fail_if (left \<noteq> rr_remaining_quantity r)
                (Reservation ''reported arriving remainder differs from consumed fills'')) b (\<lambda>_.
     guarded (fail_if (rr_remaining r < required)
                (Reservation ''remaining order is not covered by its reservation'')) b (\<lambda>_.
     let unused = saturating_sub (rr_remaining r) required in
     (Inr required, set_record b id (r\<lparr>rr_remaining := required,
        rr_remaining_quantity := (if 0 < required then left else 0),
        rr_status := (if 0 < required then Active else if 0 < unused then Released else Consumed)\<rparr>)))))))"

definition reconcile_arriving_collaborative ::
  "ReservationBook \<Rightarrow> Digest32 \<Rightarrow> u64 \<Rightarrow> (SettlementError + u64) \<times> ReservationBook" where
  "reconcile_arriving_collaborative b c left =
     guarded (ok_or (record_id_for b c) (Reservation ''taker reservation is absent'')) b (\<lambda>id.
     guarded (ok_or (btree_get (records b) id) (Panic ''looked up reservation'')) b (\<lambda>r.
     guarded (fail_if (left \<noteq> rr_remaining_quantity r)
                (Reservation ''reported arriving remainder differs from consumed fills'')) b (\<lambda>_.
     if left = 0 \<or> rr_time_in_force r = ImmediateOrCancel
     then (Inr 0, set_record b id (r\<lparr>rr_remaining := 0, rr_remaining_quantity := 0,
             rr_status := (if left = 0 then Consumed else Released)\<rparr>))
     else (Inr (rr_remaining r), set_record b id (r\<lparr>rr_status := Active\<rparr>)))))"

definition ReservationBook_release_order ::
  "ReservationBook \<Rightarrow> Digest32 \<Rightarrow> (SettlementError + unit) \<times> ReservationBook" where
  "ReservationBook_release_order b c =
     guarded (ok_or (record_id_for b c) (Reservation ''reservation is absent'')) b (\<lambda>id.
     guarded (ok_or (btree_get (records b) id) (Panic ''looked up reservation'')) b (\<lambda>r.
     guarded (fail_if (rr_status r \<noteq> Active) (Reservation ''reservation is already terminal'')) b (\<lambda>_.
     (Inr (), set_record b id (r\<lparr>rr_remaining := 0, rr_remaining_quantity := 0, rr_status := Released\<rparr>)))))"

end
