(* ===== verification/Collaborative.thy ===== *)
theory Collaborative
  imports Reservations
begin

text \<open>
  The verifier side of the collaborative settlement proofs, \<open>oclob-settlement/src/collaborative.rs\<close>: the
  identity of a fill proof and \<open>verify_for_settlement\<close>, which every fill passes before it moves an
  account. The proof systems, the confidential ledger and the finality check belong to other packages
  and are the record \<open>defmi\<close>; the evidence they read is opaque bytes.
\<close>

section \<open>Data\<close>

type_synonym FrostPublicKey = "u8 list"

record QuorumPolicy =
  qp_threshold :: nat
  qp_members :: "u8 list list"

datatype QuoteBinding = ProofDigest Digest32 | LegacyPackedKey "u8 list"

datatype PriceLimitDirection = MaximumBuyPrice | MinimumSellPrice

text \<open>The fields of a zkPI instruction that OCLOB reads, and whether its ranges are threshold ones.\<close>

record Instruction =
  in_nonce :: Digest32
  in_deadline :: u64
  in_quote_binding :: QuoteBinding
  in_payer_handle :: RistrettoPoint
  in_payee_handle :: RistrettoPoint
  in_asset_commitment :: RistrettoPoint
  in_amount_commitment :: RistrettoPoint
  in_price_commitment :: RistrettoPoint
  in_ranges_threshold :: bool
  in_evidence :: "u8 list"

record OpeningEnvelope =
  env_context :: "u8 list"
  env_recipient_view :: RistrettoPoint
  env_shares :: "u8 list"

record ThresholdDvpPackage =
  pk_instruction :: Instruction
  pk_cash_commitment :: RistrettoPoint
  pk_securities_remainder :: RistrettoPoint
  pk_cash_remainder :: RistrettoPoint
  pk_evidence :: "u8 list"

record CollaborativeFillProof =
  cf_job_id :: Digest32
  cf_market_proof_digest :: Digest32
  cf_limit_direction :: PriceLimitDirection
  cf_limit_commitment :: RistrettoPoint
  cf_limit_context :: Digest32
  cf_asset_id :: Digest32
  cf_instruction :: Instruction
  cf_frost_public :: FrostPublicKey
  cf_pq_committee :: QuorumPolicy
  cf_maker_handle :: RistrettoPoint
  cf_price_limit_proof :: "u8 list"
  cf_dvp_proofs :: "u8 list"
  cf_cash_commitment :: RistrettoPoint
  cf_securities_remainder :: RistrettoPoint
  cf_cash_remainder :: RistrettoPoint
  cf_maker_pool_remainder :: RistrettoPoint
  cf_maker_pool_remainder_proof :: "u8 list"
  cf_securities_delivery_opening :: OpeningEnvelope
  cf_securities_refund_opening :: OpeningEnvelope
  cf_cash_delivery_opening :: OpeningEnvelope
  cf_cash_refund_opening :: OpeningEnvelope
  cf_asset_link :: "u8 list"

record CollaborativeSettlementContext =
  sx_expected_job_id :: Digest32
  sx_market_proof_digest :: Digest32
  sx_maker_handle :: RistrettoPoint
  sx_taker_handle :: RistrettoPoint
  sx_maker_reserve :: RistrettoPoint
  sx_taker_reserve :: RistrettoPoint
  sx_asset_id :: Digest32
  sx_frost_public :: FrostPublicKey
  sx_pq_committee :: QuorumPolicy
  sx_now :: u64

record CanonicalTransition =
  tn_transaction_id :: "u8 list"
  tn_block_id :: "u8 list"
  tn_height :: u64
  tn_statement :: Digest32
  tn_before_state_root :: Digest32
  tn_after_state_root :: Digest32

section \<open>What settlement calls of other packages\<close>

type_synonym ledger = "(u8 list \<times> RistrettoPoint) list"

record defmi =
  securities_rail :: "u8 list"
  cash_rail :: "u8 list"
  account_of :: "RistrettoPoint \<Rightarrow> u8 list \<Rightarrow> u8 list"
  ledger_snapshot :: "ledger \<Rightarrow> Digest32"
  ledger_balance :: "ledger \<Rightarrow> u8 list \<Rightarrow> RistrettoPoint option"
  ledger_conserved :: "ledger \<Rightarrow> bool"
  point_add :: "RistrettoPoint \<Rightarrow> RistrettoPoint \<Rightarrow> RistrettoPoint"
  point_sub :: "RistrettoPoint \<Rightarrow> RistrettoPoint \<Rightarrow> RistrettoPoint"
  public_key_serialize :: "FrostPublicKey \<Rightarrow> u8 list option"
  validate_settlement_committee :: "QuorumPolicy \<Rightarrow> FrostPublicKey \<Rightarrow> string + unit"
  asset_link_verify :: "Digest32 \<Rightarrow> RistrettoPoint \<Rightarrow> u8 list \<Rightarrow> bool"
  venue_require_pq :: "FrostPublicKey \<Rightarrow> QuorumPolicy \<Rightarrow> string + unit"
  venue_verify :: "FrostPublicKey \<Rightarrow> QuorumPolicy \<Rightarrow> Instruction \<Rightarrow> u64 \<Rightarrow> string + unit"
  threshold_price_limit ::
    "RistrettoPoint \<Rightarrow> RistrettoPoint \<Rightarrow> PriceLimitDirection \<Rightarrow> Digest32 \<Rightarrow> u8 list \<Rightarrow> string + unit"
  build_threshold_package ::
    "Instruction \<Rightarrow> RistrettoPoint \<Rightarrow> RistrettoPoint \<Rightarrow> RistrettoPoint \<Rightarrow> u8 list \<Rightarrow> string + ThresholdDvpPackage"
  verify_threshold_range :: "RistrettoPoint \<Rightarrow> u8 list \<Rightarrow> bool"
  envelope_validate :: "OpeningEnvelope \<Rightarrow> string + unit"
  opening_context :: "Digest32 \<Rightarrow> string \<Rightarrow> string + u8 list"
  package_digest :: "ThresholdDvpPackage \<Rightarrow> Digest32"
  instruction_nullifier :: "Instruction \<Rightarrow> Digest32"
  instruction_encode :: "Instruction \<Rightarrow> u8 list"
  hex_encode :: "Digest32 \<Rightarrow> u8 list"
  manifest_digest :: "string + Digest32"
  readback_new :: "Digest32 \<Rightarrow> Digest32 \<Rightarrow> string + u8 list"
  accept_canonical_transition ::
    "Digest32 \<Rightarrow> CanonicalTransition \<Rightarrow> Digest32 \<Rightarrow> Digest32 \<Rightarrow> u8 list list \<Rightarrow> string + Digest32"

section \<open>Verification\<close>

definition job_id_preimage :: "Digest32 \<Rightarrow> nat \<Rightarrow> Digest32 \<Rightarrow> u8 list" where
  "job_id_preimage round_id slot output = bytes_of ''OCLOB:COLLABORATIVE-FILL:v1'' @ to_be_bytes round_id
     @ to_be_bytes (of_nat slot :: u16) @ to_be_bytes output"

definition collaborative_job_id :: "crypto \<Rightarrow> Digest32 \<Rightarrow> nat \<Rightarrow> Digest32 \<Rightarrow> string + Digest32" where
  "collaborative_job_id E round_id slot output =
     (if 8 \<le> slot \<or> round_id = 0 \<or> output = 0
      then Inl ''collaborative fill identity is outside its fixed bounds''
      else Inr (sha256 E (job_id_preimage round_id slot output)))"

definition expected_handles ::
  "PriceLimitDirection \<Rightarrow> RistrettoPoint \<Rightarrow> RistrettoPoint \<Rightarrow> RistrettoPoint \<times> RistrettoPoint" where
  "expected_handles d maker taker =
     (case d of MaximumBuyPrice \<Rightarrow> (taker, maker) | MinimumSellPrice \<Rightarrow> (maker, taker))"

fun verify_envelopes ::
  "defmi \<Rightarrow> Digest32 \<Rightarrow> (string \<times> OpeningEnvelope \<times> RistrettoPoint) list \<Rightarrow> string + unit" where
  "verify_envelopes D job [] = Inr ()"
| "verify_envelopes D job ((leg, e, recipient) # rest) =
     andThen (envelope_validate D e) (\<lambda>_.
     andThen (opening_context D job leg) (\<lambda>context.
     if env_context e \<noteq> context \<or> env_recipient_view e \<noteq> recipient
     then Inl (leg @ '' opening envelope is not bound to its proof job and recipient'')
     else verify_envelopes D job rest))"

definition proof_bound :: "CollaborativeFillProof \<Rightarrow> CollaborativeSettlementContext \<Rightarrow> bool" where
  "proof_bound p x \<longleftrightarrow> cf_job_id p = sx_expected_job_id x \<and> in_nonce (cf_instruction p) = cf_job_id p
     \<and> cf_market_proof_digest p = sx_market_proof_digest x \<and> cf_asset_id p = sx_asset_id x
     \<and> cf_maker_handle p = sx_maker_handle x \<and> \<not> in_deadline (cf_instruction p) < sx_now x"

definition verify_for_settlement ::
  "defmi \<Rightarrow> CollaborativeFillProof \<Rightarrow> CollaborativeSettlementContext \<Rightarrow> string + ThresholdDvpPackage" where
  "verify_for_settlement D p x =
     (let i = cf_instruction p; d = cf_limit_direction p in
      andThen (fail_if (\<not> proof_bound p x) ''collaborative fill is not bound to this canonical transition'') (\<lambda>_.
      andThen (case in_quote_binding i of ProofDigest v \<Rightarrow> Inr v
               | LegacyPackedKey _ \<Rightarrow> Inl ''canonical settlement refuses a legacy quote key'') (\<lambda>quote.
      andThen (fail_if (quote \<noteq> sx_market_proof_digest x) ''zkPI names another MPC public output'') (\<lambda>_.
      andThen (fail_if ((in_payer_handle i, in_payee_handle i)
                 \<noteq> expected_handles d (sx_maker_handle x) (sx_taker_handle x))
                ''zkPI payer and payee do not match the reserved Maker and Taker'') (\<lambda>_.
      andThen (fail_if (\<not> asset_link_verify D (sx_asset_id x) (in_asset_commitment i) (cf_asset_link p)
                 \<or> \<not> in_ranges_threshold i)
                ''zkPI asset or range evidence is not the canonical threshold form'') (\<lambda>_.
      andThen (ok_or (public_key_serialize D (cf_frost_public p))
                ''collaborative FROST public package is not serializable'') (\<lambda>supplied.
      andThen (ok_or (public_key_serialize D (sx_frost_public x))
                ''pinned FROST public package is not serializable'') (\<lambda>pinned.
      andThen (fail_if (supplied \<noteq> pinned \<or> cf_pq_committee p \<noteq> sx_pq_committee x)
                ''zkPI was authorized by an unpinned MPC settlement committee'') (\<lambda>_.
      andThen (venue_require_pq D (sx_frost_public x) (sx_pq_committee x)) (\<lambda>_.
      andThen (venue_verify D (sx_frost_public x) (sx_pq_committee x) i (sx_now x)) (\<lambda>_.
      andThen (threshold_price_limit D (in_price_commitment i) (cf_limit_commitment p) d
                (cf_limit_context p) (cf_price_limit_proof p)) (\<lambda>_.
      let (securities_reserve, cash_reserve, expected_maker_remainder) =
        (case d of
           MaximumBuyPrice \<Rightarrow> (sx_maker_reserve x, sx_taker_reserve x, cf_securities_remainder p)
         | MinimumSellPrice \<Rightarrow> (sx_taker_reserve x, sx_maker_reserve x, cf_cash_remainder p)) in
      andThen (build_threshold_package D i securities_reserve cash_reserve (cf_cash_commitment p)
                (cf_dvp_proofs p)) (\<lambda>package.
      andThen (fail_if (pk_securities_remainder package \<noteq> cf_securities_remainder p
                 \<or> pk_cash_remainder package \<noteq> cf_cash_remainder p
                 \<or> cf_maker_pool_remainder p \<noteq> expected_maker_remainder
                 \<or> \<not> verify_threshold_range D (cf_maker_pool_remainder p) (cf_maker_pool_remainder_proof p))
                ''MPC reserve remainder differs from the canonical reservation'') (\<lambda>_.
      andThen (verify_envelopes D (cf_job_id p)
                [(''securities_delivery'', cf_securities_delivery_opening p, in_payer_handle i),
                 (''securities_refund'', cf_securities_refund_opening p, in_payee_handle i),
                 (''cash_delivery'', cf_cash_delivery_opening p, in_payee_handle i),
                 (''cash_refund'', cf_cash_refund_opening p, in_payer_handle i)]) (\<lambda>_.
      Inr package)))))))))))))))"

end
