(* ===== verification/Settlement.thy ===== *)
theory Settlement
  imports Collaborative
begin

text \<open>
  The settlement engine of \<open>oclob-settlement/src/lib.rs\<close>: participant balances, the reservation ledger, the
  spent instructions and the height; reservation, release and the collaborative delivery-versus-payment
  batch; the canonical accounts, the prepared transition and its acceptance. The engine fields that only
  feed the proof systems (the Pedersen key, the local signing shares) are not part of the state.
\<close>

section \<open>Data\<close>

record ConfidentialBalance =
  cb_value :: u64
  cb_commitment :: RistrettoPoint
  cb_opening :: "256 word option"

definition commitment_only :: "u64 \<Rightarrow> RistrettoPoint \<Rightarrow> ConfidentialBalance" where
  "commitment_only v c = \<lparr>cb_value = v, cb_commitment = c, cb_opening = None\<rparr>"

record ParticipantBalances =
  pb_handle :: RistrettoPoint
  pb_securities :: ConfidentialBalance
  pb_cash :: ConfidentialBalance

record SettlementEngine =
  collaborative_public_key :: "FrostPublicKey option"
  collaborative_pq_policy :: "QuorumPolicy option"
  participants :: "(Digest32, ParticipantBalances) btree"
  reservations :: ReservationBook
  spent_instructions :: "Digest32 set"
  transition_committee_trust_root :: Digest32
  se_height :: u64

record SettlementStateSnapshot =
  ss_securities_root :: Digest32
  ss_cash_root :: Digest32
  ss_reservation_root :: Digest32
  ss_height :: u64

record ParticipantPortfolio =
  pf_securities :: u64
  pf_cash :: u64
  pf_reserved_securities :: u64
  pf_reserved_cash :: u64
  pf_available_securities :: u64
  pf_available_cash :: u64

record ReservationReleaseReceipt =
  rl_order_commitment :: Digest32
  rl_before_root :: Digest32
  rl_after_root :: Digest32
  rl_canonical_receipt_digest :: Digest32
  rl_canonical_height :: u64

record ReservationBatchReleaseReceipt =
  rb_order_commitments :: "Digest32 list"
  rb_before_root :: Digest32
  rb_after_root :: Digest32
  rb_canonical_receipt_digest :: Digest32
  rb_canonical_height :: u64

record OclobSettlementMemberReceipt =
  sm_instruction_nullifier :: Digest32
  sm_zkpi_digest :: Digest32
  sm_package_digest :: Digest32
  sm_maker_order :: Digest32
  sm_taker_order :: Digest32
  sm_maker_reservation_remaining :: u64
  sm_taker_reservation_remaining :: u64

record OclobSettlementReceipt =
  sr_batch_digest :: Digest32
  sr_members :: "OclobSettlementMemberReceipt list"
  sr_amount_range_is_threshold :: bool
  sr_price_range_is_threshold :: bool
  sr_settlement_authorization_quorum :: nat
  sr_post_match_participant_signatures :: nat
  sr_securities_before_root :: Digest32
  sr_securities_after_root :: Digest32
  sr_cash_before_root :: Digest32
  sr_cash_after_root :: Digest32
  sr_reservation_before_root :: Digest32
  sr_reservation_after_root :: Digest32
  sr_arriving_reservation_zkpi_digest :: "Digest32 option"
  sr_arriving_reservation_instruction_nullifier :: "Digest32 option"
  sr_arriving_reservation_proof_digest :: "Digest32 option"
  sr_canonical_state_root :: Digest32
  sr_canonical_receipt_digest :: Digest32
  sr_canonical_height :: u64
  sr_avalanche_transaction_id :: "rust_str option"
  sr_avalanche_block_id :: "rust_str option"
  sr_replay_rejected :: bool
  sr_solvent :: bool

section \<open>Digests\<close>

definition combined_root :: "crypto \<Rightarrow> Digest32 \<Rightarrow> Digest32 \<Rightarrow> Digest32 \<Rightarrow> Digest32" where
  "combined_root E securities cash rs = sha256 E (bytes_of ''OCLOB:DEFMI-CANONICAL-STATE:v1''
     @ to_be_bytes securities @ to_be_bytes cash @ to_be_bytes rs)"

definition domain_digest :: "crypto \<Rightarrow> string \<Rightarrow> u8 list \<Rightarrow> Digest32" where
  "domain_digest E domain body = sha256 E (bytes_of domain @ put_bytes body)"

definition receipt_preimage :: "string \<Rightarrow> Digest32 \<Rightarrow> Digest32 \<Rightarrow> Digest32 \<Rightarrow> u64 \<Rightarrow> u8 list" where
  "receipt_preimage op order_or_batch before_root after_root h =
     bytes_of ''OCLOB:DEFMI-RESERVATION-RECEIPT:v1'' @ put_bytes (bytes_of op) @ to_be_bytes order_or_batch
     @ to_be_bytes before_root @ to_be_bytes after_root @ to_be_bytes h"

definition reservation_receipt_digest ::
  "crypto \<Rightarrow> string \<Rightarrow> Digest32 \<Rightarrow> Digest32 \<Rightarrow> Digest32 \<Rightarrow> u64 \<Rightarrow> Digest32" where
  "reservation_receipt_digest E op order_or_batch before_root after_root h =
     sha256 E (receipt_preimage op order_or_batch before_root after_root h)"

definition settlement_batch_digest :: "crypto \<Rightarrow> Digest32 \<Rightarrow> OclobSettlementMemberReceipt list \<Rightarrow> Digest32" where
  "settlement_batch_digest E transition_digest ms =
     sha256 E (bytes_of ''OCLOB:DEFMI-ATOMIC-BATCH:v1'' @ to_be_bytes transition_digest
       @ to_be_bytes (of_nat (length ms) :: u64)
       @ concat (map (\<lambda>m. to_be_bytes (sm_instruction_nullifier m) @ to_be_bytes (sm_package_digest m)
           @ to_be_bytes (sm_maker_order m) @ to_be_bytes (sm_taker_order m)) ms))"

definition digest_member_field ::
  "crypto \<Rightarrow> string \<Rightarrow> OclobSettlementMemberReceipt list \<Rightarrow> (OclobSettlementMemberReceipt \<Rightarrow> Digest32) \<Rightarrow> Digest32" where
  "digest_member_field E domain ms field =
     sha256 E (bytes_of domain @ to_be_bytes (of_nat (length ms) :: u64)
       @ concat (map (\<lambda>m. to_be_bytes (field m)) ms))"

definition resource_id :: "crypto \<Rightarrow> string \<Rightarrow> Digest32" where
  "resource_id E name = sha256 E (bytes_of ''OCLOB:DEFMI-RESOURCE:v1'' @ bytes_of name)"

definition canonical_cash_asset_id :: "crypto \<Rightarrow> Digest32" where
  "canonical_cash_asset_id E = sha256 E (bytes_of ''OCLOB:DEFMI:ASSET:CASH:v1'')"

definition canonical_securities_asset_id :: "crypto \<Rightarrow> rust_str \<Rightarrow> Digest32" where
  "canonical_securities_asset_id E market =
     sha256 E (bytes_of ''OCLOB:DEFMI:ASSET:SECURITIES:v1'' @ put_bytes market)"

definition canonical_reservation_state_asset_id :: "crypto \<Rightarrow> rust_str \<Rightarrow> Digest32" where
  "canonical_reservation_state_asset_id E market =
     sha256 E (bytes_of ''OCLOB:DEFMI:ASSET:RESERVATION-STATE:v1'' @ put_bytes market)"

definition canonical_reservation_state_handle :: "crypto \<Rightarrow> rust_str \<Rightarrow> Digest32" where
  "canonical_reservation_state_handle E market =
     sha256 E (bytes_of ''OCLOB:DEFMI:ACCOUNT:RESERVATION-STATE:v1'' @ put_bytes market)"

section \<open>Balances\<close>

definition RANGE_BITS :: nat where
  "RANGE_BITS = 32"

definition checked_credit :: "u64 \<Rightarrow> u64 \<Rightarrow> SettlementError + u64" where
  "checked_credit balance amount =
     andThen (ok_or (checked_add balance amount) (Reservation ''credited balance overflowed'')) (\<lambda>credited.
     if 2 ^ RANGE_BITS \<le> unat credited
     then Inl (Reservation ''credited balance exceeds the DeFMI range-proof domain'')
     else Inr credited)"

definition checked_debit :: "u64 \<Rightarrow> u64 \<Rightarrow> SettlementError + u64" where
  "checked_debit balance amount = ok_or (checked_sub balance amount) Insolvent"

definition ledgers_from_participants ::
  "defmi \<Rightarrow> (Digest32, ParticipantBalances) btree \<Rightarrow> ledger \<times> ledger" where
  "ledgers_from_participants D ps =
     (map (\<lambda>(_, p). (account_of D (pb_handle p) (securities_rail D), cb_commitment (pb_securities p))) ps,
      map (\<lambda>(_, p). (account_of D (pb_handle p) (cash_rail D), cb_commitment (pb_cash p))) ps)"

definition state_snapshot :: "crypto \<Rightarrow> defmi \<Rightarrow> SettlementEngine \<Rightarrow> SettlementStateSnapshot" where
  "state_snapshot E D g =
     (let (securities, cash) = ledgers_from_participants D (participants g) in
      \<lparr>ss_securities_root = ledger_snapshot D securities, ss_cash_root = ledger_snapshot D cash,
       ss_reservation_root = ReservationBook_root E (reservations g), ss_height = se_height g\<rparr>)"

definition participant_portfolio :: "SettlementEngine \<Rightarrow> Digest32 \<Rightarrow> SettlementError + ParticipantPortfolio" where
  "participant_portfolio g participant =
     andThen (ok_or (btree_get (participants g) participant) (Reservation ''participant account is absent'')) (\<lambda>p.
     andThen (reserved_for (reservations g) participant Securities) (\<lambda>reserved_securities.
     andThen (reserved_for (reservations g) participant Cash) (\<lambda>reserved_cash.
     Inr \<lparr>pf_securities = cb_value (pb_securities p), pf_cash = cb_value (pb_cash p),
          pf_reserved_securities = reserved_securities, pf_reserved_cash = reserved_cash,
          pf_available_securities = saturating_sub (cb_value (pb_securities p)) reserved_securities,
          pf_available_cash = saturating_sub (cb_value (pb_cash p)) reserved_cash\<rparr>)))"

section \<open>Construction\<close>

text \<open>\<open>commit\<close> is the Pedersen commitment, \<open>first\<close> and \<open>second\<close> the encoded handles of the two identities, and
  the scalars are drawn at random.\<close>

definition opened_balance :: "(u64 \<Rightarrow> 256 word \<Rightarrow> RistrettoPoint) \<Rightarrow> u64 \<Rightarrow> 256 word \<Rightarrow> ConfidentialBalance" where
  "opened_balance commit v opening = \<lparr>cb_value = v, cb_commitment = commit v opening, cb_opening = Some opening\<rparr>"

definition new_with_transition_committee ::
  "crypto \<Rightarrow> (u64 \<Rightarrow> 256 word \<Rightarrow> RistrettoPoint) \<Rightarrow> RistrettoPoint \<Rightarrow> RistrettoPoint \<Rightarrow>
   256 word \<times> 256 word \<times> 256 word \<times> 256 word \<Rightarrow> (u16, VerifyingKey) btree \<Rightarrow> CommitteePolicy \<Rightarrow>
   SettlementError + SettlementEngine" where
  "new_with_transition_committee E commit first second scalars keys policy =
     (let (x1, x2, x3, x4) = scalars in
      andThen (map_err (\<lambda>e. Proof (ProofError_to_string e)) (committee_trust_root E keys policy)) (\<lambda>root.
      Inr \<lparr>collaborative_public_key = None, collaborative_pq_policy = None,
           participants = btree_insert second
             \<lparr>pb_handle = second, pb_securities = opened_balance commit 10000 x3,
              pb_cash = opened_balance commit 100000000 x4\<rparr>
             (btree_insert first
               \<lparr>pb_handle = first, pb_securities = opened_balance commit 10000 x1,
                pb_cash = opened_balance commit 100000000 x2\<rparr> []),
           reservations = ReservationBook_default, spent_instructions = {},
           transition_committee_trust_root = root, se_height = 0\<rparr>))"

section \<open>Reservation and release\<close>

definition pin_collaborative_settlement_committee ::
  "defmi \<Rightarrow> SettlementEngine \<Rightarrow> FrostPublicKey \<Rightarrow> QuorumPolicy \<Rightarrow> (SettlementError + unit) \<times> SettlementEngine" where
  "pin_collaborative_settlement_committee D g public_key pq_policy =
     guarded (fail_if (se_height g \<noteq> 0 \<or> records (reservations g) \<noteq> [] \<or> spent_instructions g \<noteq> {})
       (Proof ''the MPC settlement committee must be pinned at DeFMI genesis'')) g (\<lambda>_.
     guarded (map_err Proof (validate_settlement_committee D pq_policy public_key)) g (\<lambda>_.
     guarded (fail_if (qp_threshold pq_policy \<noteq> 3 \<or> length (qp_members pq_policy) \<noteq> 7)
       (Proof ''MPC settlement requires a three-of-seven PQ committee'')) g (\<lambda>_.
     guarded (ok_or (public_key_serialize D public_key)
       (Proof ''MPC settlement public key is not serializable'')) g (\<lambda>encoded.
     guarded (fail_if (encoded = []) (Proof ''MPC settlement public key is empty'')) g (\<lambda>_.
     case collaborative_public_key g of
       Some existing \<Rightarrow>
         guarded (ok_or (public_key_serialize D existing)
           (Proof ''pinned MPC settlement key is not serializable'')) g (\<lambda>pinned.
         guarded (fail_if (pinned \<noteq> encoded \<or> collaborative_pq_policy g \<noteq> Some pq_policy)
           (Proof ''the MPC settlement committee is already pinned'')) g (\<lambda>_. (Inr (), g)))
     | None \<Rightarrow> (Inr (), g\<lparr>collaborative_public_key := Some public_key,
                        collaborative_pq_policy := Some pq_policy\<rparr>))))))"

definition bind_eligible_participant ::
  "SettlementEngine \<Rightarrow> Digest32 \<Rightarrow> Digest32 \<Rightarrow> (SettlementError + unit) \<times> SettlementEngine" where
  "bind_eligible_participant g participant entity =
     guarded (ok_or (btree_get (participants g) participant) (Reservation ''participant account is absent'')) g (\<lambda>p.
     let (r, b) = bind_participant (reservations g) participant entity (cb_value (pb_cash p))
                    (cb_value (pb_securities p)) in
     (r, g\<lparr>reservations := b\<rparr>))"

definition reserve_order_with_commitment ::
  "crypto \<Rightarrow> SettlementEngine \<Rightarrow> SettlementOrderView \<Rightarrow> RistrettoPoint \<Rightarrow>
   (SettlementError + ReservationReceipt) \<times> SettlementEngine" where
  "reserve_order_with_commitment E g v point =
     (let (r, staged) = ReservationBook_reserve E (reservations g) v point in
      guarded r g (\<lambda>receipt.
      guarded (ok_or (checked_add (se_height g) 1) (Reservation ''DeFMI height exhausted'')) g (\<lambda>h.
      (Inr (receipt\<lparr>rc_canonical_height := h,
              rc_canonical_receipt_digest := reservation_receipt_digest E ''reserve''
                (rc_order_commitment receipt) (ReservationBook_root E (reservations g))
                (rc_state_root receipt) h\<rparr>),
       g\<lparr>reservations := staged, se_height := h\<rparr>))))"

definition release_order ::
  "crypto \<Rightarrow> SettlementEngine \<Rightarrow> Digest32 \<Rightarrow> (SettlementError + ReservationReleaseReceipt) \<times> SettlementEngine" where
  "release_order E g c =
     (let before_root = ReservationBook_root E (reservations g);
          (r, staged) = ReservationBook_release_order (reservations g) c in
      guarded r g (\<lambda>_.
      let after_root = ReservationBook_root E staged in
      guarded (ok_or (checked_add (se_height g) 1) (Reservation ''DeFMI height exhausted'')) g (\<lambda>h.
      (Inr \<lparr>rl_order_commitment = c, rl_before_root = before_root, rl_after_root = after_root,
            rl_canonical_receipt_digest = reservation_receipt_digest E ''release'' c before_root after_root h,
            rl_canonical_height = h\<rparr>,
       g\<lparr>reservations := staged, se_height := h\<rparr>))))"

text \<open>The loop of \<open>release_orders_atomic\<close> on the staged ledger.\<close>

fun release_each :: "ReservationBook \<Rightarrow> Digest32 list \<Rightarrow> SettlementError + ReservationBook" where
  "release_each b [] = Inr b"
| "release_each b (c # cs) =
     (case ReservationBook_release_order b c of (Inl e, _) \<Rightarrow> Inl e | (Inr _, b') \<Rightarrow> release_each b' cs)"

definition release_orders_atomic ::
  "crypto \<Rightarrow> SettlementEngine \<Rightarrow> Digest32 list \<Rightarrow>
   (SettlementError + ReservationBatchReleaseReceipt) \<times> SettlementEngine" where
  "release_orders_atomic E g cs =
     guarded (fail_if (cs = []) (Reservation ''reservation release batch cannot be empty'')) g (\<lambda>_.
     let before_root = ReservationBook_root E (reservations g) in
     guarded (release_each (reservations g) cs) g (\<lambda>staged.
     let after_root = ReservationBook_root E staged in
     guarded (ok_or (checked_add (se_height g) 1) (Reservation ''DeFMI height exhausted'')) g (\<lambda>h.
     let batch_id = sha256 E (bytes_of ''OCLOB:RESERVATION-RELEASE-BATCH:v1''
                       @ to_be_bytes (of_nat (length cs) :: u64) @ concat (map to_be_bytes cs)) in
     (Inr \<lparr>rb_order_commitments = cs, rb_before_root = before_root, rb_after_root = after_root,
           rb_canonical_receipt_digest =
             reservation_receipt_digest E ''release-batch'' batch_id before_root after_root h,
           rb_canonical_height = h\<rparr>,
      g\<lparr>reservations := staged, se_height := h\<rparr>))))"

section \<open>The collaborative settlement batch\<close>

text \<open>The checks before any state is staged: they return the arriving record and the pinned keys.\<close>

definition settle_precheck ::
  "crypto \<Rightarrow> SettlementEngine \<Rightarrow> PublicFill list \<Rightarrow> CollaborativeFillProof list \<Rightarrow> Digest32 \<Rightarrow>
   TransitionAuthorization \<Rightarrow> OrderCommitment \<Rightarrow> u64 \<Rightarrow> u64 \<Rightarrow>
   SettlementError + ReservationRecord \<times> FrostPublicKey \<times> QuorumPolicy" where
  "settle_precheck E g fills proofs round_id a arriving left now =
     (let absent = Reservation ''taker reservation is absent'' in
      andThen (fail_if (fills = [] \<or> length fills \<noteq> length proofs \<or> MAX_MATCH_SLOTS < length fills
        \<or> round_id = 0 \<or> list_ex (\<lambda>f. fill_quantity f = 0 \<or> fill_price f = 0) fills
        \<or> list_ex (\<lambda>f. taker_order f \<noteq> arriving) fills) InvalidFill) (\<lambda>_.
      andThen (ok_or (record_id_for (reservations g) (commitment_bytes arriving)) absent) (\<lambda>arriving_id.
      andThen (ok_or (btree_get (records (reservations g)) arriving_id) absent) (\<lambda>r.
      andThen (fail_if (rr_status r \<noteq> Active \<or> rr_expires_at r < now)
        (Reservation ''an inactive or expired arriving reservation cannot settle'')) (\<lambda>_.
      andThen (ok_or (checked_sum (map fill_quantity fills)) (Reservation ''fill quantity overflowed'')) (\<lambda>filled.
      andThen (fail_if (checked_add filled left \<noteq> Some (rr_original_quantity r))
        (Reservation ''fills and arriving remainder do not conserve order quantity'')) (\<lambda>_.
      andThen (fail_if (\<not> distinct (map maker_order fills))
        (Reservation ''one resting order cannot appear twice in an atomic match batch'')) (\<lambda>_.
      andThen (map_err (\<lambda>e. Proof (ProofError_to_string e))
        (auth_settlement_binding E a (rr_market_id r) arriving fills (transition_committee_trust_root g))) (\<lambda>_.
      andThen (fail_if (mpc_output_digest (auth_statement a) = 0)
        (Proof ''transition omitted the MPC public-output digest'')) (\<lambda>_.
      andThen (ok_or (collaborative_pq_policy g)
        (Proof ''MPC PQ settlement committee is not pinned in DeFMI'')) (\<lambda>pq.
      andThen (ok_or (collaborative_public_key g)
        (Proof ''MPC settlement committee is not pinned in DeFMI'')) (\<lambda>public_key.
      Inr (r, public_key, pq)))))))))))))"

record settle_state =
  st_reservations :: ReservationBook
  st_participants :: "(Digest32, ParticipantBalances) btree"
  st_spent :: "Digest32 set"
  st_members :: "OclobSettlementMemberReceipt list"

text \<open>The balances of seller and buyer after one delivery against payment.\<close>

definition move_balances ::
  "defmi \<Rightarrow> ParticipantBalances \<Rightarrow> ParticipantBalances \<Rightarrow> u64 \<Rightarrow> u64 \<Rightarrow> ThresholdDvpPackage \<Rightarrow>
   SettlementError + ParticipantBalances \<times> ParticipantBalances" where
  "move_balances D seller buyer qty cash_value package =
     andThen (checked_debit (cb_value (pb_securities seller)) qty) (\<lambda>seller_securities.
     andThen (checked_debit (cb_value (pb_cash buyer)) cash_value) (\<lambda>buyer_cash.
     andThen (checked_credit (cb_value (pb_cash seller)) cash_value) (\<lambda>seller_cash.
     andThen (checked_credit (cb_value (pb_securities buyer)) qty) (\<lambda>buyer_securities.
     let amount = in_amount_commitment (pk_instruction package); cash = pk_cash_commitment package in
     Inr (seller\<lparr>pb_securities := commitment_only seller_securities
                    (point_sub D (cb_commitment (pb_securities seller)) amount),
                 pb_cash := commitment_only seller_cash (point_add D (cb_commitment (pb_cash seller)) cash)\<rparr>,
          buyer\<lparr>pb_cash := commitment_only buyer_cash (point_sub D (cb_commitment (pb_cash buyer)) cash),
                pb_securities := commitment_only buyer_securities
                    (point_add D (cb_commitment (pb_securities buyer)) amount)\<rparr>)))))"

definition settle_fill ::
  "crypto \<Rightarrow> defmi \<Rightarrow> rust_str \<Rightarrow> FrostPublicKey \<Rightarrow> QuorumPolicy \<Rightarrow> Digest32 \<Rightarrow> Digest32 \<Rightarrow> u64 \<Rightarrow> nat \<Rightarrow>
   PublicFill \<Rightarrow> CollaborativeFillProof \<Rightarrow> settle_state \<Rightarrow> SettlementError + settle_state" where
  "settle_fill E D market public_key pq round_id market_proof now index f proof st =
     (let (r, b) = consume_fill (st_reservations st) f market now in
      andThen r (\<lambda>c.
      andThen (fail_if (seller_handle c = buyer_handle c)
        (Reservation ''self-trading orders cannot produce a DvP between one account'')) (\<lambda>_.
      andThen (ok_or (btree_get (st_participants st) (seller_handle c))
        (Reservation ''seller account is absent'')) (\<lambda>seller.
      andThen (ok_or (btree_get (st_participants st) (buyer_handle c))
        (Reservation ''buyer account is absent'')) (\<lambda>buyer.
      let (maker, taker, direction) = (case maker_kind c of
             Securities \<Rightarrow> (pb_handle seller, pb_handle buyer, MaximumBuyPrice)
           | Cash \<Rightarrow> (pb_handle buyer, pb_handle seller, MinimumSellPrice)) in
      andThen (fail_if (cf_limit_direction proof \<noteq> direction)
        (Proof ''MPC limit proof has the opposite Taker direction'')) (\<lambda>_.
      andThen (map_err Proof (collaborative_job_id E round_id index market_proof)) (\<lambda>job.
      andThen (map_err Proof (verify_for_settlement D proof
        \<lparr>sx_expected_job_id = job, sx_market_proof_digest = market_proof, sx_maker_handle = maker,
         sx_taker_handle = taker, sx_maker_reserve = maker_reserve_commitment c,
         sx_taker_reserve = taker_reserve_commitment c, sx_asset_id = canonical_securities_asset_id E market,
         sx_frost_public = public_key, sx_pq_committee = pq, sx_now = now\<rparr>)) (\<lambda>package.
      let (r2, b2) = apply_collaborative_remainders b c (pk_securities_remainder package)
                       (pk_cash_remainder package) (cf_maker_pool_remainder proof) in
      andThen r2 (\<lambda>_.
      let nullifier = instruction_nullifier D (pk_instruction package) in
      andThen (fail_if (nullifier \<in> st_spent st) ReplayAccepted) (\<lambda>_.
      andThen (ok_or (checked_mul (fill_price f) (fill_quantity f)) (Reservation ''cash fill overflowed'')) (\<lambda>cash_value.
      andThen (move_balances D seller buyer (fill_quantity f) cash_value package) (\<lambda>(seller_after, buyer_after).
      let ps = btree_insert (buyer_handle c) buyer_after
                 (btree_insert (seller_handle c) seller_after (st_participants st));
          (securities, cash) = ledgers_from_participants D ps in
      andThen (fail_if (\<not> ledger_conserved D securities \<or> \<not> ledger_conserved D cash) Insolvent) (\<lambda>_.
      Inr \<lparr>st_reservations = b2, st_participants = ps, st_spent = insert nullifier (st_spent st),
           st_members = st_members st @
             [\<lparr>sm_instruction_nullifier = nullifier,
               sm_zkpi_digest = sha256 E (instruction_encode D (pk_instruction package)),
               sm_package_digest = package_digest D package,
               sm_maker_order = commitment_bytes (maker_order f),
               sm_taker_order = commitment_bytes (taker_order f),
               sm_maker_reservation_remaining = maker_remaining c,
               sm_taker_reservation_remaining = taker_remaining c\<rparr>]\<rparr>)))))))))))))"

fun settle_fills ::
  "crypto \<Rightarrow> defmi \<Rightarrow> rust_str \<Rightarrow> FrostPublicKey \<Rightarrow> QuorumPolicy \<Rightarrow> Digest32 \<Rightarrow> Digest32 \<Rightarrow> u64 \<Rightarrow> nat \<Rightarrow>
   (PublicFill \<times> CollaborativeFillProof) list \<Rightarrow> settle_state \<Rightarrow> SettlementError + settle_state" where
  "settle_fills E D market public_key pq round_id market_proof now index [] st = Inr st"
| "settle_fills E D market public_key pq round_id market_proof now index ((f, p) # rest) st =
     andThen (settle_fill E D market public_key pq round_id market_proof now index f p st) (\<lambda>st'.
     settle_fills E D market public_key pq round_id market_proof now (Suc index) rest st')"

fun refresh_all :: "ReservationBook \<Rightarrow> (Digest32, ParticipantBalances) btree \<Rightarrow> SettlementError + ReservationBook" where
  "refresh_all b [] = Inr b"
| "refresh_all b ((participant, p) # ps) =
     (case refresh_capacity b participant (cb_value (pb_cash p)) (cb_value (pb_securities p)) of
        (Inl e, _) \<Rightarrow> Inl e
      | (Inr _, b') \<Rightarrow> refresh_all b' ps)"

text \<open>\<open>if let Some(last) = members.last_mut()\<close>.\<close>

definition set_last_remaining :: "u64 \<Rightarrow> OclobSettlementMemberReceipt list \<Rightarrow> OclobSettlementMemberReceipt list" where
  "set_last_remaining v ms =
     (if ms = [] then ms
      else butlast ms @ [last ms\<lparr>sm_taker_reservation_remaining := v\<rparr>])"

text \<open>Everything staged: the reservations, accounts and nullifiers the batch would leave.\<close>

definition settle_staged ::
  "crypto \<Rightarrow> defmi \<Rightarrow> SettlementEngine \<Rightarrow> PublicFill list \<Rightarrow> CollaborativeFillProof list \<Rightarrow> Digest32 \<Rightarrow>
   TransitionAuthorization \<Rightarrow> OrderCommitment \<Rightarrow> u64 \<Rightarrow> u64 \<Rightarrow> SettlementError + settle_state" where
  "settle_staged E D g fills proofs round_id a arriving left now =
     andThen (settle_precheck E g fills proofs round_id a arriving left now) (\<lambda>(r, public_key, pq).
     andThen (settle_fills E D (rr_market_id r) public_key pq round_id (mpc_output_digest (auth_statement a)) now 0
        (zip fills proofs)
        \<lparr>st_reservations = reservations g, st_participants = participants g,
         st_spent = spent_instructions g, st_members = []\<rparr>) (\<lambda>st.
     let (q, b) = reconcile_arriving_collaborative (st_reservations st) (commitment_bytes arriving) left in
     andThen q (\<lambda>taker_left.
     andThen (refresh_all b (st_participants st)) (\<lambda>b'.
     let (securities, cash) = ledgers_from_participants D (st_participants st) in
     andThen (fail_if (\<not> ledger_conserved D securities \<or> \<not> ledger_conserved D cash) Insolvent) (\<lambda>_.
     andThen (fail_if (card (st_spent st) \<noteq> card (spent_instructions g) + length fills) ReplayAccepted) (\<lambda>_.
     Inr (st\<lparr>st_reservations := b', st_members := set_last_remaining taker_left (st_members st)\<rparr>)))))))"

definition settlement_receipt ::
  "crypto \<Rightarrow> defmi \<Rightarrow> SettlementEngine \<Rightarrow> settle_state \<Rightarrow> Digest32 \<Rightarrow> u64 \<Rightarrow> Digest32 \<Rightarrow> OclobSettlementReceipt" where
  "settlement_receipt E D g st batch_digest h finality_digest =
     (let (securities, cash) = ledgers_from_participants D (participants g);
          (securities', cash') = ledgers_from_participants D (st_participants st);
          before = ReservationBook_root E (reservations g);
          after = ReservationBook_root E (st_reservations st) in
      \<lparr>sr_batch_digest = batch_digest, sr_members = st_members st, sr_amount_range_is_threshold = True,
       sr_price_range_is_threshold = True, sr_settlement_authorization_quorum = 3,
       sr_post_match_participant_signatures = 0, sr_securities_before_root = ledger_snapshot D securities,
       sr_securities_after_root = ledger_snapshot D securities', sr_cash_before_root = ledger_snapshot D cash,
       sr_cash_after_root = ledger_snapshot D cash', sr_reservation_before_root = before,
       sr_reservation_after_root = after, sr_arriving_reservation_zkpi_digest = None,
       sr_arriving_reservation_instruction_nullifier = None, sr_arriving_reservation_proof_digest = None,
       sr_canonical_state_root = combined_root E (ledger_snapshot D securities') (ledger_snapshot D cash') after,
       sr_canonical_receipt_digest = finality_digest, sr_canonical_height = h,
       sr_avalanche_transaction_id = None, sr_avalanche_block_id = None, sr_replay_rejected = True,
       sr_solvent = True\<rparr>)"

text \<open>The end of a batch. The height is written before the finality checks, which may still fail; the other fields
  after them.\<close>

definition commit_staged ::
  "crypto \<Rightarrow> defmi \<Rightarrow> SettlementEngine \<Rightarrow> Digest32 \<Rightarrow> settle_state \<Rightarrow>
   (SettlementError + OclobSettlementReceipt) \<times> SettlementEngine" where
  "commit_staged E D g transition_digest st =
     (let (securities, cash) = ledgers_from_participants D (participants g);
         (securities', cash') = ledgers_from_participants D (st_participants st);
         batch_digest = settlement_batch_digest E transition_digest (st_members st);
         before_root = combined_root E (ledger_snapshot D securities) (ledger_snapshot D cash)
                         (ReservationBook_root E (reservations g));
         after_root = combined_root E (ledger_snapshot D securities') (ledger_snapshot D cash')
                         (ReservationBook_root E (st_reservations st)) in
     guarded (ok_or (checked_add (se_height g) 1) (Reservation ''DeFMI height exhausted'')) g (\<lambda>h.
     let g1 = g\<lparr>se_height := h\<rparr>;
         block_id = hex_encode D (sha256 E (bytes_of ''OCLOB:DEFMI-BLOCK:v1'' @ to_be_bytes batch_digest
                       @ to_be_bytes after_root)) in
     guarded (map_err Finality (readback_new D (resource_id E ''OCLOB:SECURITIES-RAIL'') after_root)) g1 (\<lambda>k1.
     guarded (map_err Finality (readback_new D (resource_id E ''OCLOB:CASH-RAIL'') after_root)) g1 (\<lambda>k2.
     guarded (map_err Finality (manifest_digest D)) g1 (\<lambda>application_binding.
     guarded (map_err Finality (accept_canonical_transition D application_binding
         \<lparr>tn_transaction_id = hex_encode D batch_digest, tn_block_id = block_id, tn_height = h,
          tn_statement = transition_digest, tn_before_state_root = before_root,
          tn_after_state_root = after_root\<rparr> transition_digest before_root [k1, k2])) g1 (\<lambda>finality.
     (Inr (settlement_receipt E D g st batch_digest h finality),
      g1\<lparr>reservations := st_reservations st, participants := st_participants st,
         spent_instructions := st_spent st\<rparr>)))))))"

definition settle_batch_collaborative ::
  "crypto \<Rightarrow> defmi \<Rightarrow> SettlementEngine \<Rightarrow> PublicFill list \<Rightarrow> CollaborativeFillProof list \<Rightarrow> Digest32 \<Rightarrow>
   TransitionAuthorization \<Rightarrow> OrderCommitment \<Rightarrow> u64 \<Rightarrow> u64 \<Rightarrow>
   (SettlementError + OclobSettlementReceipt) \<times> SettlementEngine" where
  "settle_batch_collaborative E D g fills proofs round_id a arriving left now =
     guarded (settle_staged E D g fills proofs round_id a arriving left now) g (\<lambda>st.
     commit_staged E D g (auth_digest E a) st)"

section \<open>Canonical accounts\<close>

record CanonicalAccountOpening =
  ao_handle :: Digest32
  ao_asset_id :: Digest32
  ao_commitment :: Digest32

record CanonicalAccountDelta =
  ad_handle :: Digest32
  ad_asset_id :: Digest32
  ad_before_commitment :: Digest32
  ad_after_commitment :: Digest32

text \<open>One account of a rail: its handle must have 32 bytes and be open in the ledger.\<close>

definition account_opening ::
  "defmi \<Rightarrow> ledger \<Rightarrow> u8 list \<Rightarrow> Digest32 \<Rightarrow> ParticipantBalances \<Rightarrow> SettlementError + CanonicalAccountOpening" where
  "account_opening D l rail asset p =
     (let raw = account_of D (pb_handle p) rail in
      andThen (fail_if (length raw \<noteq> 32) (Finality ''canonical account handle is not 32 bytes'')) (\<lambda>_.
      andThen (ok_or (ledger_balance D l raw) CanonicalDivergence) (\<lambda>point.
      Inr \<lparr>ao_handle = from_be_bytes raw, ao_asset_id = asset, ao_commitment = point\<rparr>)))"

definition canonical_account_openings ::
  "crypto \<Rightarrow> defmi \<Rightarrow> SettlementEngine \<Rightarrow> rust_str \<Rightarrow> SettlementError + CanonicalAccountOpening list" where
  "canonical_account_openings E D g market =
     andThen (fail_if (market = [] \<or> 64 < length market)
       (Reservation ''canonical market identifier is invalid'')) (\<lambda>_.
     let (securities, cash) = ledgers_from_participants D (participants g) in
     andThen (collect_results (concat (map (\<lambda>(_, p).
         [account_opening D securities (securities_rail D) (canonical_securities_asset_id E market) p,
          account_opening D cash (cash_rail D) (canonical_cash_asset_id E) p]) (participants g)))) (\<lambda>rails.
     let accounts = sort_key ao_handle (rails @
           [\<lparr>ao_handle = canonical_reservation_state_handle E market,
             ao_asset_id = canonical_reservation_state_asset_id E market,
             ao_commitment = ReservationBook_root E (reservations g)\<rparr>]) in
     andThen (fail_if (\<not> distinct_adj (map ao_handle accounts)) CanonicalDivergence) (\<lambda>_. Inr accounts)))"

fun canonical_account_deltas ::
  "CanonicalAccountOpening list \<Rightarrow> CanonicalAccountOpening list \<Rightarrow> SettlementError + CanonicalAccountDelta list" where
  "canonical_account_deltas [] [] = Inr []"
| "canonical_account_deltas (x # xs) (y # ys) =
     (if length xs \<noteq> length ys \<or> ao_handle x \<noteq> ao_handle y \<or> ao_asset_id x \<noteq> ao_asset_id y
      then Inl CanonicalDivergence
      else andThen (canonical_account_deltas xs ys) (\<lambda>ds.
           Inr (if ao_commitment x \<noteq> ao_commitment y
                then \<lparr>ad_handle = ao_handle x, ad_asset_id = ao_asset_id x,
                      ad_before_commitment = ao_commitment x, ad_after_commitment = ao_commitment y\<rparr> # ds
                else ds)))"
| "canonical_account_deltas _ _ = Inl CanonicalDivergence"

definition canonical_binding_preimage ::
  "Digest32 \<Rightarrow> Digest32 \<Rightarrow> Digest32 \<Rightarrow> Digest32 \<Rightarrow> Digest32 \<Rightarrow> Digest32 \<Rightarrow> Digest32 \<Rightarrow>
   CanonicalAccountDelta list \<Rightarrow> u8 list" where
  "canonical_binding_preimage application batch transition payment proof before after ds =
     bytes_of ''OCLOB:DEFMI:CANONICAL-BINDING:v1'' @ to_be_bytes application @ to_be_bytes batch
     @ to_be_bytes transition @ to_be_bytes payment @ to_be_bytes proof @ to_be_bytes before
     @ to_be_bytes after @ to_be_bytes (of_nat (length ds) :: u64)
     @ concat (map (\<lambda>d. to_be_bytes (ad_handle d) @ to_be_bytes (ad_asset_id d)
         @ to_be_bytes (ad_before_commitment d) @ to_be_bytes (ad_after_commitment d)) ds)"

definition canonical_binding_digest ::
  "crypto \<Rightarrow> Digest32 \<Rightarrow> Digest32 \<Rightarrow> Digest32 \<Rightarrow> Digest32 \<Rightarrow> Digest32 \<Rightarrow> Digest32 \<Rightarrow> Digest32 \<Rightarrow>
   CanonicalAccountDelta list \<Rightarrow> Digest32" where
  "canonical_binding_digest E application batch transition payment proof before after ds =
     sha256 E (canonical_binding_preimage application batch transition payment proof before after ds)"

end
