(* ===== verification/Eligibility.thy ===== *)
theory Eligibility
  imports Settlement
begin

text \<open>
  The eligibility boundary, \<open>oclob-dekyx/src/lib.rs\<close>: an anonymous credential is checked against the exact
  order commitment before the order is reserved or sequenced. The issuer directory, the verification of a
  presentation and the ledger of consumed presentations belong to the package \<open>dekyx-core\<close>: they are the
  record \<open>dekyx_host\<close>, and the ledger's state is a type variable. Of that package's types the fields the
  adapter reads are kept; \<open>rest\<close> stands for the others.
\<close>

section \<open>Data\<close>

record PresentationContext =
  px_scope_digest :: Digest32
  px_audience_digest :: Digest32
  px_action_digest :: Digest32
  px_request_digest :: Digest32
  px_valid_until :: u64
  px_rest :: "u8 list"

record AnonymousPresentation =
  ap_context :: PresentationContext
  ap_nullifier :: Digest32
  ap_rest :: "u8 list"

record EligibilityRequirement =
  er_issuer_id :: rust_str
  er_issuer_key_epoch :: u64
  er_subject_is_legal_entity :: bool
  er_scope_digest :: Digest32
  er_rest :: "u8 list"

record VerifiedOrderEligibility =
  ve_subject_nullifier :: Digest32
  ve_subject_line_id :: Digest32
  ve_proof_digest :: Digest32
  ve_valid_until :: u64

record 'l dekyx_host =
  directory_verifier :: "u8 list \<Rightarrow> rust_str \<Rightarrow> u64 \<Rightarrow> string + u8 list"
  verify_eligibility :: "u8 list \<Rightarrow> EligibilityRequirement \<Rightarrow> PresentationContext \<Rightarrow> AnonymousPresentation \<Rightarrow> u64 \<Rightarrow>
    string + VerifiedOrderEligibility"
  ledger_default :: 'l
  ledger_consume :: "'l \<Rightarrow> Digest32 \<Rightarrow> PresentationContext \<Rightarrow> (string + unit) \<times> 'l"

record 'l OclobEligibilityVerifier =
  ev_directory :: "u8 list"
  ev_requirement :: EligibilityRequirement
  ev_consumed :: 'l
  ev_audience_digest :: Digest32
  ev_action_digest :: Digest32

datatype EligibilityError = Configuration | ContextMismatch | DeKyx string

definition EligibilityError_to_string :: "EligibilityError \<Rightarrow> string" where
  "EligibilityError_to_string e = (case e of
     Configuration \<Rightarrow> ''invalid OCLOB DeKYX configuration''
   | ContextMismatch \<Rightarrow> ''anonymous qualification is not bound to this exact order''
   | DeKyx m \<Rightarrow> ''DeKYX rejected the anonymous qualification: '' @ m)"

section \<open>Operations\<close>

definition OclobEligibilityVerifier_new ::
  "'l dekyx_host \<Rightarrow> u8 list \<Rightarrow> EligibilityRequirement \<Rightarrow> Digest32 \<Rightarrow> Digest32 \<Rightarrow>
   EligibilityError + 'l OclobEligibilityVerifier" where
  "OclobEligibilityVerifier_new X directory requirement audience action =
     andThen (fail_if (audience = 0 \<or> action = 0 \<or> \<not> er_subject_is_legal_entity requirement) Configuration) (\<lambda>_.
     andThen (map_err DeKyx (directory_verifier X directory (er_issuer_id requirement)
       (er_issuer_key_epoch requirement))) (\<lambda>_.
     Inr \<lparr>ev_directory = directory, ev_requirement = requirement, ev_consumed = ledger_default X,
          ev_audience_digest = audience, ev_action_digest = action\<rparr>))"

definition context_mismatch ::
  "'l OclobEligibilityVerifier \<Rightarrow> Digest32 \<Rightarrow> Digest32 \<Rightarrow> u64 \<Rightarrow> AnonymousPresentation \<Rightarrow> bool" where
  "context_mismatch v order_commitment order_nullifier order_expires_at evidence \<longleftrightarrow>
     px_scope_digest (ap_context evidence) \<noteq> er_scope_digest (ev_requirement v)
     \<or> px_audience_digest (ap_context evidence) \<noteq> ev_audience_digest v
     \<or> px_action_digest (ap_context evidence) \<noteq> ev_action_digest v
     \<or> px_request_digest (ap_context evidence) \<noteq> order_commitment
     \<or> px_valid_until (ap_context evidence) < order_expires_at
     \<or> ap_nullifier evidence \<noteq> order_nullifier"

definition verify_order ::
  "'l dekyx_host \<Rightarrow> 'l OclobEligibilityVerifier \<Rightarrow> Digest32 \<Rightarrow> Digest32 \<Rightarrow> u64 \<Rightarrow> AnonymousPresentation \<Rightarrow> u64 \<Rightarrow>
   (EligibilityError + VerifiedOrderEligibility) \<times> 'l OclobEligibilityVerifier" where
  "verify_order X v order_commitment order_nullifier order_expires_at evidence now =
     guarded (fail_if (context_mismatch v order_commitment order_nullifier order_expires_at evidence)
       ContextMismatch) v (\<lambda>_.
     guarded (map_err DeKyx (directory_verifier X (ev_directory v) (er_issuer_id (ev_requirement v))
       (er_issuer_key_epoch (ev_requirement v)))) v (\<lambda>verifier.
     guarded (map_err DeKyx (verify_eligibility X verifier (ev_requirement v) (ap_context evidence) evidence now)) v
       (\<lambda>verified.
     let (r, consumed) = ledger_consume X (ev_consumed v) (ve_subject_nullifier verified) (ap_context evidence) in
     (map_sum DeKyx (\<lambda>_. verified) r, v\<lparr>ev_consumed := consumed\<rparr>))))"

lemma map_sum_eq_Inr: "map_sum f h r = Inr y \<longleftrightarrow> (\<exists>x. r = Inr x \<and> y = h x)"
  by (cases r) auto

lemma verify_order_ok:
  assumes "verify_order X v c n e ev now = (Inr verified, v')"
  shows "\<not> context_mismatch v c n e ev"
    and "ledger_consume X (ev_consumed v) (ve_subject_nullifier verified) (ap_context ev) = (Inr (), ev_consumed v')"
    and "v' = v\<lparr>ev_consumed := ev_consumed v'\<rparr>"
proof -
  from assms have "fst (ledger_consume X (ev_consumed v) (ve_subject_nullifier verified) (ap_context ev)) = Inr ()
      \<and> v' = v\<lparr>ev_consumed := snd (ledger_consume X (ev_consumed v) (ve_subject_nullifier verified) (ap_context ev))\<rparr>
      \<and> \<not> context_mismatch v c n e ev"
    by (auto simp: verify_order_def guarded_ok fail_if_eq_Inr map_sum_eq_Inr Let_def split_def)
  then show "\<not> context_mismatch v c n e ev"
    "ledger_consume X (ev_consumed v) (ve_subject_nullifier verified) (ap_context ev) = (Inr (), ev_consumed v')"
    "v' = v\<lparr>ev_consumed := ev_consumed v'\<rparr>"
    by (simp_all add: prod_eq_iff)
qed

end
