(* ===== verification/Canonical_Transitions.thy ===== *)
theory Canonical_Transitions
  imports Settlement
begin

text \<open>
  The two-phase canonical protocol of \<open>oclob-settlement/src/lib.rs\<close>: a reservation or a settlement batch is
  first prepared on a candidate engine, with its account deltas and the digest that binds them, and
  replaces the live engine only when the canonical chain's acceptance of that digest arrives and the live
  engine is still the one it was prepared from. The construction of a zkPI for the reserved maximum, with
  its randomness, belongs to other packages: it is the argument \<open>issue\<close>, which returns the encoded
  instruction and its nullifier.
\<close>

section \<open>Data\<close>

record CanonicalSettlementAcceptance =
  sa_transaction_id :: rust_str
  sa_block_id :: rust_str
  sa_height :: u64
  sa_statement :: Digest32
  sa_before_state_root :: Digest32
  sa_after_state_root :: Digest32
  sa_receipt_digest :: Digest32
  sa_application_binding :: Digest32
  sa_binding_digest :: Digest32

record PreparedCanonicalBatch =
  pcb_optimistic :: "OptimisticSettlementReference option"
  pcb_candidate :: SettlementEngine
  pcb_base_snapshot :: SettlementStateSnapshot
  pcb_receipt :: OclobSettlementReceipt
  pcb_market_id :: rust_str
  pcb_transition_digest :: Digest32
  pcb_payment_instruction_digest :: Digest32
  pcb_proof_digest :: Digest32
  pcb_application_binding :: Digest32
  pcb_binding_digest :: Digest32
  pcb_account_openings :: "CanonicalAccountOpening list"
  pcb_account_deltas :: "CanonicalAccountDelta list"
  pcb_deadline :: u64

record PreparedCanonicalReservation =
  pcr_optimistic :: "OptimisticSettlementReference option"
  pcr_candidate :: SettlementEngine
  pcr_base_snapshot :: SettlementStateSnapshot
  pcr_receipt :: ReservationReceipt
  pcr_market_id :: rust_str
  pcr_transition_digest :: Digest32
  pcr_payment_instruction_digest :: Digest32
  pcr_proof_digest :: Digest32
  pcr_instruction_nullifier :: Digest32
  pcr_application_binding :: Digest32
  pcr_binding_digest :: Digest32
  pcr_account_openings :: "CanonicalAccountOpening list"
  pcr_account_deltas :: "CanonicalAccountDelta list"
  pcr_deadline :: u64

datatype PreparedCanonicalTransition =
    PreparedReservation PreparedCanonicalReservation
  | PreparedSettlement PreparedCanonicalBatch

datatype AppliedCanonicalTransition =
    AppliedReservation ReservationReceipt
  | AppliedSettlement OclobSettlementReceipt

section \<open>Acceptance\<close>

definition verify_acceptance ::
  "CanonicalSettlementAcceptance \<Rightarrow> Digest32 \<Rightarrow> Digest32 \<Rightarrow> SettlementError + unit" where
  "verify_acceptance x application binding =
     fail_if (sa_transaction_id x = [] \<or> sa_block_id x = [] \<or> sa_height x = 0 \<or> sa_statement x = 0
       \<or> sa_receipt_digest x = 0 \<or> sa_before_state_root x = sa_after_state_root x
       \<or> sa_application_binding x \<noteq> application \<or> sa_binding_digest x \<noteq> binding)
       (Finality ''canonical settlement acceptance is incomplete'')"

definition batch_accept ::
  "crypto \<Rightarrow> defmi \<Rightarrow> PreparedCanonicalBatch \<Rightarrow> SettlementEngine \<Rightarrow> CanonicalSettlementAcceptance \<Rightarrow>
   (SettlementError + OclobSettlementReceipt) \<times> SettlementEngine" where
  "batch_accept E D p g x =
     guarded (fail_if (state_snapshot E D g \<noteq> pcb_base_snapshot p) CanonicalDivergence) g (\<lambda>_.
     guarded (verify_acceptance x (pcb_application_binding p) (pcb_binding_digest p)) g (\<lambda>_.
     (Inr ((pcb_receipt p)\<lparr>sr_canonical_state_root := sa_after_state_root x,
             sr_canonical_receipt_digest := sa_receipt_digest x, sr_canonical_height := sa_height x,
             sr_avalanche_transaction_id := Some (sa_transaction_id x),
             sr_avalanche_block_id := Some (sa_block_id x)\<rparr>),
      (pcb_candidate p)\<lparr>se_height := sa_height x\<rparr>)))"

definition reservation_accept ::
  "crypto \<Rightarrow> defmi \<Rightarrow> PreparedCanonicalReservation \<Rightarrow> SettlementEngine \<Rightarrow> CanonicalSettlementAcceptance \<Rightarrow>
   (SettlementError + ReservationReceipt) \<times> SettlementEngine" where
  "reservation_accept E D p g x =
     guarded (fail_if (state_snapshot E D g \<noteq> pcr_base_snapshot p) CanonicalDivergence) g (\<lambda>_.
     guarded (verify_acceptance x (pcr_application_binding p) (pcr_binding_digest p)) g (\<lambda>_.
     (Inr ((pcr_receipt p)\<lparr>rc_canonical_receipt_digest := sa_receipt_digest x,
             rc_canonical_height := sa_height x,
             rc_avalanche_transaction_id := Some (sa_transaction_id x),
             rc_avalanche_block_id := Some (sa_block_id x)\<rparr>),
      (pcr_candidate p)\<lparr>se_height := sa_height x\<rparr>)))"

definition canonical_accept ::
  "crypto \<Rightarrow> defmi \<Rightarrow> PreparedCanonicalTransition \<Rightarrow> SettlementEngine \<Rightarrow> CanonicalSettlementAcceptance \<Rightarrow>
   (SettlementError + AppliedCanonicalTransition) \<times> SettlementEngine" where
  "canonical_accept E D t g x = (case t of
     PreparedReservation p \<Rightarrow> (let (r, g') = reservation_accept E D p g x in (map_sum id AppliedReservation r, g'))
   | PreparedSettlement p \<Rightarrow> (let (r, g') = batch_accept E D p g x in (map_sum id AppliedSettlement r, g')))"

fun canonical_binding :: "PreparedCanonicalTransition \<Rightarrow> Digest32" where
  "canonical_binding (PreparedReservation p) = pcr_binding_digest p"
| "canonical_binding (PreparedSettlement p) = pcb_binding_digest p"

definition operation_id :: "crypto \<Rightarrow> PreparedCanonicalTransition \<Rightarrow> Digest32" where
  "operation_id E t = domain_digest E ''OCLOB:DEFMI:CANONICAL-OPERATION:v1'' (to_be_bytes (canonical_binding t))"

fun transition_nullifier :: "crypto \<Rightarrow> PreparedCanonicalTransition \<Rightarrow> Digest32" where
  "transition_nullifier E (PreparedReservation p) = pcr_instruction_nullifier p"
| "transition_nullifier E (PreparedSettlement p) =
     domain_digest E ''OCLOB:DEFMI:SETTLEMENT-NULLIFIER:v1'' (to_be_bytes (sr_batch_digest (pcb_receipt p)))"

section \<open>Preparation\<close>

type_synonym zkpi_issue =
  "SettlementOrderView \<Rightarrow> RistrettoPoint \<Rightarrow> Digest32 \<Rightarrow> Digest32 \<Rightarrow> u64 \<Rightarrow> SettlementError + u8 list \<times> Digest32"

definition build_reservation_zkpi ::
  "crypto \<Rightarrow> zkpi_issue \<Rightarrow> SettlementEngine \<Rightarrow> SettlementOrderView \<Rightarrow> Digest32 \<Rightarrow> u64 \<Rightarrow>
   SettlementError + Digest32 \<times> Digest32 \<times> Digest32" where
  "build_reservation_zkpi E issue g v transition_digest now =
     andThen (fail_if (settlement_expires_at v < now \<or> saturating_add now 3600 < settlement_expires_at v)
       (Reservation ''canonical reservation expiry is outside the one-hour zkPI horizon'')) (\<lambda>_.
     andThen (ok_or (btree_get (participants g) (settlement_participant_handle v))
       (Reservation ''participant account is absent'')) (\<lambda>p.
     let nonce = domain_digest E ''OCLOB:ZKPI:RESERVATION-NONCE:v1''
                   (to_be_bytes (commitment_bytes (settlement_commitment v)) @ to_be_bytes transition_digest) in
     andThen (issue v (pb_handle p) nonce transition_digest now) (\<lambda>(wire, nullifier).
     Inr (sha256 E wire, nullifier, domain_digest E ''OCLOB:ZKPI:RESERVATION-RANGES:v1'' wire))))"

text \<open>The candidate must be one step ahead of the live engine and differ from it in the reservation root only.\<close>

definition reservation_delta_ok ::
  "crypto \<Rightarrow> rust_str \<Rightarrow> CanonicalAccountDelta list \<Rightarrow> bool" where
  "reservation_delta_ok E market ds \<longleftrightarrow> (case ds of
     [d] \<Rightarrow> ad_handle d = canonical_reservation_state_handle E market
        \<and> ad_asset_id d = canonical_reservation_state_asset_id E market
   | _ \<Rightarrow> False)"

definition receipt_matches ::
  "SettlementStateSnapshot \<Rightarrow> SettlementStateSnapshot \<Rightarrow> ReservationReceipt \<Rightarrow> SettlementOrderView \<Rightarrow> bool" where
  "receipt_matches base candidate receipt v \<longleftrightarrow> ss_height candidate = saturating_add (ss_height base) 1
     \<and> ss_securities_root candidate = ss_securities_root base \<and> ss_cash_root candidate = ss_cash_root base
     \<and> rc_order_commitment receipt = commitment_bytes (settlement_commitment v)
     \<and> rc_reservation_id receipt = settlement_reservation_id v
     \<and> rc_reserved receipt = settlement_reservation_limit v
     \<and> rc_state_root receipt = ss_reservation_root candidate"

definition prepare_canonical_reservation ::
  "crypto \<Rightarrow> defmi \<Rightarrow> zkpi_issue \<Rightarrow> SettlementEngine \<Rightarrow> SettlementEngine \<Rightarrow> ReservationReceipt \<Rightarrow>
   SettlementOrderView \<Rightarrow> OrderCertificate \<Rightarrow> TransitionAuthorization \<Rightarrow> u64 \<Rightarrow>
   SettlementError + PreparedCanonicalTransition" where
  "prepare_canonical_reservation E D issue g candidate receipt v t a now =
     (let base = state_snapshot E D g; after = state_snapshot E D candidate;
          market = settlement_market_id v; transition_digest = auth_digest E a in
      andThen (map_err (\<lambda>e. Proof (ProofError_to_string e))
        (auth_admission_binding E a t (transition_committee_trust_root g))) (\<lambda>_.
      andThen (validate_active_order (reservations candidate) v) (\<lambda>_.
      andThen (fail_if (\<not> receipt_matches base after receipt v) CanonicalDivergence) (\<lambda>_.
      andThen (canonical_account_openings E D g market) (\<lambda>openings.
      andThen (canonical_account_openings E D candidate market) (\<lambda>after_accounts.
      andThen (canonical_account_deltas openings after_accounts) (\<lambda>ds.
      andThen (fail_if (\<not> reservation_delta_ok E market ds
        \<or> map ad_before_commitment ds \<noteq> [ss_reservation_root base]
        \<or> map ad_after_commitment ds \<noteq> [ss_reservation_root after]) CanonicalDivergence) (\<lambda>_.
      andThen (build_reservation_zkpi E issue g v transition_digest now) (\<lambda>(payment, nullifier, ranges).
      let proof_digest = domain_digest E ''OCLOB:DEFMI:RESERVATION-PROOF:v1''
            (to_be_bytes transition_digest @ to_be_bytes (eligibility_proof_digest (auth_statement a))
             @ to_be_bytes ranges) in
      andThen (map_err Finality (manifest_digest D)) (\<lambda>application.
      Inr (PreparedReservation
        \<lparr>pcr_optimistic = auth_reference a, pcr_candidate = candidate, pcr_base_snapshot = base,
         pcr_receipt = receipt\<lparr>rc_zkpi_digest := Some payment, rc_instruction_nullifier := Some nullifier,
           rc_proof_digest := Some proof_digest\<rparr>,
         pcr_market_id = market, pcr_transition_digest = transition_digest,
         pcr_payment_instruction_digest = payment, pcr_proof_digest = proof_digest,
         pcr_instruction_nullifier = nullifier, pcr_application_binding = application,
         pcr_binding_digest = canonical_binding_digest E application (rc_order_commitment receipt)
           transition_digest payment proof_digest (ss_reservation_root base) (ss_reservation_root after) ds,
         pcr_account_openings = openings, pcr_account_deltas = ds,
         pcr_deadline = settlement_expires_at v\<rparr>)))))))))))"

text \<open>A settled batch as a canonical candidate: \<open>out\<close> is what settling a clone of the live engine returned.\<close>

definition prepare_settled ::
  "crypto \<Rightarrow> defmi \<Rightarrow> SettlementEngine \<Rightarrow> TransitionAuthorization \<Rightarrow> SettlementOrderView \<Rightarrow> u64 \<Rightarrow>
   (SettlementError + OclobSettlementReceipt) \<times> SettlementEngine \<Rightarrow> SettlementError + PreparedCanonicalBatch" where
  "prepare_settled E D g a v now out =
     (let market = settlement_market_id v; transition_digest = auth_digest E a in
      andThen (canonical_account_openings E D g market) (\<lambda>openings.
      let (r, candidate) = out in
      andThen r (\<lambda>receipt.
      andThen (canonical_account_openings E D candidate market) (\<lambda>after_accounts.
      andThen (canonical_account_deltas openings after_accounts) (\<lambda>ds.
      andThen (fail_if (ds = []) CanonicalDivergence) (\<lambda>_.
      andThen (map_err Finality (manifest_digest D)) (\<lambda>application.
      let payment = digest_member_field E ''OCLOB:ZKPI-BATCH:v1'' (sr_members receipt) sm_zkpi_digest;
          proof_digest = digest_member_field E ''OCLOB:DVP-PROOF-BATCH:v1'' (sr_members receipt) sm_package_digest in
      andThen (ok_or (checked_add now 600) (Finality ''settlement deadline overflowed'')) (\<lambda>deadline.
      Inr \<lparr>pcb_optimistic = auth_reference a, pcb_candidate = candidate,
           pcb_base_snapshot = state_snapshot E D g, pcb_receipt = receipt, pcb_market_id = market,
           pcb_transition_digest = transition_digest, pcb_payment_instruction_digest = payment,
           pcb_proof_digest = proof_digest, pcb_application_binding = application,
           pcb_binding_digest = canonical_binding_digest E application (sr_batch_digest receipt)
             transition_digest payment proof_digest (sr_reservation_before_root receipt)
             (sr_reservation_after_root receipt) ds,
           pcb_account_openings = openings, pcb_account_deltas = ds, pcb_deadline = deadline\<rparr>))))))))"

definition prepare_canonical_batch_collaborative ::
  "crypto \<Rightarrow> defmi \<Rightarrow> SettlementEngine \<Rightarrow> PublicFill list \<Rightarrow> CollaborativeFillProof list \<Rightarrow> Digest32 \<Rightarrow>
   TransitionAuthorization \<Rightarrow> SettlementOrderView \<Rightarrow> u64 \<Rightarrow> u64 \<Rightarrow> SettlementError + PreparedCanonicalBatch" where
  "prepare_canonical_batch_collaborative E D g fills proofs round_id a v left now =
     prepare_settled E D g a v now
       (settle_batch_collaborative E D g fills proofs round_id a (settlement_commitment v) left now)"

text \<open>The arriving order's reservation and the delivery against payment as one transition from the live
  engine: the batch is prepared on the reserved candidate and then rebased. The two settlement paths use
  different domain labels.\<close>

definition rebase_batch ::
  "crypto \<Rightarrow> string \<Rightarrow> string \<Rightarrow> SettlementStateSnapshot \<Rightarrow> CanonicalAccountOpening list \<Rightarrow>
   CanonicalAccountDelta list \<Rightarrow> Digest32 \<times> Digest32 \<times> Digest32 \<Rightarrow> SettlementOrderView \<Rightarrow> PreparedCanonicalBatch \<Rightarrow>
   PreparedCanonicalBatch" where
  "rebase_batch E payment_label proof_label base openings ds rz v p =
     (let (rz_payment, rz_nullifier, rz_proof) = rz;
          payment = domain_digest E payment_label
            (to_be_bytes rz_payment @ to_be_bytes (pcb_payment_instruction_digest p));
          proof_digest = domain_digest E proof_label
            (to_be_bytes rz_proof @ to_be_bytes (pcb_proof_digest p));
          receipt = (pcb_receipt p)\<lparr>sr_reservation_before_root := ss_reservation_root base,
            sr_arriving_reservation_zkpi_digest := Some rz_payment,
            sr_arriving_reservation_instruction_nullifier := Some rz_nullifier,
            sr_arriving_reservation_proof_digest := Some rz_proof\<rparr> in
      p\<lparr>pcb_base_snapshot := base, pcb_account_openings := openings, pcb_account_deltas := ds,
        pcb_receipt := receipt, pcb_payment_instruction_digest := payment, pcb_proof_digest := proof_digest,
        pcb_deadline := min (pcb_deadline p) (settlement_expires_at v),
        pcb_binding_digest := canonical_binding_digest E (pcb_application_binding p) (sr_batch_digest receipt)
          (pcb_transition_digest p) payment proof_digest (sr_reservation_before_root receipt)
          (sr_reservation_after_root receipt) ds\<rparr>)"

text \<open>The admission of a filled order; \<open>prepared\<close> is the batch prepared on the reserved candidate.\<close>

definition prepare_admission ::
  "crypto \<Rightarrow> defmi \<Rightarrow> zkpi_issue \<Rightarrow> string \<Rightarrow> string \<Rightarrow> SettlementEngine \<Rightarrow> SettlementEngine \<Rightarrow> ReservationReceipt \<Rightarrow>
   PublicFill list \<Rightarrow> TransitionAuthorization \<Rightarrow> OrderCertificate \<Rightarrow> SettlementOrderView \<Rightarrow> u64 \<Rightarrow>
   SettlementError + PreparedCanonicalBatch \<Rightarrow> SettlementError + PreparedCanonicalTransition" where
  "prepare_admission E D issue payment_label proof_label g reserved receipt fills a t v now prepared =
     (let base = state_snapshot E D g; after = state_snapshot E D reserved;
          market = settlement_market_id v; transition_digest = auth_digest E a in
      andThen (map_err (\<lambda>e. Proof (ProofError_to_string e)) (auth_execution_binding E a t
        (settlement_commitment v) fills (transition_committee_trust_root g))) (\<lambda>_.
      andThen (validate_active_order (reservations reserved) v) (\<lambda>_.
      andThen (fail_if (\<not> receipt_matches base after receipt v
        \<or> spent_instructions reserved \<noteq> spent_instructions g) CanonicalDivergence) (\<lambda>_.
      andThen (canonical_account_openings E D g market) (\<lambda>openings.
      andThen (canonical_account_openings E D reserved market) (\<lambda>reserved_accounts.
      andThen (canonical_account_deltas openings reserved_accounts) (\<lambda>reservation_delta.
      andThen (fail_if (\<not> reservation_delta_ok E market reservation_delta) CanonicalDivergence) (\<lambda>_.
      andThen (build_reservation_zkpi E issue g v transition_digest now) (\<lambda>(payment, nullifier, ranges).
      let rz_proof = domain_digest E ''OCLOB:DEFMI:ADMISSION-RESERVATION-PROOF:v1''
            (to_be_bytes transition_digest @ to_be_bytes (certificate_digest E t)
             @ to_be_bytes (eligibility_proof_digest (auth_statement a)) @ to_be_bytes ranges) in
      andThen prepared (\<lambda>p.
      andThen (canonical_account_openings E D (pcb_candidate p) market) (\<lambda>after_accounts.
      andThen (canonical_account_deltas openings after_accounts) (\<lambda>ds.
      andThen (fail_if (\<not> list_ex (\<lambda>d. ad_handle d = canonical_reservation_state_handle E market
          \<and> ad_asset_id d = canonical_reservation_state_asset_id E market
          \<and> ad_before_commitment d = ss_reservation_root base
          \<and> ad_after_commitment d = sr_reservation_after_root (pcb_receipt p)) ds) CanonicalDivergence) (\<lambda>_.
      Inr (PreparedSettlement (rebase_batch E payment_label proof_label base openings ds
        (payment, nullifier, rz_proof) v p)))))))))))))))"

definition prepare_canonical_admission_batch_collaborative ::
  "crypto \<Rightarrow> defmi \<Rightarrow> zkpi_issue \<Rightarrow> SettlementEngine \<Rightarrow> SettlementEngine \<Rightarrow> ReservationReceipt \<Rightarrow>
   PublicFill list \<Rightarrow> CollaborativeFillProof list \<Rightarrow> Digest32 \<Rightarrow> TransitionAuthorization \<Rightarrow> OrderCertificate \<Rightarrow>
   SettlementOrderView \<Rightarrow> u64 \<Rightarrow> u64 \<Rightarrow> SettlementError + PreparedCanonicalTransition" where
  "prepare_canonical_admission_batch_collaborative E D issue g reserved receipt fills proofs round_id a t v left now =
     prepare_admission E D issue ''OCLOB:ZKPI-ADMISSION-AND-DVP:v2''
       ''OCLOB:ADMISSION-AND-COLLABORATIVE-DVP-PROOF:v1'' g reserved receipt fills a t v now
       (prepare_canonical_batch_collaborative E D reserved fills proofs round_id a v left now)"

end
