(* ===== verification/Local_Settlement.thy ===== *)
theory Local_Settlement
  imports Canonical_Transitions
begin

text \<open>
  The settlement path of \<open>oclob-settlement/src/lib.rs\<close> that holds every opening, \<open>settle_batch\<close>, and its
  canonical preparations. The service of \<open>oclob-service\<close> uses it. The proof systems it drives belong to
  other packages: dealing and proving ranges, assembling, signing and sealing an instruction, building a
  delivery-versus-payment package with the balances it carries, and the ledger's own verifier are the record
  \<open>dvp_kit\<close>. What each fill draws at random is the
  argument \<open>rnd\<close>, one entry of \<open>fr_seed\<close> for each call that draws.
\<close>

section \<open>What local settlement calls of other packages\<close>

type_synonym scalar = "256 word"

record ValueShares =
  vs_commitment :: RistrettoPoint
  vs_shares :: "u8 list"

record Holdings =
  hd_securities_balance :: u64
  hd_securities_blinding :: scalar
  hd_cash_balance :: u64
  hd_cash_blinding :: scalar

record Carry =
  cy_securities_balance :: u64
  cy_securities_blinding :: scalar
  cy_cash_balance :: u64
  cy_cash_blinding :: scalar
  cy_cash_amount_blinding :: scalar
  cy_securities_amount_blinding :: scalar

record DvpPackage =
  dp_instruction :: Instruction
  dp_evidence :: "u8 list"

record DefmiReceipt =
  dr_status :: "string + unit"
  dr_securities_after :: Digest32
  dr_cash_after :: Digest32

record fill_random =
  fr_amount_blinding :: scalar
  fr_price_blinding :: scalar
  fr_asset_blinding :: scalar
  fr_seed :: "nat \<Rightarrow> u8 list"

record dvp_kit =
  commit_u64 :: "u64 \<Rightarrow> scalar \<Rightarrow> RistrettoPoint"
  commit_scalar :: "scalar \<Rightarrow> scalar \<Rightarrow> RistrettoPoint"
  scalar_add :: "scalar \<Rightarrow> scalar \<Rightarrow> scalar"
  deal_bits :: "u64 \<Rightarrow> scalar \<Rightarrow> u8 list \<Rightarrow> string + ValueShares"
  node_contribution :: "ValueShares \<Rightarrow> nat \<Rightarrow> u8 list option"
  amount_range_context :: "u8 list"
  price_range_context :: "u8 list"
  joint_prove_range :: "u8 list list \<Rightarrow> u8 list \<Rightarrow> u8 list \<Rightarrow> string + u8 list"
  from_threshold_ranges :: "RistrettoPoint \<Rightarrow> RistrettoPoint \<Rightarrow> RistrettoPoint \<Rightarrow> u8 list \<Rightarrow> u8 list \<Rightarrow>
    RistrettoPoint \<Rightarrow> RistrettoPoint \<Rightarrow> u64 \<Rightarrow> Digest32 \<Rightarrow> Digest32 \<Rightarrow> string + u8 list"
  partial_digest :: "u8 list \<Rightarrow> u8 list"
  partial_sealed :: "u8 list \<Rightarrow> u8 list \<Rightarrow> Instruction"
  instruction_digest :: "Instruction \<Rightarrow> u8 list"
  signing_shares :: "nat list"
  round1_commit :: "nat \<Rightarrow> u8 list \<Rightarrow> u8 list \<times> u8 list"
  signing_package :: "(nat \<times> u8 list) list \<Rightarrow> u8 list \<Rightarrow> u8 list"
  round2_sign :: "u8 list \<Rightarrow> u8 list \<Rightarrow> nat \<Rightarrow> u8 list option"
  frost_aggregate :: "u8 list \<Rightarrow> (nat \<times> u8 list) list \<Rightarrow> u8 list option"
  build_package :: "Instruction \<Rightarrow> ledger \<Rightarrow> ledger \<Rightarrow> u64 \<Rightarrow> u64 \<Rightarrow> Holdings \<Rightarrow> scalar \<Rightarrow> scalar \<Rightarrow> u8 list \<Rightarrow>
    string + DvpPackage \<times> Carry"
  dvp_package_digest :: "DvpPackage \<Rightarrow> Digest32"
  defmi_settle :: "ledger \<Rightarrow> ledger \<Rightarrow> DvpPackage \<Rightarrow> u64 \<Rightarrow> u8 list \<Rightarrow> DefmiReceipt"

section \<open>One fill\<close>

definition PROOF_QUORUM :: "nat list" where
  "PROOF_QUORUM = [1, 2, 3]"

definition ASSET_INDEX :: scalar where
  "ASSET_INDEX = 3"

definition prove_range :: "dvp_kit \<Rightarrow> ValueShares \<Rightarrow> u8 list \<Rightarrow> u8 list \<Rightarrow> SettlementError + u8 list" where
  "prove_range K vs context seed =
     andThen (collect_results (map (\<lambda>party. ok_or (node_contribution K vs party)
       (Proof (''missing proof party '' @ [char_of (48 + party)]))) PROOF_QUORUM)) (\<lambda>contributions.
     map_err Proof (joint_prove_range K contributions context seed))"

definition sign_threshold :: "dvp_kit \<Rightarrow> u8 list \<Rightarrow> u8 list \<Rightarrow> SettlementError + u8 list" where
  "sign_threshold K message seed =
     (let selected = take (length PROOF_QUORUM) (signing_shares K);
          rounds = map (\<lambda>i. (i, round1_commit K i seed)) selected;
          package = signing_package K (map (\<lambda>(i, _, c). (i, c)) rounds) message in
      andThen (collect_results (map (\<lambda>(i, n, _). map_sum id (Pair i) (ok_or (round2_sign K package n i)
        (Proof ''FROST signer refused''))) rounds)) (\<lambda>signatures.
      ok_or (frost_aggregate K package signatures) (Proof ''FROST aggregation failed'')))"

definition zkpi_nonce :: "crypto \<Rightarrow> Digest32 \<Rightarrow> nat \<Rightarrow> PublicFill \<Rightarrow> Digest32" where
  "zkpi_nonce E transition_digest index f = sha256 E (bytes_of ''OCLOB:ZKPI-NONCE:v2'' @ to_be_bytes transition_digest
     @ to_be_bytes (of_nat index :: u64) @ to_be_bytes (commitment_bytes (maker_order f))
     @ to_be_bytes (commitment_bytes (taker_order f)) @ to_be_bytes (fill_price f) @ to_be_bytes (fill_quantity f))"

text \<open>The sealed instruction of a fill between a buyer and a seller.\<close>

definition seal_instruction ::
  "crypto \<Rightarrow> dvp_kit \<Rightarrow> Digest32 \<Rightarrow> nat \<Rightarrow> PublicFill \<Rightarrow> RistrettoPoint \<Rightarrow> RistrettoPoint \<Rightarrow> u64 \<Rightarrow> fill_random \<Rightarrow>
   SettlementError + Instruction" where
  "seal_instruction E K transition_digest index f buyer_point seller_point now rnd =
     andThen (map_err Proof (deal_bits K (fill_quantity f) (fr_amount_blinding rnd) (fr_seed rnd 1))) (\<lambda>amount.
     andThen (map_err Proof (deal_bits K (fill_price f) (fr_price_blinding rnd) (fr_seed rnd 2))) (\<lambda>price.
     andThen (prove_range K amount (amount_range_context K) (fr_seed rnd 3)) (\<lambda>amount_range.
     andThen (prove_range K price (price_range_context K) (fr_seed rnd 4)) (\<lambda>price_range.
     andThen (map_err Cryptography (from_threshold_ranges K (vs_commitment amount) (vs_commitment price)
       (commit_scalar K ASSET_INDEX (fr_asset_blinding rnd)) amount_range price_range buyer_point seller_point
       (saturating_add now 600) (zkpi_nonce E transition_digest index f) transition_digest)) (\<lambda>partial.
     andThen (sign_threshold K (partial_digest K partial) (fr_seed rnd 5)) (\<lambda>sig.
     let instruction = partial_sealed K partial sig in
     andThen (fail_if (\<not> in_ranges_threshold instruction)
       (Proof ''zkPI was not assembled from threshold range proofs'')) (\<lambda>_. Inr instruction)))))))"

definition opening_or :: "string \<Rightarrow> ConfidentialBalance \<Rightarrow> SettlementError + scalar" where
  "opening_or rail b = ok_or (cb_opening b)
     (Proof (''legacy settlement cannot reopen an MPC-updated '' @ rail @ '' account''))"

text \<open>The balances the package carries forward, opened again.\<close>

definition carry_balances ::
  "dvp_kit \<Rightarrow> ParticipantBalances \<Rightarrow> ParticipantBalances \<Rightarrow> scalar \<Rightarrow> scalar \<Rightarrow> u64 \<Rightarrow> u64 \<Rightarrow> Carry \<Rightarrow>
   SettlementError + ParticipantBalances \<times> ParticipantBalances" where
  "carry_balances K seller buyer seller_cash_opening buyer_securities_opening qty cash_value carry =
     andThen (checked_credit (cb_value (pb_cash seller)) cash_value) (\<lambda>seller_cash.
     andThen (checked_credit (cb_value (pb_securities buyer)) qty) (\<lambda>buyer_securities.
     Inr (seller\<lparr>pb_securities := opened_balance (commit_u64 K) (cy_securities_balance carry)
                    (cy_securities_blinding carry),
                 pb_cash := opened_balance (commit_u64 K) seller_cash
                    (scalar_add K seller_cash_opening (cy_cash_amount_blinding carry))\<rparr>,
          buyer\<lparr>pb_cash := opened_balance (commit_u64 K) (cy_cash_balance carry) (cy_cash_blinding carry),
                pb_securities := opened_balance (commit_u64 K) buyer_securities
                    (scalar_add K buyer_securities_opening (cy_securities_amount_blinding carry))\<rparr>)))"

definition local_fill ::
  "crypto \<Rightarrow> defmi \<Rightarrow> dvp_kit \<Rightarrow> rust_str \<Rightarrow> Digest32 \<Rightarrow> u64 \<Rightarrow> nat \<Rightarrow> PublicFill \<Rightarrow> fill_random \<Rightarrow> settle_state \<Rightarrow>
   SettlementError + settle_state" where
  "local_fill E D K market transition_digest now index f rnd st =
     (let (r, b) = consume_fill (st_reservations st) f market now in
      andThen r (\<lambda>c.
      andThen (fail_if (seller_handle c = buyer_handle c)
        (Reservation ''self-trading orders cannot produce a DvP between one account'')) (\<lambda>_.
      andThen (ok_or (btree_get (st_participants st) (seller_handle c))
        (Reservation ''seller account is absent'')) (\<lambda>seller.
      andThen (ok_or (btree_get (st_participants st) (buyer_handle c))
        (Reservation ''buyer account is absent'')) (\<lambda>buyer.
      andThen (seal_instruction E K transition_digest index f (pb_handle buyer) (pb_handle seller) now rnd) (\<lambda>instruction.
      andThen (opening_or ''securities'' (pb_securities seller)) (\<lambda>seller_securities_opening.
      andThen (opening_or ''cash'' (pb_cash seller)) (\<lambda>seller_cash_opening.
      andThen (opening_or ''cash'' (pb_cash buyer)) (\<lambda>buyer_cash_opening.
      andThen (opening_or ''securities'' (pb_securities buyer)) (\<lambda>buyer_securities_opening.
      let (securities, cash) = ledgers_from_participants D (st_participants st) in
      andThen (map_err Cryptography (build_package K instruction securities cash (fill_quantity f) (fill_price f)
        \<lparr>hd_securities_balance = cb_value (pb_securities seller), hd_securities_blinding = seller_securities_opening,
         hd_cash_balance = cb_value (pb_cash buyer), hd_cash_blinding = buyer_cash_opening\<rparr>
        (fr_amount_blinding rnd) (fr_price_blinding rnd) (fr_seed rnd 6))) (\<lambda>(package, carry).
      let nullifier = instruction_nullifier D (dp_instruction package) in
      andThen (fail_if (nullifier \<in> st_spent st) ReplayAccepted) (\<lambda>_.
      let receipt = defmi_settle K securities cash package now (fr_seed rnd 7) in
      andThen (map_err Cryptography (dr_status receipt)) (\<lambda>_.
      andThen (ok_or (checked_mul (fill_price f) (fill_quantity f)) (Reservation ''cash fill overflowed'')) (\<lambda>cash_value.
      andThen (carry_balances K seller buyer seller_cash_opening buyer_securities_opening (fill_quantity f) cash_value
        carry) (\<lambda>(seller_after, buyer_after).
      let ps = btree_insert (buyer_handle c) buyer_after
                 (btree_insert (seller_handle c) seller_after (st_participants st));
          (securities', cash') = ledgers_from_participants D ps in
      andThen (fail_if (dr_securities_after receipt \<noteq> ledger_snapshot D securities'
        \<or> dr_cash_after receipt \<noteq> ledger_snapshot D cash') CanonicalDivergence) (\<lambda>_.
      Inr \<lparr>st_reservations = b, st_participants = ps, st_spent = insert nullifier (st_spent st),
           st_members = st_members st @
             [\<lparr>sm_instruction_nullifier = nullifier, sm_zkpi_digest = sha256 E (instruction_digest K instruction),
               sm_package_digest = dvp_package_digest K package,
               sm_maker_order = commitment_bytes (maker_order f),
               sm_taker_order = commitment_bytes (taker_order f),
               sm_maker_reservation_remaining = maker_remaining c,
               sm_taker_reservation_remaining = taker_remaining c\<rparr>]\<rparr>))))))))))))))))"

fun local_fills ::
  "crypto \<Rightarrow> defmi \<Rightarrow> dvp_kit \<Rightarrow> rust_str \<Rightarrow> Digest32 \<Rightarrow> u64 \<Rightarrow> (nat \<Rightarrow> fill_random) \<Rightarrow> nat \<Rightarrow> PublicFill list \<Rightarrow>
   settle_state \<Rightarrow> SettlementError + settle_state" where
  "local_fills E D K market transition_digest now rnd index [] st = Inr st"
| "local_fills E D K market transition_digest now rnd index (f # fs) st =
     andThen (local_fill E D K market transition_digest now index f (rnd index) st) (\<lambda>st'.
     local_fills E D K market transition_digest now rnd (Suc index) fs st')"

section \<open>The batch\<close>

definition local_precheck ::
  "crypto \<Rightarrow> SettlementEngine \<Rightarrow> PublicFill list \<Rightarrow> TransitionAuthorization \<Rightarrow> SettlementOrderView \<Rightarrow> u64 \<Rightarrow> u64 \<Rightarrow>
   SettlementError + unit" where
  "local_precheck E g fills a v left now =
     andThen (fail_if (fills = [] \<or> list_ex (\<lambda>f. fill_quantity f = 0 \<or> fill_price f = 0) fills) InvalidFill) (\<lambda>_.
     andThen (fail_if (list_ex (\<lambda>f. taker_order f \<noteq> settlement_commitment v) fills)
       (Reservation ''atomic batch contains a fill from another arriving order'')) (\<lambda>_.
     andThen (fail_if (settlement_expires_at v < now)
       (Reservation ''an expired arriving order cannot settle'')) (\<lambda>_.
     andThen (ok_or (checked_sum (map fill_quantity fills)) (Reservation ''fill quantity overflowed'')) (\<lambda>filled.
     andThen (fail_if (checked_add filled left \<noteq> Some (settlement_quantity v))
       (Reservation ''fills and arriving remainder do not conserve order quantity'')) (\<lambda>_.
     andThen (fail_if (\<not> distinct (map maker_order fills))
       (Reservation ''one resting order cannot appear twice in an atomic match batch'')) (\<lambda>_.
     map_err (\<lambda>e. Proof (ProofError_to_string e)) (auth_settlement_binding E a (settlement_market_id v)
       (settlement_commitment v) fills (transition_committee_trust_root g))))))))"

definition local_staged ::
  "crypto \<Rightarrow> defmi \<Rightarrow> dvp_kit \<Rightarrow> (nat \<Rightarrow> fill_random) \<Rightarrow> SettlementEngine \<Rightarrow> PublicFill list \<Rightarrow>
   TransitionAuthorization \<Rightarrow> SettlementOrderView \<Rightarrow> u64 \<Rightarrow> u64 \<Rightarrow> SettlementError + settle_state" where
  "local_staged E D K rnd g fills a v left now =
     andThen (local_precheck E g fills a v left now) (\<lambda>_.
     andThen (local_fills E D K (settlement_market_id v) (auth_digest E a) now rnd 0 fills
        \<lparr>st_reservations = reservations g, st_participants = participants g,
         st_spent = spent_instructions g, st_members = []\<rparr>) (\<lambda>st.
     let (q, b) = reconcile_arriving (st_reservations st) v left in
     andThen q (\<lambda>taker_left.
     andThen (refresh_all b (st_participants st)) (\<lambda>b'.
     let (securities, cash) = ledgers_from_participants D (st_participants st) in
     andThen (fail_if (\<not> ledger_conserved D securities \<or> \<not> ledger_conserved D cash) Insolvent) (\<lambda>_.
     andThen (fail_if (card (st_spent st) \<noteq> card (spent_instructions g) + length fills) ReplayAccepted) (\<lambda>_.
     Inr (st\<lparr>st_reservations := b', st_members := set_last_remaining taker_left (st_members st)\<rparr>)))))))"

definition settle_batch ::
  "crypto \<Rightarrow> defmi \<Rightarrow> dvp_kit \<Rightarrow> (nat \<Rightarrow> fill_random) \<Rightarrow> SettlementEngine \<Rightarrow> PublicFill list \<Rightarrow>
   TransitionAuthorization \<Rightarrow> SettlementOrderView \<Rightarrow> u64 \<Rightarrow> u64 \<Rightarrow>
   (SettlementError + OclobSettlementReceipt) \<times> SettlementEngine" where
  "settle_batch E D K rnd g fills a v left now =
     guarded (local_staged E D K rnd g fills a v left now) g (\<lambda>st. commit_staged E D g (auth_digest E a) st)"

section \<open>Canonical preparation\<close>

definition prepare_canonical_batch ::
  "crypto \<Rightarrow> defmi \<Rightarrow> dvp_kit \<Rightarrow> (nat \<Rightarrow> fill_random) \<Rightarrow> SettlementEngine \<Rightarrow> PublicFill list \<Rightarrow>
   TransitionAuthorization \<Rightarrow> SettlementOrderView \<Rightarrow> u64 \<Rightarrow> u64 \<Rightarrow> SettlementError + PreparedCanonicalBatch" where
  "prepare_canonical_batch E D K rnd g fills a v left now =
     prepare_settled E D g a v now (settle_batch E D K rnd g fills a v left now)"

definition prepare_canonical_admission_batch ::
  "crypto \<Rightarrow> defmi \<Rightarrow> dvp_kit \<Rightarrow> (nat \<Rightarrow> fill_random) \<Rightarrow> zkpi_issue \<Rightarrow> SettlementEngine \<Rightarrow> SettlementEngine \<Rightarrow>
   ReservationReceipt \<Rightarrow> PublicFill list \<Rightarrow> TransitionAuthorization \<Rightarrow> OrderCertificate \<Rightarrow>
   SettlementOrderView \<Rightarrow> u64 \<Rightarrow> u64 \<Rightarrow> SettlementError + PreparedCanonicalTransition" where
  "prepare_canonical_admission_batch E D K rnd issue g reserved receipt fills a t v left now =
     prepare_admission E D issue ''OCLOB:ZKPI-ADMISSION-AND-DVP:v1'' ''OCLOB:ADMISSION-AND-DVP-PROOF:v1''
       g reserved receipt fills a t v now (prepare_canonical_batch E D K rnd reserved fills a v left now)"

end
