(* ===== verification/Mpc_Circuit.thy ===== *)
theory Mpc_Circuit
  imports Private_Book
begin

text \<open>
  The matching circuit that \<open>oclob-mpc/src/lib.rs\<close> generates for the seven parties. A secret value is an
  integer: the circuit computes in a prime field of 253 bits with 64-bit comparisons, and the bounds under
  which its outputs are stated keep every value far below both. A comparison is a wire that is zero or
  one, and \<open>if_else\<close> is the selection the engine's library builds from it. The random wires of the
  settlement proofs are the argument \<open>rnd\<close>.
\<close>

section \<open>Wires\<close>

definition if_else :: "int \<Rightarrow> int \<Rightarrow> int \<Rightarrow> int" where
  "if_else c x y = c * (x - y) + y"

record order_wires =
  w_active :: int
  w_side :: int
  w_price :: int
  w_quantity :: int
  w_price_blinding :: int
  w_reserve :: int
  w_reserve_blinding :: int
  w_handle :: int

record arriving_wires =
  a_side :: int
  a_price :: int
  a_quantity :: int
  a_can_rest :: int
  a_price_blinding :: int
  a_reserve :: int
  a_reserve_blinding :: int
  a_handle :: int

text \<open>The order in which the circuit reads its private inputs.\<close>

definition read_slot :: "int list \<Rightarrow> nat \<Rightarrow> order_wires" where
  "read_slot vs i = \<lparr>w_active = vs ! (8 * i), w_side = vs ! (8 * i + 1), w_price = vs ! (8 * i + 2),
     w_quantity = vs ! (8 * i + 3), w_price_blinding = vs ! (8 * i + 4), w_reserve = vs ! (8 * i + 5),
     w_reserve_blinding = vs ! (8 * i + 6), w_handle = vs ! (8 * i + 7)\<rparr>"

definition read_arriving :: "int list \<Rightarrow> arriving_wires" where
  "read_arriving vs = (let i = 8 * MAX_MATCH_SLOTS in
     \<lparr>a_side = vs ! i, a_price = vs ! (i + 1), a_quantity = vs ! (i + 2), a_can_rest = vs ! (i + 3),
      a_price_blinding = vs ! (i + 4), a_reserve = vs ! (i + 5), a_reserve_blinding = vs ! (i + 6),
      a_handle = vs ! (i + 7)\<rparr>)"

definition read_slots :: "int list \<Rightarrow> order_wires list" where
  "read_slots vs = map (read_slot vs) [0..<MAX_MATCH_SLOTS]"

section \<open>Matching wires\<close>

definition price_cross :: "arriving_wires \<Rightarrow> order_wires \<Rightarrow> int" where
  "price_cross a r = if_else (a_side a) (of_bool (a_price a \<le> w_price r)) (of_bool (w_price r \<le> a_price a))"

definition eligible_wire :: "arriving_wires \<Rightarrow> order_wires \<Rightarrow> int" where
  "eligible_wire a r = w_active r * of_bool (w_side r \<noteq> a_side a) * price_cross a r * of_bool (0 < w_quantity r)"

definition better_wire :: "arriving_wires \<Rightarrow> order_wires list \<Rightarrow> nat \<Rightarrow> nat \<Rightarrow> int" where
  "better_wire a rs slot other =
     if_else (a_side a) (of_bool (w_price (rs ! slot) < w_price (rs ! other)))
       (of_bool (w_price (rs ! other) < w_price (rs ! slot)))
     + of_bool (w_price (rs ! other) = w_price (rs ! slot)) * of_bool (other < slot)"

definition higher_quantity :: "arriving_wires \<Rightarrow> order_wires list \<Rightarrow> nat \<Rightarrow> int" where
  "higher_quantity a rs slot = (\<Sum>other\<leftarrow>filter (\<lambda>other. other \<noteq> slot) [0..<MAX_MATCH_SLOTS].
     eligible_wire a (rs ! other) * better_wire a rs slot other * w_quantity (rs ! other))"

definition available_wire :: "arriving_wires \<Rightarrow> order_wires list \<Rightarrow> nat \<Rightarrow> int" where
  "available_wire a rs slot = (let higher = higher_quantity a rs slot in
     if_else (of_bool (higher < a_quantity a)) (a_quantity a - higher) 0)"

definition matched_wire :: "arriving_wires \<Rightarrow> order_wires list \<Rightarrow> nat \<Rightarrow> int" where
  "matched_wire a rs slot = (let r = rs ! slot in
     w_active r * of_bool (w_side r \<noteq> a_side a) * price_cross a r
     * (of_bool (0 < w_quantity r) * of_bool (0 < available_wire a rs slot)))"

definition trade_quantity_wire :: "arriving_wires \<Rightarrow> order_wires list \<Rightarrow> nat \<Rightarrow> int" where
  "trade_quantity_wire a rs slot = (let q = w_quantity (rs ! slot); available = available_wire a rs slot in
     matched_wire a rs slot * if_else (of_bool (q \<le> available)) q available)"

definition trade_price_wire :: "arriving_wires \<Rightarrow> order_wires list \<Rightarrow> nat \<Rightarrow> int" where
  "trade_price_wire a rs slot = matched_wire a rs slot * w_price (rs ! slot)"

definition circuit_remaining :: "arriving_wires \<Rightarrow> order_wires list \<Rightarrow> int" where
  "circuit_remaining a rs =
     foldl (\<lambda>left slot. left - trade_quantity_wire a rs slot) (a_quantity a) [0..<MAX_MATCH_SLOTS]"

definition published_remaining :: "arriving_wires \<Rightarrow> order_wires list \<Rightarrow> int" where
  "published_remaining a rs = circuit_remaining a rs * a_can_rest a"

section \<open>Settlement wires\<close>

text \<open>The six groups of 32 bits a slot's settlement proof decomposes.\<close>

datatype bit_group = Qty_bits | Price_bits | Limit_bits | Securities_bits | Cash_bits | Pool_bits

record slot_random =
  fill_quantity_blinding :: int
  cash_blinding :: int
  bit_blinding :: "bit_group \<Rightarrow> nat \<Rightarrow> int"

text \<open>What the arriving order still has in reserve before a slot.\<close>

record reserve_state =
  arriving_reserve_remaining :: int
  arriving_reserve_blinding_remaining :: int

definition bit_decompose :: "int \<Rightarrow> nat \<Rightarrow> int list" where
  "bit_decompose x n = map (\<lambda>b. x div 2 ^ b mod 2) [0..<n]"

definition bit_wires :: "slot_random \<Rightarrow> bit_group \<Rightarrow> int \<Rightarrow> int list" where
  "bit_wires rnd g x = concat (map (\<lambda>b.
     let v = bit_decompose x 32 ! b; blind = bit_blinding rnd g b in [v, blind, blind * (1 - v)]) [0..<32])"

definition cash_wire :: "arriving_wires \<Rightarrow> order_wires list \<Rightarrow> nat \<Rightarrow> int" where
  "cash_wire a rs slot = trade_quantity_wire a rs slot * trade_price_wire a rs slot"

definition maker_pool_remainder :: "arriving_wires \<Rightarrow> order_wires list \<Rightarrow> nat \<Rightarrow> int" where
  "maker_pool_remainder a rs slot = (let r = rs ! slot in
     w_reserve r - if_else (w_side r) (trade_quantity_wire a rs slot) (cash_wire a rs slot))"

definition maker_pool_remainder_blinding ::
  "arriving_wires \<Rightarrow> order_wires list \<Rightarrow> slot_random \<Rightarrow> nat \<Rightarrow> int" where
  "maker_pool_remainder_blinding a rs rnd slot = (let r = rs ! slot in
     w_reserve_blinding r
     - matched_wire a rs slot * if_else (w_side r) (fill_quantity_blinding rnd) (cash_blinding rnd))"

definition reserve_after :: "arriving_wires \<Rightarrow> order_wires list \<Rightarrow> slot_random \<Rightarrow> nat \<Rightarrow> reserve_state \<Rightarrow> reserve_state" where
  "reserve_after a rs rnd slot st =
     \<lparr>arriving_reserve_remaining = arriving_reserve_remaining st
        - if_else (a_side a) (trade_quantity_wire a rs slot) (cash_wire a rs slot),
      arriving_reserve_blinding_remaining = arriving_reserve_blinding_remaining st
        - matched_wire a rs slot * if_else (a_side a) (fill_quantity_blinding rnd) (cash_blinding rnd)\<rparr>"

definition resting_wires_next :: "arriving_wires \<Rightarrow> order_wires list \<Rightarrow> slot_random \<Rightarrow> nat \<Rightarrow> int list" where
  "resting_wires_next a rs rnd slot = (let r = rs ! slot; left = w_quantity r - trade_quantity_wire a rs slot in
     [w_active r * of_bool (0 < left), w_side r, w_price r, left, w_price_blinding r,
      maker_pool_remainder a rs slot, maker_pool_remainder_blinding a rs rnd slot, w_handle r])"

definition slot_proof ::
  "arriving_wires \<Rightarrow> order_wires list \<Rightarrow> slot_random \<Rightarrow> nat \<Rightarrow> reserve_state \<Rightarrow> int list" where
  "slot_proof a rs rnd slot st = (let r = rs ! slot; m = matched_wire a rs slot;
       qty = trade_quantity_wire a rs slot; price = trade_price_wire a rs slot;
       price_blinding = m * w_price_blinding r; cash = cash_wire a rs slot;
       product_cross = cash_blinding rnd - fill_quantity_blinding rnd * price;
       limit_difference = m * if_else (a_side a) (price - a_price a) (a_price a - price);
       limit_difference_blinding = m * if_else (a_side a) (price_blinding - a_price_blinding a)
         (a_price_blinding a - price_blinding);
       securities_remainder = if_else (a_side a) (arriving_reserve_remaining st) (w_reserve r) - qty;
       securities_remainder_blinding = if_else (a_side a) (arriving_reserve_blinding_remaining st)
         (w_reserve_blinding r) - fill_quantity_blinding rnd;
       cash_remainder = if_else (a_side a) (w_reserve r) (arriving_reserve_remaining st) - cash;
       cash_remainder_blinding = if_else (a_side a) (w_reserve_blinding r)
         (arriving_reserve_blinding_remaining st) - cash_blinding rnd
     in [int slot + 1, qty] @ replicate 23 0
        @ [m * w_handle r, price, fill_quantity_blinding rnd, price_blinding]
        @ bit_wires rnd Qty_bits qty @ bit_wires rnd Price_bits price
        @ [limit_difference, limit_difference_blinding] @ bit_wires rnd Limit_bits limit_difference
        @ [cash, cash_blinding rnd, product_cross, securities_remainder, securities_remainder_blinding]
        @ bit_wires rnd Securities_bits securities_remainder
        @ [cash_remainder, cash_remainder_blinding] @ bit_wires rnd Cash_bits cash_remainder
        @ [maker_pool_remainder a rs slot, maker_pool_remainder_blinding a rs rnd slot]
        @ bit_wires rnd Pool_bits (maker_pool_remainder a rs slot))"

text \<open>The loop over the slots: the wires of the next private book, the settlement proofs, and the
  reserve left to the arriving order.\<close>

fun run_slots :: "arriving_wires \<Rightarrow> order_wires list \<Rightarrow> (nat \<Rightarrow> slot_random) \<Rightarrow> nat list \<Rightarrow> reserve_state
    \<Rightarrow> int list \<times> int list \<times> reserve_state" where
  "run_slots a rs rnd [] st = ([], [], st)"
| "run_slots a rs rnd (slot # later) st =
     (let (book, proofs, last) = run_slots a rs rnd later (reserve_after a rs (rnd slot) slot st)
      in (resting_wires_next a rs (rnd slot) slot @ book, slot_proof a rs (rnd slot) slot st @ proofs, last))"

definition circuit_persistence ::
  "arriving_wires \<Rightarrow> order_wires list \<Rightarrow> (nat \<Rightarrow> slot_random) \<Rightarrow> int list \<times> int list" where
  "circuit_persistence a rs rnd =
     (let (book, proofs, st) = run_slots a rs rnd [0..<MAX_MATCH_SLOTS]
            \<lparr>arriving_reserve_remaining = a_reserve a, arriving_reserve_blinding_remaining = a_reserve_blinding a\<rparr>;
          left = published_remaining a rs
      in (book @ [a_can_rest a * of_bool (0 < left), a_side a, a_price a, left, a_price_blinding a,
            arriving_reserve_remaining st, arriving_reserve_blinding_remaining st, a_handle a], proofs))"

section \<open>The private inputs of a batch\<close>

datatype MpcError =
    Setup string
  | Compile string
  | Input string
  | Party nat string
  | NoOutput
  | Disagreement
  | Timeout
  | Io string

definition wire_reserve :: "Side \<Rightarrow> u64 \<Rightarrow> u64 \<Rightarrow> MpcError + int" where
  "wire_reserve s price qty = (case s of
     Sell \<Rightarrow> Inr (uint qty)
   | Buy \<Rightarrow> andThen (ok_or (checked_mul price qty) (Input ''compatibility reserve overflowed'')) (\<lambda>v. Inr (uint v)))"

definition slot_values :: "PrivateMatchBatch \<Rightarrow> nat \<Rightarrow> MpcError + int list" where
  "slot_values batch slot =
     (if slot < length (resting batch)
      then let r = resting batch ! slot in
        andThen (wire_reserve (ri_side r) (ri_price r) (ri_quantity r)) (\<lambda>reserve.
        Inr [1, uint (Side_wire (ri_side r)), uint (ri_price r), uint (ri_quantity r), 0, reserve, 0, int slot + 1])
      else Inr [0, 0, 0, 0, 0, 0, 0, 0])"

definition compatibility_private_values :: "PrivateMatchBatch \<Rightarrow> MpcError + int list" where
  "compatibility_private_values batch =
     andThen (collect_results (map (slot_values batch) [0..<MAX_MATCH_SLOTS])) (\<lambda>values.
     andThen (wire_reserve (arriving_side batch) (arriving_price batch) (arriving_quantity batch)) (\<lambda>reserve.
     let vs = concat values @
       [uint (Side_wire (arriving_side batch)), uint (arriving_price batch), uint (arriving_quantity batch),
        of_bool (arriving_can_rest batch), 0, reserve, 0, int MAX_MATCH_SLOTS + 1] in
     if length vs \<noteq> (MAX_MATCH_SLOTS + 1) * 8
     then Inl (Input ''compatibility input does not match the canonical circuit width'')
     else Inr vs))"

text \<open>The wires the inputs of a batch are read back as.\<close>

definition slot_wires :: "PrivateMatchBatch \<Rightarrow> nat \<Rightarrow> int \<Rightarrow> order_wires" where
  "slot_wires batch i reserve =
     (if i < length (resting batch)
      then let r = resting batch ! i in
        \<lparr>w_active = 1, w_side = uint (Side_wire (ri_side r)), w_price = uint (ri_price r),
         w_quantity = uint (ri_quantity r), w_price_blinding = 0, w_reserve = reserve, w_reserve_blinding = 0,
         w_handle = int i + 1\<rparr>
      else \<lparr>w_active = 0, w_side = 0, w_price = 0, w_quantity = 0, w_price_blinding = 0, w_reserve = 0,
            w_reserve_blinding = 0, w_handle = 0\<rparr>)"

definition batch_wires :: "PrivateMatchBatch \<Rightarrow> order_wires list \<Rightarrow> arriving_wires \<Rightarrow> bool" where
  "batch_wires batch rs a \<longleftrightarrow> length rs = MAX_MATCH_SLOTS
     \<and> (\<forall>i < MAX_MATCH_SLOTS. \<exists>v. rs ! i = slot_wires batch i v)
     \<and> a_side a = uint (Side_wire (arriving_side batch)) \<and> a_price a = uint (arriving_price batch)
     \<and> a_quantity a = uint (arriving_quantity batch) \<and> a_can_rest a = of_bool (arriving_can_rest batch)"

section \<open>The wires of a batch\<close>

lemma uint_Side_wire: "uint (Side_wire s) = (case s of Buy \<Rightarrow> 0 | Sell \<Rightarrow> 1)"
  by (cases s) (simp_all add: Side_wire_def)

lemma uint_Side_wire_eq [simp]: "uint (Side_wire s) = uint (Side_wire t) \<longleftrightarrow> s = t"
  by (cases s; cases t) (simp_all add: uint_Side_wire)

lemma if_else_bit [simp]: "if_else 0 x y = y" "if_else 1 x y = x" "if_else (of_bool p) x y = (if p then x else y)"
  by (simp_all add: if_else_def)

lemma if_else_side: "if_else (uint (Side_wire s)) x y = (case s of Buy \<Rightarrow> y | Sell \<Rightarrow> x)"
  by (cases s) (simp_all add: uint_Side_wire)

lemma uint_pos: "0 < uint (x :: 'a::len word) \<longleftrightarrow> 0 < x"
  by (simp add: word_less_def)

lemma slot_fields:
  assumes "batch_wires batch rs a" "i < MAX_MATCH_SLOTS"
  shows "w_active (rs ! i) = of_bool (i < length (resting batch))"
    and "i < length (resting batch) \<Longrightarrow> w_side (rs ! i) = uint (Side_wire (ri_side (resting batch ! i)))"
    and "i < length (resting batch) \<Longrightarrow> w_price (rs ! i) = uint (ri_price (resting batch ! i))"
    and "i < length (resting batch) \<Longrightarrow> w_quantity (rs ! i) = uint (ri_quantity (resting batch ! i))"
    and "\<not> i < length (resting batch) \<Longrightarrow> w_quantity (rs ! i) = 0"
    and "\<not> i < length (resting batch) \<Longrightarrow> w_price (rs ! i) = 0"
    and "\<not> i < length (resting batch) \<Longrightarrow> w_side (rs ! i) = 0"
proof -
  obtain v where "rs ! i = slot_wires batch i v" using assms by (auto simp: batch_wires_def)
  then show "w_active (rs ! i) = of_bool (i < length (resting batch))"
    "i < length (resting batch) \<Longrightarrow> w_side (rs ! i) = uint (Side_wire (ri_side (resting batch ! i)))"
    "i < length (resting batch) \<Longrightarrow> w_price (rs ! i) = uint (ri_price (resting batch ! i))"
    "i < length (resting batch) \<Longrightarrow> w_quantity (rs ! i) = uint (ri_quantity (resting batch ! i))"
    "\<not> i < length (resting batch) \<Longrightarrow> w_quantity (rs ! i) = 0"
    "\<not> i < length (resting batch) \<Longrightarrow> w_price (rs ! i) = 0"
    "\<not> i < length (resting batch) \<Longrightarrow> w_side (rs ! i) = 0"
    by (simp_all add: slot_wires_def Let_def)
qed

lemma price_cross_batch:
  assumes "batch_wires batch rs a" "i < length (resting batch)" "i < MAX_MATCH_SLOTS"
  shows "price_cross a (rs ! i) =
    of_bool (crosses (arriving_side batch) (arriving_price batch) (ri_price (resting batch ! i)))"
  using assms(1) slot_fields(3) [OF assms(1,3,2)]
  by (simp add: price_cross_def batch_wires_def if_else_side crosses_def word_le_def split: Side.split)

lemma eligible_wire_batch:
  assumes "batch_wires batch rs a" "i < MAX_MATCH_SLOTS"
  shows "eligible_wire a (rs ! i) =
    of_bool (i < length (resting batch) \<and> eligible batch (resting batch ! i))"
proof (cases "i < length (resting batch)")
  case True
  then show ?thesis
    using price_cross_batch [OF assms(1) True assms(2)] slot_fields [OF assms] assms(1)
    by (auto simp: eligible_wire_def eligible_def batch_wires_def uint_pos)
next
  case False
  then show ?thesis using slot_fields(1) [OF assms] by (simp add: eligible_wire_def)
qed

section \<open>The prefix sums are price-time priority\<close>

text \<open>The slots are handed over best price first: no later slot has a strictly better price.\<close>

definition better_price :: "Side \<Rightarrow> u64 \<Rightarrow> u64 \<Rightarrow> bool" where
  "better_price s p q = (case s of Buy \<Rightarrow> p < q | Sell \<Rightarrow> q < p)"

definition slots_in_priority :: "PrivateMatchBatch \<Rightarrow> bool" where
  "slots_in_priority batch \<longleftrightarrow>
     sorted_wrt (\<lambda>r s. \<not> better_price (arriving_side batch) (ri_price s) (ri_price r)) (resting batch)"

lemma better_wire_batch:
  assumes w: "batch_wires batch rs a" and p: "slots_in_priority batch"
    and i: "i < length (resting batch)" "i < MAX_MATCH_SLOTS"
    and j: "j < length (resting batch)" "j < MAX_MATCH_SLOTS" "j \<noteq> i"
  shows "better_wire a rs i j = of_bool (j < i)"
proof -
  let ?p = "\<lambda>k. ri_price (resting batch ! k)"
  have sorted: "k < l \<Longrightarrow> l < length (resting batch) \<Longrightarrow> \<not> better_price (arriving_side batch) (?p l) (?p k)" for k l
    using p sorted_wrt_nth_less unfolding slots_in_priority_def by blast
  have "better_wire a rs i j =
      of_bool (better_price (arriving_side batch) (?p j) (?p i)) + of_bool (?p j = ?p i) * of_bool (j < i)"
    using w slot_fields(3) [OF w i(2,1)] slot_fields(3) [OF w j(2,1)]
    by (simp add: better_wire_def batch_wires_def if_else_side better_price_def word_less_def word_uint_eq_iff split: Side.split)
  moreover have "better_price (arriving_side batch) (?p j) (?p i) \<or> ?p j = ?p i" if "j < i"
    using sorted [OF that i(1)] by (auto simp: better_price_def split: Side.splits)
  moreover have "\<not> better_price s q q" for s q by (simp add: better_price_def split: Side.split)
  ultimately show ?thesis using sorted [of i j] i j by (cases "j < i") auto
qed

lemma depth_ahead_sum:
  "int (depth_ahead batch (take n (resting batch))) = (\<Sum>j\<leftarrow>[0..<n].
     of_bool (j < length (resting batch) \<and> eligible batch (resting batch ! j)) * uint (ri_quantity (resting batch ! j)))"
proof (induction n)
  case (Suc n)
  then show ?case
    by (cases "n < length (resting batch)") (auto simp: take_Suc_conv_app_nth)
qed simp

lemma sum_list_cut:
  assumes "n \<le> m"
  shows "(\<Sum>j\<leftarrow>[0..<m]. if j < n then f j else (0::int)) = (\<Sum>j\<leftarrow>[0..<n]. f j)"
  unfolding interv_sum_list_conv_sum_set_nat by (rule sum.mono_neutral_cong_right) (use assms in auto)

lemma higher_quantity_batch:
  assumes w: "batch_wires batch rs a" and p: "slots_in_priority batch"
    and i: "i < length (resting batch)" "i < MAX_MATCH_SLOTS"
  shows "higher_quantity a rs i = int (depth_ahead batch (take i (resting batch)))"
proof -
  let ?e = "\<lambda>j. of_bool (j < length (resting batch) \<and> eligible batch (resting batch ! j))
    * uint (ri_quantity (resting batch ! j)) :: int"
  have "(if j \<noteq> i then eligible_wire a (rs ! j) * better_wire a rs i j * w_quantity (rs ! j) else 0)
      = (if j < i then ?e j else 0)" if "j < MAX_MATCH_SLOTS" for j
    using better_wire_batch [OF w p i _ that] slot_fields(4) [OF w that] eligible_wire_batch [OF w that]
    by (cases "j < length (resting batch)") auto
  then have "higher_quantity a rs i = (\<Sum>j\<leftarrow>[0..<MAX_MATCH_SLOTS]. if j < i then ?e j else 0)"
    unfolding higher_quantity_def sum_list_map_filter' by (intro arg_cong [where f = sum_list] map_cong) auto
  also have "\<dots> = (\<Sum>j\<leftarrow>[0..<i]. ?e j)" using i(2) by (intro sum_list_cut) simp
  finally show ?thesis by (simp only: depth_ahead_sum)
qed

lemma available_wire_batch:
  assumes "batch_wires batch rs a" "slots_in_priority batch" "i < length (resting batch)" "i < MAX_MATCH_SLOTS"
  shows "available_wire a rs i = int (unat (arriving_quantity batch) - depth_ahead batch (take i (resting batch)))"
proof -
  have q: "a_quantity a = int (unat (arriving_quantity batch))" using assms(1) by (simp add: batch_wires_def)
  have "(if int d < int n then int n - int d else 0) = int (n - d)" for d n by simp
  then show ?thesis unfolding available_wire_def higher_quantity_batch [OF assms] q Let_def if_else_bit .
qed

text \<open>The wires of a slot are what the reference transition gives it.\<close>

lemma slot_wires_refine:
  assumes w: "batch_wires batch rs a" and p: "slots_in_priority batch"
    and i: "i < length (resting batch)" "i < MAX_MATCH_SLOTS"
  defines "slot \<equiv> slots (expected_batch batch) ! i"
  shows "trade_quantity_wire a rs i = uint (trade_quantity slot)"
    and "matched_wire a rs i = of_bool (matched slot)"
    and "trade_price_wire a rs i = uint (trade_price slot)"
proof -
  let ?r = "resting batch ! i"
  have slot: "slot = match_slot batch (snd (match_slots batch (arriving_quantity batch) (take i (resting batch)))) ?r"
    using i(1) by (simp add: slot_def slots_expected_batch match_slots_nth)
  have left: "available_wire a rs i =
      uint (snd (match_slots batch (arriving_quantity batch) (take i (resting batch))))"
    unfolding available_wire_batch [OF w p i] match_slots_left [symmetric] by simp
  show m: "matched_wire a rs i = of_bool (matched slot)"
    using price_cross_batch [OF w i] slot_fields [OF w i(2)] i w
    by (auto simp: matched_wire_def Let_def left slot match_slot_def batch_wires_def uint_pos)
  show "trade_price_wire a rs i = uint (trade_price slot)"
    using slot_fields(3) [OF w i(2,1)] by (auto simp: trade_price_wire_def m slot match_slot_def Let_def)
  show "trade_quantity_wire a rs i = uint (trade_quantity slot)"
    using slot_fields(4) [OF w i(2,1)]
    by (auto simp: trade_quantity_wire_def Let_def m left slot match_slot_def min_def word_le_def)
qed

lemma idle_slot_wires:
  assumes "batch_wires batch rs a" "\<not> i < length (resting batch)" "i < MAX_MATCH_SLOTS"
  shows "matched_wire a rs i = 0" "trade_quantity_wire a rs i = 0" "trade_price_wire a rs i = 0"
  using slot_fields(1) [OF assms(1,3)] assms(2)
  by (simp_all add: matched_wire_def trade_quantity_wire_def trade_price_wire_def Let_def)

lemma int_sum_list: "int (sum_list xs) = sum_list (map int xs)"
  by (induction xs) simp_all

lemma foldl_minus: "foldl (\<lambda>left s. left - f s) (x::int) xs = x - sum_list (map f xs)"
  by (induction xs arbitrary: x) simp_all

lemma circuit_remaining_refine:
  assumes w: "batch_wires batch rs a" and p: "slots_in_priority batch" and l: "length (resting batch) \<le> MAX_MATCH_SLOTS"
  shows "circuit_remaining a rs = uint (snd (match_slots batch (arriving_quantity batch) (resting batch)))"
    and "published_remaining a rs = uint (arriving_remaining (expected_batch batch))"
proof -
  let ?fills = "fst (match_slots batch (arriving_quantity batch) (resting batch))"
  have "(\<Sum>slot\<leftarrow>[0..<MAX_MATCH_SLOTS]. trade_quantity_wire a rs slot)
      = (\<Sum>slot\<leftarrow>[0..<MAX_MATCH_SLOTS]. if slot < length (resting batch) then uint (trade_quantity (?fills ! slot)) else 0)"
    using slot_wires_refine(1) [OF w p] idle_slot_wires(2) [OF w]
    by (intro arg_cong [where f = sum_list] map_cong) (auto simp: slots_expected_batch)
  also have "\<dots> = (\<Sum>slot\<leftarrow>[0..<length ?fills]. uint (trade_quantity (?fills ! slot)))"
    using sum_list_cut [OF l] by simp
  also have "\<dots> = (\<Sum>f\<leftarrow>map ((!) ?fills) [0..<length ?fills]. int (unat (trade_quantity f)))"
    by (simp add: comp_def)
  also have "\<dots> = int (\<Sum>f\<leftarrow>?fills. unat (trade_quantity f))"
    unfolding map_nth by (simp add: int_sum_list comp_def)
  finally have "circuit_remaining a rs = int (unat (arriving_quantity batch)) - int (\<Sum>f\<leftarrow>?fills. unat (trade_quantity f))"
    using w by (simp add: circuit_remaining_def foldl_minus batch_wires_def)
  then show c: "circuit_remaining a rs = uint (snd (match_slots batch (arriving_quantity batch) (resting batch)))"
    unfolding match_slots_sum [of batch "arriving_quantity batch" "resting batch", symmetric] by simp
  show "published_remaining a rs = uint (arriving_remaining (expected_batch batch))"
    using w by (simp add: published_remaining_def c batch_wires_def arriving_remaining_expected_batch)
qed

section \<open>Reading the inputs back\<close>

lemma concat_nth:
  assumes "\<And>xs. xs \<in> set xss \<Longrightarrow> length xs = n" "i < length xss" "k < n"
  shows "concat xss ! (n * i + k) = xss ! i ! k"
  using assms
proof (induction xss arbitrary: i)
  case (Cons xs xss)
  then show ?case by (cases i) (auto simp: nth_append algebra_simps)
qed simp

lemma length_concat_const: "(\<And>xs. xs \<in> set xss \<Longrightarrow> length xs = n) \<Longrightarrow> length (concat xss) = n * length xss"
  by (induction xss) auto

lemma length_concat_map: "(\<And>x. length (f x) = n) \<Longrightarrow> length (concat (map f xs)) = n * length xs"
  by (induction xs) auto

lemma concat_map_nth:
  assumes "\<And>x. length (f x) = n" "i < length xs" "k < n"
  shows "concat (map f xs) ! (n * i + k) = f (xs ! i) ! k"
  using concat_nth [of "map f xs" n i k] assms by auto

lemma slot_values_Inr:
  assumes "slot_values batch i = Inr xs"
  obtains v where "xs = (let w = slot_wires batch i v in [w_active w, w_side w, w_price w, w_quantity w,
    w_price_blinding w, w_reserve w, w_reserve_blinding w, w_handle w])"
  using assms by (auto simp: slot_values_def slot_wires_def Let_def andThen_eq_Inr split: if_splits)

lemma inputs_read:
  assumes "compatibility_private_values batch = Inr vs"
  shows "batch_wires batch (read_slots vs) (read_arriving vs)"
proof -
  from assms obtain blocks reserve where v: "collect_results (map (slot_values batch) [0..<MAX_MATCH_SLOTS]) = Inr blocks"
    and vs: "vs = concat blocks @ [uint (Side_wire (arriving_side batch)), uint (arriving_price batch),
      uint (arriving_quantity batch), of_bool (arriving_can_rest batch), 0, reserve, 0, int MAX_MATCH_SLOTS + 1]"
    by (auto simp: compatibility_private_values_def andThen_eq_Inr Let_def split: if_splits)
  from v have m: "map (slot_values batch) [0..<MAX_MATCH_SLOTS] = map Inr blocks" by (simp add: collect_results_eq_Inr)
  from map_eq_imp_length_eq [OF m] have l: "length blocks = MAX_MATCH_SLOTS" by simp
  have nth: "slot_values batch i = Inr (blocks ! i)" if "i < MAX_MATCH_SLOTS" for i
    using arg_cong [OF m, of "\<lambda>xs. xs ! i"] that l by simp
  have eight: "length xs = 8" if x: "xs \<in> set blocks" for xs
  proof -
    from x l obtain i where "i < MAX_MATCH_SLOTS" "xs = blocks ! i" by (auto simp: in_set_conv_nth)
    with nth have "slot_values batch i = Inr xs" by simp
    then show ?thesis by (auto elim!: slot_values_Inr simp: Let_def)
  qed
  have len: "length (concat blocks) = 8 * MAX_MATCH_SLOTS" using length_concat_const [of blocks 8] eight l by simp
  have at: "vs ! (8 * i + k) = blocks ! i ! k" if "i < MAX_MATCH_SLOTS" "k < 8" for i k
    using concat_nth [of blocks 8 i k] eight that l len by (simp add: vs nth_append)
  have "\<exists>v. read_slots vs ! i = slot_wires batch i v" if i: "i < MAX_MATCH_SLOTS" for i
  proof -
    from nth [OF i] obtain v where "blocks ! i = (let w = slot_wires batch i v in [w_active w, w_side w, w_price w,
        w_quantity w, w_price_blinding w, w_reserve w, w_reserve_blinding w, w_handle w])"
      by (rule slot_values_Inr)
    then have "read_slot vs i = slot_wires batch i v"
      using at [OF i, of 0] at [OF i, of 1] at [OF i, of 2] at [OF i, of 3] at [OF i, of 4] at [OF i, of 5]
        at [OF i, of 6] at [OF i, of 7] by (simp add: read_slot_def Let_def)
    with i show ?thesis by (auto simp: read_slots_def)
  qed
  moreover have "vs ! (8 * MAX_MATCH_SLOTS) = uint (Side_wire (arriving_side batch))"
    using len by (simp add: vs nth_append)
  ultimately show ?thesis
    using len by (simp add: batch_wires_def read_slots_def read_arriving_def Let_def vs nth_append)
qed

end
