(* ===== verification/Mpc_Depth.thy ===== *)
theory Mpc_Depth
  imports Mpc_Circuit
begin

text \<open>
  The public depth of the matching circuit of \<open>oclob-mpc/src/lib.rs\<close>: the nine orders of the next
  private book are aggregated by side and price in place, the first order of each level carries its
  quantity, and the sixteen rows are sorted by a key that puts buys first from the highest price, then
  sells from the lowest, then padding. The sorting network is the engine's own: it is the argument \<open>sort_rows\<close>.
\<close>

section \<open>Widths\<close>

definition PRIVATE_ORDER_WIRES :: nat where "PRIVATE_ORDER_WIRES = 8"
definition PRIVATE_BOOK_WIRES :: nat where "PRIVATE_BOOK_WIRES = (MAX_MATCH_SLOTS + 1) * PRIVATE_ORDER_WIRES"
definition SETTLEMENT_PROOF_WIRES_PER_FILL :: nat where "SETTLEMENT_PROOF_WIRES_PER_FILL = 616"
definition PERSISTENCE_WIRES :: nat where
  "PERSISTENCE_WIRES = PRIVATE_BOOK_WIRES + MAX_MATCH_SLOTS * SETTLEMENT_PROOF_WIRES_PER_FILL"

section \<open>Depth rows\<close>

record depth_row =
  dr_key :: int
  dr_side :: int
  dr_price :: int
  dr_quantity :: int

definition depth_active :: "int list \<Rightarrow> nat \<Rightarrow> int" where
  "depth_active book i = book ! (i * 8) * of_bool (0 < book ! (i * 8 + 3))"

definition depth_same :: "int list \<Rightarrow> nat \<Rightarrow> nat \<Rightarrow> int" where
  "depth_same book i j = depth_active book j * of_bool (book ! (i * 8 + 1) = book ! (j * 8 + 1))
     * of_bool (book ! (i * 8 + 2) = book ! (j * 8 + 2))"

definition depth_quantity :: "int list \<Rightarrow> nat \<Rightarrow> int" where
  "depth_quantity book i = (\<Sum>j\<leftarrow>[0..<MAX_MATCH_SLOTS + 1]. depth_same book i j * book ! (j * 8 + 3))"

definition depth_first :: "int list \<Rightarrow> nat \<Rightarrow> int" where
  "depth_first book i = foldl (\<lambda>f j. f * (1 - depth_same book i j)) (depth_active book i) [0..<i]"

definition depth_row_of :: "int list \<Rightarrow> nat \<Rightarrow> depth_row" where
  "depth_row_of book i =
     (let f = depth_first book i; s = f * book ! (i * 8 + 1); p = f * book ! (i * 8 + 2) in
      \<lparr>dr_key = (1 - f) * 2 ^ 34 + s * 2 ^ 33 + if_else s p (2 ^ 32 - 1 - p), dr_side = s, dr_price = p,
       dr_quantity = f * depth_quantity book i\<rparr>)"

definition depth_padding :: depth_row where
  "depth_padding = \<lparr>dr_key = 2 ^ 34 + 2 ^ 32 - 1, dr_side = 0, dr_price = 0, dr_quantity = 0\<rparr>"

definition depth_rows :: "int list \<Rightarrow> depth_row list" where
  "depth_rows book = map (depth_row_of book) [0..<MAX_MATCH_SLOTS + 1] @ replicate (16 - (MAX_MATCH_SLOTS + 1)) depth_padding"

text \<open>What is relied on of the sorting network: it permutes the rows into the order of their keys.\<close>

definition sorts_rows :: "(depth_row list \<Rightarrow> depth_row list) \<Rightarrow> bool" where
  "sorts_rows sort_rows \<longleftrightarrow> (\<forall>rows. mset (sort_rows rows) = mset rows \<and> sorted (map dr_key (sort_rows rows)))"

section \<open>The wires of the next private book\<close>

lemma run_slots_book:
  "fst (run_slots a rs rnd xs st) = concat (map (\<lambda>s. resting_wires_next a rs (rnd s) s) xs)"
  by (induction xs arbitrary: st) (simp_all add: split_def Let_def)

lemma length_bit_wires [simp]: "length (bit_wires rnd g x) = 96"
  unfolding bit_wires_def Let_def by (subst length_concat_map [where n = 3]) simp_all

lemma length_slot_proof: "length (slot_proof a rs rnd slot st) = SETTLEMENT_PROOF_WIRES_PER_FILL"
  by (simp add: slot_proof_def Let_def SETTLEMENT_PROOF_WIRES_PER_FILL_def)

lemma length_run_slots_proofs:
  "length (fst (snd (run_slots a rs rnd xs st))) = length xs * SETTLEMENT_PROOF_WIRES_PER_FILL"
  by (induction xs arbitrary: st) (simp_all add: split_def Let_def length_slot_proof)

definition book_wires :: "arriving_wires \<Rightarrow> order_wires list \<Rightarrow> (nat \<Rightarrow> slot_random) \<Rightarrow> int list" where
  "book_wires a rs rnd = fst (circuit_persistence a rs rnd)"

lemma length_resting_wires_next: "length (resting_wires_next a rs rnd slot) = 8"
  by (simp add: resting_wires_next_def Let_def)

lemma length_resting_block: "length (concat (map (\<lambda>s. resting_wires_next a rs (rnd s) s) [0..<MAX_MATCH_SLOTS])) = 8 * MAX_MATCH_SLOTS"
  by (subst length_concat_map [where n = 8]) (simp_all add: length_resting_wires_next)

lemmas book_wires_defs = book_wires_def circuit_persistence_def split_def Let_def run_slots_book nth_append
  length_resting_block mult.commute [of _ "8::nat"]

lemma book_wires_slot:
  assumes "i < MAX_MATCH_SLOTS" "k < 8"
  shows "book_wires a rs rnd ! (i * 8 + k) = resting_wires_next a rs (rnd i) i ! k"
  using assms concat_map_nth [of "\<lambda>s. resting_wires_next a rs (rnd s) s" 8 i "[0..<MAX_MATCH_SLOTS]" k]
  by (simp add: book_wires_defs length_resting_wires_next)

lemma book_wires_arriving:
  "book_wires a rs rnd ! (MAX_MATCH_SLOTS * 8) = a_can_rest a * of_bool (0 < published_remaining a rs)"
  "book_wires a rs rnd ! (MAX_MATCH_SLOTS * 8 + 1) = a_side a"
  "book_wires a rs rnd ! (MAX_MATCH_SLOTS * 8 + 2) = a_price a"
  "book_wires a rs rnd ! (MAX_MATCH_SLOTS * 8 + 3) = published_remaining a rs"
  by (simp_all add: book_wires_defs)

section \<open>What the rows hold\<close>

text \<open>A view of a book: side, price and quantity left of its nine orders, an order being active when
  something is left of it.\<close>

definition depth_view :: "int list \<Rightarrow> (nat \<Rightarrow> int) \<Rightarrow> (nat \<Rightarrow> int) \<Rightarrow> (nat \<Rightarrow> int) \<Rightarrow> bool" where
  "depth_view book S P Q \<longleftrightarrow> (\<forall>i \<le> MAX_MATCH_SLOTS.
     book ! (i * 8) = of_bool (0 < Q i) \<and> book ! (i * 8 + 1) = S i \<and> book ! (i * 8 + 2) = P i
     \<and> book ! (i * 8 + 3) = Q i \<and> 0 \<le> Q i \<and> (S i = 0 \<or> S i = 1) \<and> 0 \<le> P i \<and> P i < 2 ^ 32)"

definition level_total :: "(nat \<Rightarrow> int) \<Rightarrow> (nat \<Rightarrow> int) \<Rightarrow> (nat \<Rightarrow> int) \<Rightarrow> int \<Rightarrow> int \<Rightarrow> int" where
  "level_total S P Q s p = (\<Sum>j \<le> MAX_MATCH_SLOTS. if S j = s \<and> P j = p then Q j else 0)"

lemma depth_active_view: "depth_view book S P Q \<Longrightarrow> i \<le> MAX_MATCH_SLOTS \<Longrightarrow> depth_active book i = of_bool (0 < Q i)"
  by (simp add: depth_view_def depth_active_def)

lemma depth_same_view:
  "depth_view book S P Q \<Longrightarrow> i \<le> MAX_MATCH_SLOTS \<Longrightarrow> j \<le> MAX_MATCH_SLOTS \<Longrightarrow>
   depth_same book i j = of_bool (0 < Q j \<and> S i = S j \<and> P i = P j)"
  unfolding depth_same_def by (simp add: depth_active_view) (auto simp: depth_view_def)

lemma depth_quantity_view:
  assumes "depth_view book S P Q" "i \<le> MAX_MATCH_SLOTS"
  shows "depth_quantity book i = level_total S P Q (S i) (P i)"
proof -
  have "depth_same book i j * book ! (j * 8 + 3) = (if S j = S i \<and> P j = P i then Q j else 0)"
    if "j \<le> MAX_MATCH_SLOTS" for j
  proof -
    have "book ! (j * 8 + 3) = Q j" "0 \<le> Q j" using assms(1) that by (simp_all add: depth_view_def)
    then show ?thesis using depth_same_view [OF assms that] by auto
  qed
  then show ?thesis
    unfolding depth_quantity_def level_total_def interv_sum_list_conv_sum_set_nat
    by (intro sum.cong) auto
qed

lemma depth_first_fold:
  assumes "depth_view book S P Q" "i \<le> MAX_MATCH_SLOTS" "n \<le> i"
  shows "foldl (\<lambda>f j. f * (1 - depth_same book i j)) (depth_active book i) [0..<n]
    = of_bool (0 < Q i \<and> (\<forall>j<n. \<not> (0 < Q j \<and> S i = S j \<and> P i = P j)))"
  using assms(3)
proof (induction n)
  case 0
  then show ?case by (simp add: depth_active_view [OF assms(1,2)])
next
  case (Suc n)
  then show ?case using depth_same_view [OF assms(1,2), of n] assms(2) by (auto simp: less_Suc_eq)
qed

definition leads :: "(nat \<Rightarrow> int) \<Rightarrow> (nat \<Rightarrow> int) \<Rightarrow> (nat \<Rightarrow> int) \<Rightarrow> nat \<Rightarrow> bool" where
  "leads S P Q i \<longleftrightarrow> 0 < Q i \<and> (\<forall>j<i. \<not> (0 < Q j \<and> S i = S j \<and> P i = P j))"

lemma depth_first_view:
  assumes "depth_view book S P Q" "i \<le> MAX_MATCH_SLOTS"
  shows "depth_first book i = of_bool (leads S P Q i)"
  unfolding depth_first_def leads_def by (rule depth_first_fold [OF assms order_refl])

definition level_row :: "int \<Rightarrow> int \<Rightarrow> int \<Rightarrow> depth_row" where
  "level_row s p q = \<lparr>dr_key = s * 2 ^ 33 + if_else s p (2 ^ 32 - 1 - p), dr_side = s, dr_price = p, dr_quantity = q\<rparr>"

definition view_row :: "(nat \<Rightarrow> int) \<Rightarrow> (nat \<Rightarrow> int) \<Rightarrow> (nat \<Rightarrow> int) \<Rightarrow> nat \<Rightarrow> depth_row" where
  "view_row S P Q i = level_row (S i) (P i) (level_total S P Q (S i) (P i))"

definition active_rows :: "(nat \<Rightarrow> int) \<Rightarrow> (nat \<Rightarrow> int) \<Rightarrow> (nat \<Rightarrow> int) \<Rightarrow> depth_row list" where
  "active_rows S P Q = map (view_row S P Q) (filter (leads S P Q) [0..<MAX_MATCH_SLOTS + 1])"

lemma depth_row_view:
  assumes "depth_view book S P Q" "i \<le> MAX_MATCH_SLOTS"
  shows "depth_row_of book i = (if leads S P Q i then view_row S P Q i else depth_padding)"
proof -
  have "book ! (i * 8 + 1) = S i" "book ! (i * 8 + 2) = P i" using assms by (simp_all add: depth_view_def)
  then show ?thesis
    using depth_first_view [OF assms] depth_quantity_view [OF assms]
    by (simp add: depth_row_of_def Let_def view_row_def level_row_def depth_padding_def)
qed

lemma key_bounds:
  assumes "s = 0 \<or> s = 1" "0 \<le> p" "p < 2 ^ 32"
  shows "dr_key (level_row s p q) < 2 ^ 34"
  using assms by (auto simp: level_row_def)

lemma key_less:
  assumes "s = 0 \<or> s = 1" "0 \<le> p" "p < 2 ^ 32" "t = 0 \<or> t = 1" "0 \<le> r" "r < 2 ^ 32"
  shows "dr_key (level_row s p q) < dr_key (level_row t r u) \<longleftrightarrow>
    s < t \<or> s = t \<and> (if s = 0 then r < p else p < r)"
  using assms by (auto simp: level_row_def)

lemma key_eq:
  assumes "s = 0 \<or> s = 1" "0 \<le> p" "p < 2 ^ 32" "t = 0 \<or> t = 1" "0 \<le> r" "r < 2 ^ 32"
    and "dr_key (level_row s p q) = dr_key (level_row t r u)"
  shows "s = t \<and> p = r"
  using assms by (auto simp: level_row_def)

lemma leads_unique:
  assumes "leads S P Q i" "leads S P Q j" "S i = S j" "P i = P j"
  shows "i = j"
  using assms by (cases i j rule: linorder_cases) (auto simp: leads_def)

lemma leads_ex:
  assumes "0 < Q j" "j \<le> n"
  obtains i where "i \<le> n" "leads S P Q i" "S i = S j" "P i = P j"
proof -
  define i where "i = (LEAST k. 0 < Q k \<and> S k = S j \<and> P k = P j)"
  have "0 < Q i \<and> S i = S j \<and> P i = P j" unfolding i_def by (rule LeastI [of _ j]) (use assms in simp)
  moreover have "i \<le> j" unfolding i_def by (rule Least_le) (use assms in simp)
  moreover have "\<not> (0 < Q k \<and> S k = S j \<and> P k = P j)" if "k < i" for k
    using that not_less_Least unfolding i_def by blast
  ultimately show ?thesis using that [of i] assms by (fastforce simp: leads_def)
qed

lemma view_bounds: "depth_view book S P Q \<Longrightarrow> i \<le> MAX_MATCH_SLOTS \<Longrightarrow>
   (S i = 0 \<or> S i = 1) \<and> 0 \<le> P i \<and> P i < 2 ^ 32 \<and> 0 \<le> Q i"
  by (simp add: depth_view_def)

lemma view_row_key:
  assumes "depth_view book S P Q" "i \<le> MAX_MATCH_SLOTS"
  shows "dr_key (view_row S P Q i) < 2 ^ 34"
  unfolding view_row_def by (rule key_bounds) (use view_bounds [OF assms] in simp_all)

lemma active_rows_distinct:
  assumes "depth_view book S P Q"
  shows "distinct (map dr_key (active_rows S P Q))"
proof -
  have "inj_on (dr_key \<circ> view_row S P Q) {i. i \<le> MAX_MATCH_SLOTS \<and> leads S P Q i}"
  proof (rule inj_onI, simp, goal_cases)
    case (1 i j)
    then have "S i = S j \<and> P i = P j"
      using view_bounds [OF assms, of i] view_bounds [OF assms, of j]
        key_eq [of "S i" "P i" "S j" "P j" "level_total S P Q (S i) (P i)" "level_total S P Q (S j) (P j)"]
      unfolding view_row_def by blast
    with 1 leads_unique [of S P Q i j] show ?case by blast
  qed
  then have "inj_on (dr_key \<circ> view_row S P Q) (set (filter (leads S P Q) [0..<MAX_MATCH_SLOTS + 1]))"
    by (rule inj_on_subset) auto
  then show ?thesis by (simp only: active_rows_def map_map distinct_map distinct_filter distinct_upt simp_thms)
qed

section \<open>The sorted rows\<close>

lemma sorted_split:
  "sorted (map f xs) \<Longrightarrow> xs = filter (\<lambda>x. f x < k) xs @ filter (\<lambda>x. \<not> f x < k) xs" for k :: "'b::linorder"
proof (induction xs)
  case (Cons x xs)
  show ?case
  proof (cases "f x < k")
    case True
    with Cons show ?thesis by simp
  next
    case False
    then have "\<And>y. y \<in> set xs \<Longrightarrow> \<not> f y < k" using Cons.prems by fastforce
    then have "filter (\<lambda>x. f x < k) xs = []" "filter (\<lambda>x. \<not> f x < k) xs = xs"
      by (auto simp: filter_empty_conv filter_id_conv)
    with False show ?thesis by simp
  qed
qed simp

lemma depth_rows_view:
  assumes "depth_view book S P Q"
  shows "depth_rows book = map (\<lambda>i. if leads S P Q i then view_row S P Q i else depth_padding) [0..<MAX_MATCH_SLOTS + 1]
    @ replicate (16 - (MAX_MATCH_SLOTS + 1)) depth_padding"
  unfolding depth_rows_def by (auto simp: depth_row_view [OF assms])

lemma padding_key: "\<not> dr_key depth_padding < 2 ^ 34"
  by (simp add: depth_padding_def)

lemma filter_map_if:
  "(\<And>x. x \<in> set xs \<Longrightarrow> c x \<Longrightarrow> p (f x)) \<Longrightarrow> \<not> p y \<Longrightarrow>
   filter p (map (\<lambda>x. if c x then f x else y) xs) = map f (filter c xs)"
  by (induction xs) auto

lemma depth_rows_active:
  assumes "depth_view book S P Q"
  shows "filter (\<lambda>r. dr_key r < 2 ^ 34) (depth_rows book) = active_rows S P Q"
    and "\<And>r. r \<in> set (depth_rows book) \<Longrightarrow> \<not> dr_key r < 2 ^ 34 \<Longrightarrow> r = depth_padding"
proof -
  have k: "i \<in> set [0..<MAX_MATCH_SLOTS + 1] \<Longrightarrow> dr_key (view_row S P Q i) < 2 ^ 34" for i
    using view_row_key [OF assms, of i] by auto
  show "filter (\<lambda>r. dr_key r < 2 ^ 34) (depth_rows book) = active_rows S P Q"
    using filter_map_if [of "[0..<MAX_MATCH_SLOTS + 1]" "leads S P Q" "\<lambda>r. dr_key r < 2 ^ 34" "view_row S P Q"
        depth_padding] k padding_key
    by (simp add: depth_rows_view [OF assms] active_rows_def)
  show "r = depth_padding" if r: "r \<in> set (depth_rows book)" "\<not> dr_key r < 2 ^ 34" for r
    using r k by (auto simp: depth_rows_view [OF assms] split: if_splits)
qed

lemma sorted_depth_rows:
  assumes v: "depth_view book S P Q" and s: "sorts_rows sort_rows"
  obtains ys where "sort_rows (depth_rows book) = ys @ replicate (16 - length ys) depth_padding"
    "mset ys = mset (active_rows S P Q)" "sorted_wrt (<) (map dr_key ys)" "length ys \<le> MAX_MATCH_SLOTS + 1"
proof -
  let ?xs = "sort_rows (depth_rows book)"
  let ?a = "filter (\<lambda>r. dr_key r < 2 ^ 34) ?xs" and ?p = "filter (\<lambda>r. \<not> dr_key r < 2 ^ 34) ?xs"
  have m: "mset ?xs = mset (depth_rows book)" and o: "sorted (map dr_key ?xs)"
    using s by (simp_all add: sorts_rows_def)
  have split: "?xs = ?a @ ?p" by (rule sorted_split [OF o])
  have ma: "mset ?a = mset (active_rows S P Q)"
    unfolding mset_filter m depth_rows_active(1) [OF v, symmetric] ..
  have so: "sorted (map dr_key ?a)" using o by (rule sorted_filter)
  have "mset (map dr_key ?a) = mset (map dr_key (active_rows S P Q))" by (simp only: mset_map ma)
  from mset_eq_imp_distinct_iff [OF this] active_rows_distinct [OF v]
  have "distinct (map dr_key ?a)" by simp
  with so have st: "sorted_wrt (<) (map dr_key ?a)" by (rule sorted_distinct_strict)
  have "length ?xs = 16" using arg_cong [OF m, of size] by (simp add: depth_rows_def MAX_MATCH_SLOTS_def)
  with arg_cong [OF split, of length] have lp: "length ?p = 16 - length ?a" by simp
  have "set ?xs = set (depth_rows book)" using m by (rule mset_eq_setD)
  with depth_rows_active(2) [OF v] have "\<And>r. r \<in> set ?p \<Longrightarrow> r = depth_padding" by auto
  then have "?p = replicate (length ?p) depth_padding" using replicate_length_same by metis
  with split lp have e: "?xs = ?a @ replicate (16 - length ?a) depth_padding" by metis
  have "length ?a = length (active_rows S P Q)" using ma by (rule mset_eq_length)
  also have "\<dots> \<le> MAX_MATCH_SLOTS + 1" unfolding active_rows_def
    using length_filter_le [of "leads S P Q" "[0..<MAX_MATCH_SLOTS + 1]"] by simp
  finally show ?thesis using that [OF e ma st] by simp
qed

section \<open>The view of a batch\<close>

definition batch_side :: "PrivateMatchBatch \<Rightarrow> nat \<Rightarrow> int" where
  "batch_side batch i = (if i < length (resting batch) then uint (Side_wire (ri_side (resting batch ! i)))
     else if i = MAX_MATCH_SLOTS then uint (Side_wire (arriving_side batch)) else 0)"

definition batch_price :: "PrivateMatchBatch \<Rightarrow> nat \<Rightarrow> int" where
  "batch_price batch i = (if i < length (resting batch) then uint (ri_price (resting batch ! i))
     else if i = MAX_MATCH_SLOTS then uint (arriving_price batch) else 0)"

definition batch_left :: "PrivateMatchBatch \<Rightarrow> nat \<Rightarrow> int" where
  "batch_left batch i = (if i < length (resting batch)
     then int (unat (ri_quantity (resting batch ! i)) - unat (trade_quantity (slots (expected_batch batch) ! i)))
     else if i = MAX_MATCH_SLOTS then uint (arriving_remaining (expected_batch batch)) else 0)"

lemma slot_le_nth:
  "i < length (resting batch) \<Longrightarrow>
   unat (trade_quantity (slots (expected_batch batch) ! i)) \<le> unat (ri_quantity (resting batch ! i))"
  using slot_le [of "resting batch ! i" "slots (expected_batch batch) ! i" batch]
  by (force simp: set_zip word_le_nat_alt)

lemma u32_uint: "x \<le> u32_max \<Longrightarrow> 0 \<le> uint x \<and> uint x < 2 ^ 32"
  by (simp add: word_le_def u32_max_def)

lemma batch_view_slot:
  assumes w: "batch_wires batch rs a" and p: "slots_in_priority batch"
    and i: "i < length (resting batch)" "i < MAX_MATCH_SLOTS"
  shows "take 4 (resting_wires_next a rs rnd i)
    = [of_bool (0 < batch_left batch i), batch_side batch i, batch_price batch i, batch_left batch i]"
proof -
  have "w_quantity (rs ! i) - trade_quantity_wire a rs i = batch_left batch i"
    using slot_fields(4) [OF w i(2,1)] slot_wires_refine(1) [OF w p i] slot_le_nth [OF i(1)] i(1)
    by (simp add: batch_left_def of_nat_diff)
  then show ?thesis
    using slot_fields(1-3) [OF w i(2)] i(1)
    by (simp add: resting_wires_next_def Let_def batch_side_def batch_price_def)
qed

lemma batch_view_idle:
  assumes "batch_wires batch rs a" "\<not> i < length (resting batch)" "i < MAX_MATCH_SLOTS"
  shows "take 4 (resting_wires_next a rs rnd i) = [0, 0, 0, 0]"
  using slot_fields [OF assms(1,3)] assms(2) idle_slot_wires [OF assms]
  by (simp add: resting_wires_next_def Let_def)

lemma side_bit: "uint (Side_wire s) = 0 \<or> uint (Side_wire s) = 1"
  by (cases s) (simp_all add: uint_Side_wire)

lemma batch_view:
  assumes w: "batch_wires batch rs a" and p: "slots_in_priority batch" and b: "batch_bounded batch"
  shows "depth_view (book_wires a rs rnd) (batch_side batch) (batch_price batch) (batch_left batch)"
proof -
  have len: "length (resting batch) \<le> MAX_MATCH_SLOTS" using b by (simp add: batch_bounded_def)
  have bounds: "0 \<le> batch_left batch i" "batch_side batch i = 0 \<or> batch_side batch i = 1"
    "0 \<le> batch_price batch i" "batch_price batch i < 2 ^ 32" for i
    using b u32_uint by (auto simp: batch_left_def batch_side_def batch_price_def side_bit batch_bounded_def)
  have four: "book_wires a rs rnd ! (i * 8) = of_bool (0 < batch_left batch i)
      \<and> book_wires a rs rnd ! (i * 8 + 1) = batch_side batch i \<and> book_wires a rs rnd ! (i * 8 + 2) = batch_price batch i
      \<and> book_wires a rs rnd ! (i * 8 + 3) = batch_left batch i" if i: "i \<le> MAX_MATCH_SLOTS" for i
  proof (cases "i = MAX_MATCH_SLOTS")
    case True
    then show ?thesis
      using len w circuit_remaining_refine(2) [OF w p len]
      by (simp add: book_wires_arriving [simplified] batch_left_def batch_side_def batch_price_def batch_wires_def
          arriving_remaining_expected_batch)
  next
    case False
    with i have i8: "i < MAX_MATCH_SLOTS" by simp
    have "take 4 (resting_wires_next a rs (rnd i) i)
        = [of_bool (0 < batch_left batch i), batch_side batch i, batch_price batch i, batch_left batch i]"
      using batch_view_slot [OF w p _ i8] batch_view_idle [OF w _ i8] i8
      by (cases "i < length (resting batch)") (auto simp: batch_left_def batch_side_def batch_price_def)
    from arg_cong [OF this, of "\<lambda>xs. (xs ! 0, xs ! 1, xs ! 2, xs ! 3)"] show ?thesis
      using book_wires_slot [OF i8, of 0 a rs rnd] book_wires_slot [OF i8, of 1 a rs rnd]
        book_wires_slot [OF i8, of 2 a rs rnd] book_wires_slot [OF i8, of 3 a rs rnd] by simp
  qed
  then show ?thesis using bounds unfolding depth_view_def by blast
qed

lemma level_total_batch:
  assumes "length (resting batch) \<le> MAX_MATCH_SLOTS"
  shows "level_total (batch_side batch) (batch_price batch) (batch_left batch) (uint (Side_wire s)) (uint p)
    = int (depth_after batch s p)"
proof -
  let ?r = "resting batch" and ?f = "slots (expected_batch batch)"
  let ?g = "\<lambda>r f. if ri_side r = s \<and> ri_price r = p then unat (ri_quantity r) - unat (trade_quantity f) else 0"
  let ?h = "\<lambda>j. if batch_side batch j = uint (Side_wire s) \<and> batch_price batch j = uint p then batch_left batch j else 0"
  have "(\<Sum>(r, f)\<leftarrow>zip ?r ?f. ?g r f) = (\<Sum>j<length ?r. ?g (?r ! j) (?f ! j))"
    by (simp add: sum_list_sum_nth atLeast0LessThan)
  then have "int (\<Sum>(r, f)\<leftarrow>zip ?r ?f. ?g r f) = (\<Sum>j<length ?r. ?h j)"
    by (auto simp: batch_side_def batch_price_def batch_left_def word_uint_eq_iff intro!: sum.cong)
  also have "\<dots> = (\<Sum>j<MAX_MATCH_SLOTS. ?h j)"
    using assms by (intro sum.mono_neutral_left) (auto simp: batch_left_def)
  finally have "level_total (batch_side batch) (batch_price batch) (batch_left batch) (uint (Side_wire s)) (uint p)
      = int (\<Sum>(r, f)\<leftarrow>zip ?r ?f. ?g r f) + ?h MAX_MATCH_SLOTS"
    by (simp add: level_total_def lessThan_Suc_atMost [symmetric])
  then show ?thesis
    using assms by (simp add: depth_after_def batch_side_def batch_price_def batch_left_def word_uint_eq_iff)
qed

section \<open>The rows are the levels of the reference transition\<close>

definition row_level :: "depth_row \<Rightarrow> MpcPriceLevel" where
  "row_level r = \<lparr>pl_side = (if dr_side r = 0 then Buy else Sell), pl_price = word_of_int (dr_price r),
     pl_quantity = word_of_int (dr_quantity r)\<rparr>"

text \<open>A row is well formed for a batch: it is that of a level of the next book.\<close>

definition level_row_of :: "PrivateMatchBatch \<Rightarrow> depth_row \<Rightarrow> bool" where
  "level_row_of batch r \<longleftrightarrow> (\<exists>s p. r = level_row (uint (Side_wire s)) (uint p) (int (depth_after batch s p))
     \<and> p \<le> u32_max \<and> 0 < depth_after batch s p)"

lemma row_level_row:
  assumes "batch_bounded batch"
  shows "row_level (level_row (uint (Side_wire s)) (uint p) (int (depth_after batch s p)))
    = \<lparr>pl_side = s, pl_price = p, pl_quantity = of_nat (depth_after batch s p)\<rparr>"
  by (cases s) (simp_all add: row_level_def level_row_def uint_Side_wire)

lemma unat_depth_after:
  assumes "batch_bounded batch"
  shows "unat (of_nat (depth_after batch s p) :: u64) = depth_after batch s p"
  using depth_after_bound [OF assms, of s p] by (simp add: unat_of_nat u32_max_def)

lemma in_active_rows: "r \<in> set (active_rows S P Q) \<longleftrightarrow> (\<exists>i \<le> MAX_MATCH_SLOTS. leads S P Q i \<and> r = view_row S P Q i)"
  unfolding active_rows_def set_map set_filter set_upt by (auto simp: less_Suc_eq_le)

lemma active_rows_batch:
  assumes b: "batch_bounded batch"
    and v: "depth_view book (batch_side batch) (batch_price batch) (batch_left batch)"
  shows "r \<in> set (active_rows (batch_side batch) (batch_price batch) (batch_left batch)) \<longleftrightarrow> level_row_of batch r"
    (is "?l \<longleftrightarrow> _")
proof
  let ?S = "batch_side batch" and ?P = "batch_price batch" and ?Q = "batch_left batch"
  have len: "length (resting batch) \<le> MAX_MATCH_SLOTS" using b by (simp add: batch_bounded_def)
  note total = level_total_batch [OF len]
  show "level_row_of batch r" if ?l
  proof -
    from that obtain i where i: "i \<le> MAX_MATCH_SLOTS" "leads ?S ?P ?Q i" and r: "r = view_row ?S ?P ?Q i"
      using in_active_rows by blast
    from i have "0 < ?Q i" by (simp add: leads_def)
    then obtain s p where sp: "?S i = uint (Side_wire s)" "?P i = uint p" "p \<le> u32_max"
      using b by (auto simp: batch_left_def batch_side_def batch_price_def batch_bounded_def split: if_splits)
    have "?Q i \<le> level_total ?S ?P ?Q (?S i) (?P i)"
      unfolding level_total_def using i view_bounds [OF v]
      by (intro order_trans [OF _ member_le_sum [of i]]) auto
    with \<open>0 < ?Q i\<close> have "0 < depth_after batch s p" by (simp add: sp total)
    then show ?thesis unfolding level_row_of_def r view_row_def sp total using sp(3) by blast
  qed
  show ?l if "level_row_of batch r"
  proof -
    from that obtain s p where r: "r = level_row (uint (Side_wire s)) (uint p) (int (depth_after batch s p))"
      and d: "0 < depth_after batch s p" by (auto simp: level_row_of_def)
    have "level_total ?S ?P ?Q (uint (Side_wire s)) (uint p) \<noteq> 0" using d by (simp add: total)
    then obtain j where "j \<le> MAX_MATCH_SLOTS" "?S j = uint (Side_wire s)" "?P j = uint p" "?Q j \<noteq> 0"
      unfolding level_total_def by (auto elim!: sum.not_neutral_contains_not_neutral split: if_splits)
    moreover from this have "0 < ?Q j" using view_bounds [OF v, of j] by simp
    ultimately obtain i where "i \<le> MAX_MATCH_SLOTS" "leads ?S ?P ?Q i" "?S i = uint (Side_wire s)" "?P i = uint p"
      by (metis leads_ex)
    then show ?thesis unfolding in_active_rows by (force simp: r view_row_def total)
  qed
qed

lemma level_price_bound:
  assumes b: "batch_bounded batch" and ls: "public_levels (expected_batch batch) = Some ls" and l: "l \<in> set ls"
  shows "pl_price l \<le> u32_max"
proof -
  let ?m = "residual_levels batch (slots (expected_batch batch)) (arriving_remaining (expected_batch batch))"
  have "l \<in> set (levels_of ?m)" using ls l by (auto simp: public_levels_expected_batch)
  then have "((Side_wire (pl_side l), pl_price l), pl_quantity l) \<in> set ?m"
    using bt.entries_get [OF btree_ok_residual_levels] by (simp add: in_levels_of_iff [OF refl])
  from residual_levels_key [OF this] residuals_bounded [OF b] show ?thesis by force
qed

lemma u64_max_le: "x \<le> u64_max"
  by (simp add: u64_max_def)

lemma row_level_less:
  assumes "batch_bounded batch" "level_row_of batch r" "level_row_of batch r'" "dr_key r < dr_key r'"
  shows "level_key (row_level r) < level_key (row_level r')"
proof -
  from assms(2,3) obtain s p t q where
    r: "r = level_row (uint (Side_wire s)) (uint p) (int (depth_after batch s p))" "p \<le> u32_max"
    and r': "r' = level_row (uint (Side_wire t)) (uint q) (int (depth_after batch t q))" "q \<le> u32_max"
    by (auto simp: level_row_of_def)
  have "uint (Side_wire s) < uint (Side_wire t) \<or> s = t \<and> (if s = Buy then uint q < uint p else uint p < uint q)"
    using assms(4) key_less [of "uint (Side_wire s)" "uint p" "uint (Side_wire t)" "uint q"] side_bit u32_uint [OF r(2)] u32_uint [OF r'(2)]
    unfolding r(1) r'(1) by (cases s; cases t) (simp_all add: uint_Side_wire)
  moreover have "u64_max - p < u64_max - q" if "q < p"
    using that unat_diff [OF u64_max_le, of p] unat_diff [OF u64_max_le, of q] u64_max_le [of p]
    by (simp add: word_less_nat_alt word_le_nat_alt)
  ultimately show ?thesis
    unfolding r(1) r'(1) row_level_row [OF assms(1)] level_key_def
    by (cases s; cases t) (auto simp: less_prod_def' word_less_def Side_wire_def)
qed

lemma sorted_levels_unique:
  assumes "sorted_wrt (<) (map (f :: 'a \<Rightarrow> 'b::linorder) xs)" "sorted_wrt (<) (map f ys)" "set xs = set ys"
  shows "xs = ys"
proof -
  have "map f xs = map f ys"
    using assms strict_sorted_equal [of "map f xs" "map f ys"] by simp
  moreover have "inj_on f (set xs)" using assms(1) by (simp add: strict_sorted_iff distinct_map)
  ultimately show ?thesis using assms(3) by (intro map_inj_on [of f xs ys]) simp_all
qed

text \<open>Whatever the sorting network, the sorted rows are the levels of the reference transition
  followed by padding.\<close>

lemma sorted_rows_levels:
  assumes w: "batch_wires batch rs a" and p: "slots_in_priority batch" and b: "batch_bounded batch"
    and s: "sorts_rows sort_rows"
  obtains ys where "sort_rows (depth_rows (book_wires a rs rnd)) = ys @ replicate (16 - length ys) depth_padding"
    "length ys \<le> MAX_MATCH_SLOTS + 1" "\<And>r. r \<in> set ys \<Longrightarrow> level_row_of batch r"
    "public_levels (expected_batch batch) = Some (map row_level ys)"
proof -
  note v = batch_view [OF w p b]
  from sorted_depth_rows [OF v s] obtain ys where
    e: "sort_rows (depth_rows (book_wires a rs rnd)) = ys @ replicate (16 - length ys) depth_padding"
    and m: "mset ys = mset (active_rows (batch_side batch) (batch_price batch) (batch_left batch))"
    and o: "sorted_wrt (<) (map dr_key ys)" and l: "length ys \<le> MAX_MATCH_SLOTS + 1" .
  have rows: "r \<in> set ys \<longleftrightarrow> level_row_of batch r" for r
    using active_rows_batch [OF b v] mset_eq_setD [OF m] by simp
  obtain ls where ls: "public_levels (expected_batch batch) = Some ls"
    using public_levels_expected_batch by blast
  have "sorted_wrt (\<lambda>r r'. level_key (row_level r) < level_key (row_level r')) ys"
    by (rule sorted_wrt_mono_rel [OF _ o [unfolded sorted_wrt_map]]) (use rows row_level_less [OF b] in blast)
  then have "sorted_wrt (<) (map level_key (map row_level ys))" by (simp add: sorted_wrt_map)
  moreover have "sorted_wrt (<) (map level_key ls)"
  proof (rule sorted_distinct_strict)
    show "sorted (map level_key ls)" "distinct (map level_key ls)"
      using ls distinct_levels_of [OF refl] by (auto simp: public_levels_expected_batch distinct_map)
  qed
  moreover have "set (map row_level ys) = set ls"
  proof (rule set_eqI)
    fix x
    have "x \<in> set (map row_level ys) \<longleftrightarrow> (\<exists>r. level_row_of batch r \<and> x = row_level r)" using rows by auto
    also have "\<dots> \<longleftrightarrow> x \<in> set ls"
    proof
      assume "\<exists>r. level_row_of batch r \<and> x = row_level r"
      then show "x \<in> set ls"
        unfolding in_public_levels_iff [OF b ls]
        by (auto simp: level_row_of_def row_level_row [OF b] unat_depth_after [OF b])
    next
      assume x: "x \<in> set ls"
      then have d: "0 < depth_after batch (pl_side x) (pl_price x)"
          "unat (pl_quantity x) = depth_after batch (pl_side x) (pl_price x)"
        using in_public_levels_iff [OF b ls] by blast+
      have "pl_price x \<le> u32_max" using level_price_bound [OF b ls x] .
      moreover have "x = row_level (level_row (uint (Side_wire (pl_side x))) (uint (pl_price x))
          (int (depth_after batch (pl_side x) (pl_price x))))"
        unfolding row_level_row [OF b] by (simp add: d(2) [symmetric])
      ultimately show "\<exists>r. level_row_of batch r \<and> x = row_level r"
        using d(1) unfolding level_row_of_def by blast
    qed
    finally show "x \<in> set (map row_level ys) \<longleftrightarrow> x \<in> set ls" .
  qed
  ultimately have "map row_level ys = ls" by (rule sorted_levels_unique)
  with ls show ?thesis using that [OF e l] rows by blast
qed

end
