(* ===== verification/Mpc_Runner.thy ===== *)
theory Mpc_Runner
  imports Mpc_Depth Transition_Proofs
begin

text \<open>
  The runner of \<open>oclob-mpc/src/lib.rs\<close>: what a party prints for a round, how the printed text is parsed
  and validated, and \<open>execute_batch\<close>, which accepts a result only when every party printed the same
  one. The engine's processes are the record \<open>mpc_host\<close>: the receipt check of its artifacts, secret sharing of
  the inputs, starting a mesh and serving one round on it. Paths, timings and process handles are left out
  of the runner's state; of the mesh only whether one is running is kept.
\<close>

section \<open>Text\<close>

definition newline :: char where "newline = CHR 0x0A"

definition is_whitespace :: "char \<Rightarrow> bool" where
  "is_whitespace c \<longleftrightarrow> c \<in> {CHR 0x09, CHR 0x0A, CHR 0x0B, CHR 0x0C, CHR 0x0D, CHR 0x20, CHR 0x85, CHR 0xA0}"

definition str_trim :: "string \<Rightarrow> string" where
  "str_trim s = rev (dropWhile is_whitespace (rev (dropWhile is_whitespace s)))"

definition strip_cr :: "string \<Rightarrow> string" where
  "strip_cr l = (if l \<noteq> [] \<and> last l = CHR 0x0D then butlast l else l)"

fun str_lines_from :: "string \<Rightarrow> string \<Rightarrow> string list" where
  "str_lines_from cur [] = (if cur = [] then [] else [rev cur])"
| "str_lines_from cur (c # cs) =
     (if c = newline then strip_cr (rev cur) # str_lines_from [] cs else str_lines_from (c # cur) cs)"

definition str_lines :: "string \<Rightarrow> string list" where
  "str_lines s = str_lines_from [] s"

definition strip_prefix :: "string \<Rightarrow> string \<Rightarrow> string option" where
  "strip_prefix p s = (if take (length p) s = p then Some (drop (length p) s) else None)"

definition digit_char :: "nat \<Rightarrow> char" where
  "digit_char d = char_of (48 + d)"

fun show_nat :: "nat \<Rightarrow> string" where
  "show_nat n = (if n < 10 then [digit_char n] else show_nat (n div 10) @ [digit_char (n mod 10)])"

declare show_nat.simps [simp del]

definition show_int :: "int \<Rightarrow> string" where
  "show_int v = (if v < 0 then ''-'' @ show_nat (nat (- v)) else show_nat (nat v))"

fun parse_digits :: "u64 \<Rightarrow> string \<Rightarrow> string + u64" where
  "parse_digits acc [] = Inr acc"
| "parse_digits acc (c # cs) =
     (let d = of_char c :: nat in
      if d < 48 \<or> 57 < d then Inl ''invalid digit found in string''
      else case checked_mul acc 10 of
          None \<Rightarrow> Inl ''number too large to fit in target type''
        | Some m \<Rightarrow> (case checked_add m (of_nat (d - 48)) of
            None \<Rightarrow> Inl ''number too large to fit in target type''
          | Some acc' \<Rightarrow> parse_digits acc' cs))"

definition parse_u64 :: "string \<Rightarrow> string + u64" where
  "parse_u64 s =
     (case s of
        [] \<Rightarrow> Inl ''cannot parse integer from empty string''
      | c # cs \<Rightarrow> if cs = [] \<and> (c = CHR ''+'' \<or> c = CHR ''-'') then Inl ''invalid digit found in string''
                 else if c = CHR ''+'' then parse_digits 0 cs else parse_digits 0 s)"

section \<open>What a party prints\<close>

definition slot_name :: "nat \<Rightarrow> string \<Rightarrow> string" where
  "slot_name slot field = ''OCLOB_SLOT_'' @ show_nat slot @ ''_'' @ field"

definition level_name :: "nat \<Rightarrow> string \<Rightarrow> string" where
  "level_name i field = ''OCLOB_LEVEL_'' @ show_nat i @ ''_'' @ field"

definition print_ln :: "string \<times> int \<Rightarrow> string" where
  "print_ln = (\<lambda>(name, v). name @ ''='' @ show_int v @ [newline])"

definition circuit_outputs ::
  "(depth_row list \<Rightarrow> depth_row list) \<Rightarrow> (nat \<Rightarrow> slot_random) \<Rightarrow> int list \<Rightarrow> (string \<times> int) list" where
  "circuit_outputs sort_rows rnd vs =
     (let rs = read_slots vs; a = read_arriving vs;
          rows = sort_rows (depth_rows (book_wires a rs rnd)) in
      concat (map (\<lambda>slot. [(slot_name slot ''MATCHED'', matched_wire a rs slot),
        (slot_name slot ''PRICE'', trade_price_wire a rs slot),
        (slot_name slot ''QUANTITY'', trade_quantity_wire a rs slot)]) [0..<MAX_MATCH_SLOTS])
      @ [(''OCLOB_ARRIVING_REMAINING'', published_remaining a rs)]
      @ concat (map (\<lambda>i. [(level_name i ''SIDE'', dr_side (rows ! i)), (level_name i ''PRICE'', dr_price (rows ! i)),
          (level_name i ''QUANTITY'', dr_quantity (rows ! i))]) [0..<MAX_MATCH_SLOTS + 1]))"

definition party_text ::
  "(depth_row list \<Rightarrow> depth_row list) \<Rightarrow> (nat \<Rightarrow> slot_random) \<Rightarrow> int list \<Rightarrow> string" where
  "party_text sort_rows rnd vs = concat (map print_ln (circuit_outputs sort_rows rnd vs))"

section \<open>Parsing\<close>

definition output_value :: "string \<Rightarrow> string \<Rightarrow> string + u64" where
  "output_value text name =
     (case List.map_filter (\<lambda>line. strip_prefix (name @ ''='') (str_trim line)) (str_lines text) of
        [] \<Rightarrow> Inl (''missing '' @ name)
      | item # others \<Rightarrow> if others \<noteq> [] then Inl (''duplicate '' @ name)
          else map_err (\<lambda>e. ''invalid '' @ name @ '': '' @ e) (parse_u64 (str_trim item)))"

definition parse_slot :: "string \<Rightarrow> nat \<Rightarrow> string + MpcSlotResult" where
  "parse_slot text slot =
     andThen (output_value text (slot_name slot ''MATCHED'')) (\<lambda>m.
     if 1 < m then Inl (''slot '' @ show_nat slot @ '' match bit is outside zero or one'')
     else andThen (output_value text (slot_name slot ''PRICE'')) (\<lambda>price.
     andThen (output_value text (slot_name slot ''QUANTITY'')) (\<lambda>qty.
     Inr \<lparr>matched = (m = 1), trade_price = price, trade_quantity = qty\<rparr>)))"

fun parse_levels :: "string \<Rightarrow> bool \<Rightarrow> nat list \<Rightarrow> string + MpcPriceLevel list" where
  "parse_levels text padding [] = Inr []"
| "parse_levels text padding (i # is) =
     andThen (output_value text (level_name i ''SIDE'')) (\<lambda>s.
     andThen (output_value text (level_name i ''PRICE'')) (\<lambda>price.
     andThen (output_value text (level_name i ''QUANTITY'')) (\<lambda>qty.
     if qty = 0 then
       if s \<noteq> 0 \<or> price \<noteq> 0 then Inl ''noncanonical public depth padding''
       else parse_levels text True is
     else if padding then Inl ''active public level after padding''
     else andThen (if s = 0 then Inr Buy else if s = 1 then Inr Sell else Inl ''invalid public depth side'') (\<lambda>sd.
     andThen (parse_levels text padding is) (\<lambda>ls.
     Inr (\<lparr>pl_side = sd, pl_price = price, pl_quantity = qty\<rparr> # ls))))))"

definition parse_result :: "string \<Rightarrow> string + MpcBatchResult" where
  "parse_result text =
     andThen (collect_results (map (parse_slot text) [0..<MAX_MATCH_SLOTS])) (\<lambda>fills.
     andThen (parse_levels text False [0..<MAX_MATCH_SLOTS + 1]) (\<lambda>levels.
     andThen (validate_public_levels levels) (\<lambda>_.
     andThen (output_value text ''OCLOB_ARRIVING_REMAINING'') (\<lambda>left.
     Inr \<lparr>slots = fills, arriving_remaining = left, public_levels = Some levels\<rparr>))))"

section \<open>Digests of the public result\<close>

definition public_depth_digest :: "crypto \<Rightarrow> MpcPriceLevel list \<Rightarrow> Digest32" where
  "public_depth_digest E levels = sha256 E (bytes_of ''OCLOB:PUBLIC-PRICE-LEVELS:v1''
     @ to_be_bytes (of_nat (length levels) :: u64)
     @ concat (map (\<lambda>l. Side_wire (pl_side l) # to_be_bytes (pl_price l) @ to_be_bytes (pl_quantity l)) levels))"

definition public_output_digest :: "crypto \<Rightarrow> MpcBatchResult \<Rightarrow> Digest32" where
  "public_output_digest E res = sha256 E (
     (if public_levels res \<noteq> None then bytes_of ''OCLOB:MPC-PUBLIC-OUTPUT:v2''
      else bytes_of ''OCLOB:MPC-PUBLIC-OUTPUT:v1'')
     @ concat (map (\<lambda>sl. of_bool (matched sl) # to_be_bytes (trade_price sl) @ to_be_bytes (trade_quantity sl)) (slots res))
     @ to_be_bytes (arriving_remaining res)
     @ (case public_levels res of None \<Rightarrow> [] | Some levels \<Rightarrow> to_be_bytes (public_depth_digest E levels)))"

section \<open>The runner\<close>

definition MPC_PARTIES :: nat where "MPC_PARTIES = 7"
definition MAX_CORRUPT_NODES :: nat where "MAX_CORRUPT_NODES = 2"

record mpc_host =
  host_recheck :: "string + unit"
  host_share :: "int list \<Rightarrow> string + int list list"
  host_spawn :: "u64 \<Rightarrow> MpcError + unit"
  host_serve :: "int list list \<Rightarrow> MpcError + string list"

record MpcRunner =
  rn_program_sha256 :: Digest32
  rn_rounds :: u64
  rn_mesh :: bool
  rn_meshes :: u64

definition ensure_mesh :: "mpc_host \<Rightarrow> MpcRunner \<Rightarrow> (MpcError + unit) \<times> MpcRunner" where
  "ensure_mesh host rn =
     (if rn_mesh rn then (Inr (), rn)
      else let rn1 = rn\<lparr>rn_meshes := rn_meshes rn + 1\<rparr> in
        case host_spawn host (rn_meshes rn1) of
          Inl e \<Rightarrow> (Inl e, rn1)
        | Inr _ \<Rightarrow> (Inr (), rn1\<lparr>rn_mesh := True\<rparr>))"

definition parse_parties :: "string list \<Rightarrow> MpcError + MpcBatchResult list" where
  "parse_parties outputs =
     collect_results (map (\<lambda>(party, text). map_err (Party party) (parse_result text)) (enumerate 0 outputs))"

definition round_receipt :: "crypto \<Rightarrow> MpcRunner \<Rightarrow> MpcBatchResult \<Rightarrow> MpcBatchReceipt" where
  "round_receipt E rn res = \<lparr>mb_protocol = bytes_of ''MP-SPDZ malicious-shamir'', mb_parties = of_nat MPC_PARTIES,
     mb_max_corrupt_nodes = of_nat MAX_CORRUPT_NODES, mb_program_sha256 = rn_program_sha256 rn,
     mb_public_output_sha256 = public_output_digest E res, mb_all_parties_agreed = True, mb_result = res\<rparr>"

definition serve_batch ::
  "crypto \<Rightarrow> mpc_host \<Rightarrow> PrivateMatchBatch \<Rightarrow> int list list \<Rightarrow> MpcRunner \<Rightarrow> (MpcError + MpcBatchReceipt) \<times> MpcRunner" where
  "serve_batch E host batch party_files rn =
     (let down = rn\<lparr>rn_mesh := False\<rparr> in
      case host_serve host party_files of
        Inl e \<Rightarrow> (Inl e, down)
      | Inr outputs \<Rightarrow> (case parse_parties outputs of
          Inl e \<Rightarrow> (Inl e, down)
        | Inr [] \<Rightarrow> (Inl NoOutput, rn)
        | Inr (first # parsed) \<Rightarrow>
            if \<exists>r\<in>set (first # parsed). r \<noteq> first then (Inl Disagreement, down)
            else let res = first\<lparr>slots := take (length (resting batch)) (slots first)\<rparr> in
              (Inr (round_receipt E rn res), rn\<lparr>rn_rounds := rn_rounds rn + 1\<rparr>)))"

definition execute_batch ::
  "crypto \<Rightarrow> mpc_host \<Rightarrow> MpcRunner \<Rightarrow> PrivateMatchBatch \<Rightarrow> (MpcError + MpcBatchReceipt) \<times> MpcRunner" where
  "execute_batch E host rn batch =
     guarded (map_err Setup (host_recheck host)) rn (\<lambda>_.
     guarded (fail_if (MAX_MATCH_SLOTS < length (resting batch))
       (Input (''a batch supports at most '' @ show_nat MAX_MATCH_SLOTS @ '' resting slots''))) rn (\<lambda>_.
     guarded (compatibility_private_values batch) rn (\<lambda>vs.
     guarded (map_err Input (host_share host vs)) rn (\<lambda>party_files.
     case ensure_mesh host rn of
       (Inl e, rn1) \<Rightarrow> (Inl e, rn1)
     | (Inr _, rn1) \<Rightarrow> serve_batch E host batch party_files rn1))))"

definition execute ::
  "crypto \<Rightarrow> mpc_host \<Rightarrow> MpcRunner \<Rightarrow> PrivateMatchInput \<Rightarrow> (MpcError + MpcReceipt) \<times> MpcRunner" where
  "execute E host rn inp =
     (case execute_batch E host rn \<lparr>resting = [\<lparr>ri_commitment = OrderCommitment 0, ri_side = mi_resting_side inp,
          ri_price = mi_resting_price inp, ri_quantity = mi_resting_quantity inp\<rparr>],
          arriving_side = mi_arriving_side inp, arriving_price = mi_arriving_price inp,
          arriving_quantity = mi_arriving_quantity inp, arriving_can_rest = True\<rparr> of
        (Inl e, rn1) \<Rightarrow> (Inl e, rn1)
      | (Inr rcp, rn1) \<Rightarrow> let slot = slots (mb_result rcp) ! 0 in
          (Inr \<lparr>mr_protocol = mb_protocol rcp, mr_parties = mb_parties rcp,
             mr_max_corrupt_nodes = mb_max_corrupt_nodes rcp, mr_program_sha256 = mb_program_sha256 rcp,
             mr_public_output_sha256 = mb_public_output_sha256 rcp, mr_all_parties_agreed = mb_all_parties_agreed rcp,
             mr_result = \<lparr>mm_matched = matched slot, mm_trade_price = trade_price slot,
               mm_trade_quantity = trade_quantity slot,
               mm_resting_remaining = mi_resting_quantity inp - trade_quantity slot,
               mm_arriving_remaining = arriving_remaining (mb_result rcp)\<rparr>\<rparr>, rn1))"

end
