(* ===== verification/Service.thy ===== *)
theory Service
  imports Eligibility Local_Settlement Mpc_Runner
begin

text \<open>
  The application seam, \<open>oclob-service/src/lib.rs\<close> and \<open>oclob-service/src/optimistic.rs\<close>: one service holds the
  private book, the ordering committee, the MPC runner, the settlement engine and the eligibility verifier,
  and takes an order from admission to settlement on staged copies. A method that takes \<open>&mut self\<close> returns its
  result with the service it leaves, so that what an error leaves behind is explicit. \<open>service_env\<close> collects
  what one call takes from outside: the settlement kit with its random draws, the issuance of reservation
  instructions, the MPC processes and the credential package.
\<close>

section \<open>Errors\<close>

definition OrderError_to_string :: "OrderError \<Rightarrow> string" where
  "OrderError_to_string e = (case e of
     Invalid m \<Rightarrow> ''invalid order: '' @ m
   | Authority \<Rightarrow> ''order authority is expired, malformed, or bound to another order''
   | Replay \<Rightarrow> ''order commitment was already admitted''
   | InvalidMpcResult \<Rightarrow> ''MPC result does not describe the canonical price-time transition''
   | WrongMarket \<Rightarrow> ''the order belongs to a different market''
   | UnknownOrder \<Rightarrow> ''the target order is unknown or already terminal''
   | InvalidCancellation \<Rightarrow> ''cancellation secret does not authorize the target order'')"

definition OrderingError_to_string :: "OrderingError \<Rightarrow> string" where
  "OrderingError_to_string e = (case e of
     InvalidPolicy \<Rightarrow> ''the OCLOB committee policy is not the frozen 7-node profile''
   | InvalidNode \<Rightarrow> ''unknown or invalid ordering node''
   | InvalidVote \<Rightarrow> ''invalid or expired order vote''
   | InsufficientQuorum \<Rightarrow> ''the ordering quorum was not reached''
   | Equivocation \<Rightarrow> ''an orderer attempted to vote twice for different statements''
   | BrokenChain \<Rightarrow> ''the certificate does not extend the current chain''
   | OrderingReplay \<Rightarrow> ''the same order commitment was already ordered'')"

definition MpcError_to_string :: "MpcError \<Rightarrow> string" where
  "MpcError_to_string e = (case e of
     Setup m \<Rightarrow> ''MP-SPDZ setup failed: '' @ m
   | Compile m \<Rightarrow> ''MP-SPDZ compiler failed: '' @ m
   | Input m \<Rightarrow> ''private input sharing failed: '' @ m
   | Party i m \<Rightarrow> ''MP-SPDZ party '' @ show_nat i @ '' failed: '' @ m
   | NoOutput \<Rightarrow> ''MP-SPDZ emitted no result''
   | Disagreement \<Rightarrow> ''the seven MP-SPDZ parties disagreed''
   | Timeout \<Rightarrow> ''the MP-SPDZ round exceeded 300 seconds''
   | Io m \<Rightarrow> m)"

datatype ServiceError =
    Service_Order string
  | Service_Eligibility string
  | Service_Ordering string
  | Service_Mpc string
  | Service_Proof string
  | Service_Settlement string
  | CanonicalUncertain string
  | Service_Queue string
  | Service_Panic string

text \<open>\<open>Panic\<close> stands for an \<open>expect\<close> that fails: it is never turned into an error value.\<close>

definition settlement_failed :: "SettlementError \<Rightarrow> ServiceError" where
  "settlement_failed e = (case e of
     InvalidFill \<Rightarrow> Service_Settlement ''fill is empty''
   | Cryptography m \<Rightarrow> Service_Settlement (''cryptographic construction failed: '' @ m)
   | Proof m \<Rightarrow> Service_Settlement (''distributed proof construction failed: '' @ m)
   | ReplayAccepted \<Rightarrow> Service_Settlement ''DeFMI accepted a replayed instruction''
   | Insolvent \<Rightarrow> Service_Settlement ''DeFMI conservation failed''
   | CanonicalDivergence \<Rightarrow>
       Service_Settlement ''the independently built and committed DeFMI batch states diverged''
   | Finality m \<Rightarrow> Service_Settlement (''canonical readback failed: '' @ m)
   | Reservation m \<Rightarrow> Service_Settlement (''canonical reservation failed: '' @ m)
   | Panic m \<Rightarrow> Service_Panic m)"

definition order_failed :: "OrderError \<Rightarrow> ServiceError" where
  "order_failed e = Service_Order (OrderError_to_string e)"

definition ordering_failed :: "OrderingError \<Rightarrow> ServiceError" where
  "ordering_failed e = Service_Ordering (OrderingError_to_string e)"

definition mpc_failed :: "MpcError \<Rightarrow> ServiceError" where
  "mpc_failed e = Service_Mpc (MpcError_to_string e)"

definition proof_failed :: "ProofError \<Rightarrow> ServiceError" where
  "proof_failed e = Service_Proof (ProofError_to_string e)"

definition eligibility_failed :: "EligibilityError \<Rightarrow> ServiceError" where
  "eligibility_failed e = Service_Eligibility (EligibilityError_to_string e)"

fun retryable :: "ServiceError \<Rightarrow> bool" where
  "retryable (Service_Ordering _) = True"
| "retryable (Service_Mpc _) = True"
| "retryable (Service_Proof _) = True"
| "retryable (Service_Settlement _) = True"
| "retryable _ = False"

section \<open>Data\<close>

record OclobExpiryReceipt =
  xr_certificate :: OrderCertificate
  xr_transition :: ExpiryTransition
  xr_proof :: ExpiryProof
  xr_reservation_release :: ReservationBatchReleaseReceipt

record OclobCancellationReceipt =
  xc_certificate :: OrderCertificate
  xc_transition :: CancellationTransition
  xc_proof :: CancellationProof
  xc_reservation_release :: ReservationReleaseReceipt

record 'a OclobExecutionReceipt =
  xe_expired_before :: "OclobExpiryReceipt option"
  xe_certificate :: OrderCertificate
  xe_reservation :: ReservationReceipt
  xe_eligibility :: VerifiedOrderEligibility
  xe_mpc :: MpcBatchReceipt
  xe_book_transition :: BookTransition
  xe_transition_proof :: 'a
  xe_settlement :: "OclobSettlementReceipt option"
  xe_reservation_release :: "ReservationReleaseReceipt option"

record 'l OclobService =
  sv_market_id :: rust_str
  sv_book :: PrivateBook
  sv_ordering :: OrderingCommittee
  sv_mpc :: MpcRunner
  sv_settlement :: SettlementEngine
  sv_eligibility :: "'l OclobEligibilityVerifier"
  sv_demo_handles :: "Digest32 \<times> Digest32"

record ('l, 'p, 'v) StagedSubmission =
  sg_settlement_order :: SecretOrder
  sg_book :: PrivateBook
  sg_ordering :: OrderingCommittee
  sg_settlement :: SettlementEngine
  sg_eligibility_verifier :: "'l OclobEligibilityVerifier"
  sg_certificate :: OrderCertificate
  sg_reservation :: ReservationReceipt
  sg_eligibility :: VerifiedOrderEligibility
  sg_mpc :: MpcBatchReceipt
  sg_book_transition :: BookTransition
  sg_transition_proof :: 'p
  sg_verified_transition :: 'v

record ('l, 'a) PreparedOclobSubmission =
  ps_base_book_root :: Digest32
  ps_base_settlement :: SettlementStateSnapshot
  ps_book :: PrivateBook
  ps_ordering :: OrderingCommittee
  ps_settlement :: SettlementEngine
  ps_eligibility_verifier :: "'l OclobEligibilityVerifier"
  ps_certificate :: OrderCertificate
  ps_reservation :: ReservationReceipt
  ps_eligibility :: VerifiedOrderEligibility
  ps_mpc :: MpcBatchReceipt
  ps_book_transition :: BookTransition
  ps_transition_proof :: 'a
  ps_canonical :: PreparedCanonicalTransition

record 'l service_env =
  en_kit :: dvp_kit
  en_fill_random :: "nat \<Rightarrow> fill_random"
  en_reserve_blinding :: scalar
  en_issue :: zkpi_issue
  en_mpc :: mpc_host
  en_dekyx :: "'l dekyx_host"

definition then_run :: "('e + 'a) \<times> 's \<Rightarrow> ('a \<Rightarrow> 's \<Rightarrow> ('e + 'b) \<times> 's) \<Rightarrow> ('e + 'b) \<times> 's" where
  "then_run m k = (case m of (Inl e, s) \<Rightarrow> (Inl e, s) | (Inr x, s) \<Rightarrow> k x s)"

section \<open>Construction and views\<close>

definition SettlementEngine_new ::
  "crypto \<Rightarrow> (u64 \<Rightarrow> 256 word \<Rightarrow> RistrettoPoint) \<Rightarrow> RistrettoPoint \<Rightarrow> RistrettoPoint \<Rightarrow>
   256 word \<times> 256 word \<times> 256 word \<times> 256 word \<Rightarrow> SettlementError + SettlementEngine" where
  "SettlementEngine_new E commit first second scalars =
     andThen (map_err (\<lambda>e. Proof (OrderingError_to_string e)) (deterministic_for_demo E)) (\<lambda>committee.
     new_with_transition_committee E commit first second scalars (oc_keys committee) (oc_policy committee))"

definition OclobService_new ::
  "crypto \<Rightarrow> (u64 \<Rightarrow> 256 word \<Rightarrow> RistrettoPoint) \<Rightarrow> RistrettoPoint \<Rightarrow> RistrettoPoint \<Rightarrow>
   256 word \<times> 256 word \<times> 256 word \<times> 256 word \<Rightarrow> rust_str \<Rightarrow> MpcError + MpcRunner \<Rightarrow>
   'l OclobEligibilityVerifier \<Rightarrow> ServiceError + 'l OclobService" where
  "OclobService_new E commit first second scalars market compiled eligibility =
     andThen (map_err settlement_failed (SettlementEngine_new E commit first second scalars)) (\<lambda>engine.
     andThen (map_err order_failed (PrivateBook_new market)) (\<lambda>book.
     andThen (map_err ordering_failed (deterministic_for_demo E)) (\<lambda>committee.
     andThen (map_err mpc_failed compiled) (\<lambda>runner.
     Inr \<lparr>sv_market_id = market, sv_book = book, sv_ordering = committee, sv_mpc = runner,
          sv_settlement = engine, sv_eligibility = eligibility, sv_demo_handles = (first, second)\<rparr>))))"

definition verify_transition_for_settlement ::
  "crypto \<Rightarrow> 'l OclobService \<Rightarrow> TransitionProof \<Rightarrow> ServiceError + VerifiedTransitionProof" where
  "verify_transition_for_settlement E sv p =
     map_err proof_failed (into_verified E p (oc_keys (sv_ordering sv)) (oc_policy (sv_ordering sv)))"

definition transition_signers :: "OrderingCommittee \<Rightarrow> (u16 \<times> SigningKey) list" where
  "transition_signers oc = map (\<lambda>n. (on_id n, on_key n)) (oc_nodes oc)"

definition check_eligibility :: "'l OclobService \<Rightarrow> SecretOrder \<Rightarrow> ServiceError + unit" where
  "check_eligibility sv ord =
     fail_if (market_id ord \<noteq> sv_market_id sv) (Service_Order ''order is for another market'')"

section \<open>Cancellation and expiry\<close>

definition cancel ::
  "crypto \<Rightarrow> 'l OclobService \<Rightarrow> SecretCancellation \<Rightarrow> u64 \<Rightarrow>
   (ServiceError + OclobCancellationReceipt) \<times> 'l OclobService" where
  "cancel E sv k now =
     (let (r1, oc) = certify E (sv_ordering sv) (sv_market_id sv) (SecretCancellation_commitment E k)
                       (saturating_add now 60) now in
      guarded (map_err ordering_failed r1) sv (\<lambda>certificate.
      let (r2, b) = apply_cancellation E (sv_book sv) k (ct_sequence certificate) in
      guarded (map_err order_failed r2) sv (\<lambda>transition.
      guarded (map_err proof_failed (cancellation_from_transition E certificate transition)) sv (\<lambda>statement.
      guarded (map_err proof_failed (CancellationProof_attest E statement (transition_signers oc) (oc_policy oc))) sv
        (\<lambda>proof.
      guarded (map_err proof_failed (CancellationProof_verify E proof (oc_keys oc) (oc_policy oc))) sv (\<lambda>_.
      let (r3, g) = release_order E (sv_settlement sv) (commitment_bytes (sc_target k)) in
      guarded (map_err settlement_failed r3) sv (\<lambda>release.
      (Inr \<lparr>xc_certificate = certificate, xc_transition = transition, xc_proof = proof,
            xc_reservation_release = release\<rparr>,
       sv\<lparr>sv_book := b, sv_ordering := oc, sv_settlement := g\<rparr>))))))))"

definition expire_due ::
  "crypto \<Rightarrow> 'l OclobService \<Rightarrow> u64 \<Rightarrow> (ServiceError + OclobExpiryReceipt option) \<times> 'l OclobService" where
  "expire_due E sv now =
     (let expired = expired_commitments (sv_book sv) now in
      if expired = [] then (Inr None, sv)
      else let c = expiry_commitment E (sv_market_id sv) now expired;
        (r1, oc) = certify E (sv_ordering sv) (sv_market_id sv) c (saturating_add now 60) now in
      guarded (map_err ordering_failed r1) sv (\<lambda>certificate.
      let (r2, b) = apply_expiry E (sv_book sv) now c (ct_sequence certificate) in
      guarded (map_err order_failed r2) sv (\<lambda>transition.
      guarded (map_err proof_failed (expiry_from_transition E certificate transition)) sv (\<lambda>statement.
      guarded (map_err proof_failed (ExpiryProof_attest E statement (transition_signers oc) (oc_policy oc))) sv
        (\<lambda>proof.
      guarded (map_err proof_failed (ExpiryProof_verify E proof (oc_keys oc) (oc_policy oc))) sv (\<lambda>_.
      let (r3, g) = release_orders_atomic E (sv_settlement sv) (map commitment_bytes expired) in
      guarded (map_err settlement_failed r3) sv (\<lambda>release.
      (Inr (Some \<lparr>xr_certificate = certificate, xr_transition = transition, xr_proof = proof,
                  xr_reservation_release = release\<rparr>),
       sv\<lparr>sv_book := b, sv_ordering := oc, sv_settlement := g\<rparr>))))))))"

section \<open>Staging a submission\<close>

definition reserve_order ::
  "crypto \<Rightarrow> dvp_kit \<Rightarrow> scalar \<Rightarrow> SettlementEngine \<Rightarrow> SettlementOrderView \<Rightarrow>
   (SettlementError + ReservationReceipt) \<times> SettlementEngine" where
  "reserve_order E K blinding g v =
     reserve_order_with_commitment E g v (commit_u64 K (settlement_reservation_limit v) blinding)"

text \<open>Everything is staged on copies. Only the MPC runner of the live service moves, also when a later step
  fails.\<close>

definition stage_with_assurance ::
  "crypto \<Rightarrow> 'l service_env \<Rightarrow> 'l OclobService \<Rightarrow> SecretOrder \<Rightarrow> OrderAuthority \<Rightarrow> AnonymousPresentation \<Rightarrow> u64 \<Rightarrow>
   (TransitionStatement \<Rightarrow> OrderingCommittee \<Rightarrow> ServiceError + 'p \<times> 'v) \<Rightarrow>
   (ServiceError + ('l, 'p, 'v) StagedSubmission) \<times> 'l OclobService" where
  "stage_with_assurance E N sv ord a evidence now assure =
     guarded (check_eligibility sv ord) sv (\<lambda>_.
     guarded (map_err order_failed (OrderAuthority_verify E a ord now)) sv (\<lambda>_.
     guarded (map_err order_failed (validate_market_rules ord MarketRules_p1)) sv (\<lambda>_.
     guarded (fail_if (exceeds_fixed_match_capacity (sv_book sv) ord now)
       (Service_Order (''one order may match at most '' @ show_nat MAX_MATCH_SLOTS
         @ '' resting orders in the fixed circuit''))) sv (\<lambda>_.
     let (r1, eligibility_verifier) = verify_order (en_dekyx N) (sv_eligibility sv)
           (commitment_bytes (commitment E ord)) (dekyx_nullifier ord) (expires_at ord) evidence now in
     guarded (map_err eligibility_failed r1) sv (\<lambda>verified.
     let (r2, g1) = bind_eligible_participant (sv_settlement sv) (participant_handle ord)
           (ve_subject_nullifier verified) in
     guarded (map_err settlement_failed r2) sv (\<lambda>_.
     let (r3, g2) = reserve_order E (en_kit N) (en_reserve_blinding N) g1 (secret_order_view E ord) in
     guarded (map_err settlement_failed r3) sv (\<lambda>reservation.
     let (r4, oc) = certify E (sv_ordering sv) (sv_market_id sv) (oa_commitment a) (expires_at ord) now in
     guarded (map_err ordering_failed r4) sv (\<lambda>certificate.
     guarded (map_err order_failed (private_match_batch (sv_book sv) ord now)) sv (\<lambda>private_input.
     let (r5, rn) = execute_batch E (en_mpc N) (sv_mpc sv) private_input; sv1 = sv\<lparr>sv_mpc := rn\<rparr> in
     guarded (map_err mpc_failed r5) sv1 (\<lambda>mpc.
     let (r6, b) = apply_mpc_batch_result E (sv_book sv) ord a (ct_sequence certificate) now (mb_result mpc) in
     guarded (map_err order_failed r6) sv1 (\<lambda>transition.
     guarded (map_err proof_failed (from_batch_execution E certificate transition mpc (ve_proof_digest verified))) sv1
       (\<lambda>statement.
     guarded (assure statement oc) sv1 (\<lambda>(proof, verified_transition).
     (Inr \<lparr>sg_settlement_order = ord, sg_book = b, sg_ordering = oc, sg_settlement = g2,
           sg_eligibility_verifier = eligibility_verifier, sg_certificate = certificate,
           sg_reservation = reservation, sg_eligibility = verified, sg_mpc = mpc,
           sg_book_transition = transition, sg_transition_proof = proof,
           sg_verified_transition = verified_transition\<rparr>, sv1))))))))))))))"

definition joint_assurance ::
  "crypto \<Rightarrow> TransitionStatement \<Rightarrow> OrderingCommittee \<Rightarrow> ServiceError + TransitionProof \<times> VerifiedTransitionProof" where
  "joint_assurance E statement oc =
     andThen (map_err proof_failed (TransitionProof_attest E statement (transition_signers oc) (oc_policy oc))) (\<lambda>proof.
     andThen (map_err proof_failed (TransitionProof_verify E proof (oc_keys oc) (oc_policy oc))) (\<lambda>_.
     andThen (map_err proof_failed (into_verified E proof (oc_keys oc) (oc_policy oc))) (\<lambda>verified.
     Inr (proof, verified))))"

definition stage_submission ::
  "crypto \<Rightarrow> 'l service_env \<Rightarrow> 'l OclobService \<Rightarrow> SecretOrder \<Rightarrow> OrderAuthority \<Rightarrow> AnonymousPresentation \<Rightarrow> u64 \<Rightarrow>
   (ServiceError + ('l, TransitionProof, VerifiedTransitionProof) StagedSubmission) \<times> 'l OclobService" where
  "stage_submission E N sv ord a evidence now = stage_with_assurance E N sv ord a evidence now (joint_assurance E)"

section \<open>Submission with local settlement\<close>

text \<open>What becomes of a staged order: no fill releases an immediate-or-cancel reservation and keeps any
  other; fills settle as one batch.\<close>

definition settle_staged_order ::
  "crypto \<Rightarrow> defmi \<Rightarrow> 'l service_env \<Rightarrow> ('l, TransitionProof, VerifiedTransitionProof) StagedSubmission \<Rightarrow> u64 \<Rightarrow>
   (ServiceError + OclobSettlementReceipt option \<times> ReservationReleaseReceipt option) \<times> SettlementEngine" where
  "settle_staged_order E D N sg now =
     (let ord = sg_settlement_order sg; tr = sg_book_transition sg; g = sg_settlement sg in
      if bx_fills tr = [] then
        if time_in_force ord = ImmediateOrCancel then
          let (r, g') = release_order E g (commitment_bytes (commitment E ord)) in
          (map_sum settlement_failed (\<lambda>x. (None, Some x)) r, g')
        else (Inr (None, None), g)
      else
        let (r, g') = settle_batch E D (en_kit N) (en_fill_random N) g (bx_fills tr)
              (JointProof (sg_verified_transition sg)) (secret_order_view E ord) (bx_arriving_remaining tr) now in
        (map_sum settlement_failed (\<lambda>x. (Some x, None)) r, g'))"

definition submit ::
  "crypto \<Rightarrow> defmi \<Rightarrow> 'l service_env \<Rightarrow> 'l OclobService \<Rightarrow> SecretOrder \<Rightarrow> OrderAuthority \<Rightarrow> AnonymousPresentation \<Rightarrow>
   u64 \<Rightarrow> (ServiceError + TransitionProof OclobExecutionReceipt) \<times> 'l OclobService" where
  "submit E D N sv ord a evidence now =
     then_run (expire_due E sv now) (\<lambda>expired_before sv1.
     then_run (stage_submission E N sv1 ord a evidence now) (\<lambda>sg sv2.
     let (r, g) = settle_staged_order E D N sg now in
     guarded r sv2 (\<lambda>(settlement, release).
     (Inr \<lparr>xe_expired_before = expired_before, xe_certificate = sg_certificate sg,
           xe_reservation = sg_reservation sg, xe_eligibility = sg_eligibility sg, xe_mpc = sg_mpc sg,
           xe_book_transition = sg_book_transition sg, xe_transition_proof = sg_transition_proof sg,
           xe_settlement = settlement, xe_reservation_release = release\<rparr>,
      sv2\<lparr>sv_book := sg_book sg, sv_ordering := sg_ordering sg, sv_settlement := g,
          sv_eligibility := sg_eligibility_verifier sg\<rparr>))))"

definition canonical_result :: "'a OclobExecutionReceipt \<Rightarrow> Digest32 \<times> u64" where
  "canonical_result x = (case xe_settlement x of
     Some s \<Rightarrow> (sr_canonical_receipt_digest s, sr_canonical_height s)
   | None \<Rightarrow> (case xe_reservation_release x of
       Some r \<Rightarrow> (rl_canonical_receipt_digest r, rl_canonical_height r)
     | None \<Rightarrow> (rc_canonical_receipt_digest (xe_reservation x), rc_canonical_height (xe_reservation x))))"

section \<open>Submission through the canonical chain\<close>

definition prepare_staged ::
  "crypto \<Rightarrow> defmi \<Rightarrow> 'l service_env \<Rightarrow> ('v \<Rightarrow> TransitionAuthorization) \<Rightarrow> 'l OclobService \<Rightarrow>
   ('l, 'p, 'v) StagedSubmission \<Rightarrow> u64 \<Rightarrow> ServiceError + ('l, 'p) PreparedOclobSubmission" where
  "prepare_staged E D N authorization sv sg now =
     (let ord = sg_settlement_order sg; tr = sg_book_transition sg; g = sv_settlement sv;
          v = secret_order_view E ord; transition = authorization (sg_verified_transition sg) in
      andThen (fail_if (bx_fills tr = [] \<and> time_in_force ord = ImmediateOrCancel)
        (Service_Settlement ''a no-fill immediate-or-cancel order needs one atomic reserve-release transition'')) (\<lambda>_.
      andThen (map_err settlement_failed
        (if bx_fills tr = []
         then prepare_canonical_reservation E D (en_issue N) g (sg_settlement sg) (sg_reservation sg) v
                (sg_certificate sg) transition now
         else prepare_canonical_admission_batch E D (en_kit N) (en_fill_random N) (en_issue N) g (sg_settlement sg)
                (sg_reservation sg) (bx_fills tr) transition (sg_certificate sg) v (bx_arriving_remaining tr) now))
        (\<lambda>canonical.
      Inr \<lparr>ps_base_book_root = sn_state_root (public_snapshot E (sv_book sv)),
           ps_base_settlement = state_snapshot E D g, ps_book = sg_book sg, ps_ordering = sg_ordering sg,
           ps_settlement = g, ps_eligibility_verifier = sg_eligibility_verifier sg,
           ps_certificate = sg_certificate sg, ps_reservation = sg_reservation sg,
           ps_eligibility = sg_eligibility sg, ps_mpc = sg_mpc sg, ps_book_transition = tr,
           ps_transition_proof = sg_transition_proof sg, ps_canonical = canonical\<rparr>)))"

definition prepare_canonical_submit ::
  "crypto \<Rightarrow> defmi \<Rightarrow> 'l service_env \<Rightarrow> 'l OclobService \<Rightarrow> SecretOrder \<Rightarrow> OrderAuthority \<Rightarrow> AnonymousPresentation \<Rightarrow>
   u64 \<Rightarrow> (ServiceError + ('l, TransitionProof) PreparedOclobSubmission) \<times> 'l OclobService" where
  "prepare_canonical_submit E D N sv ord a evidence now =
     guarded (fail_if (expired_commitments (sv_book sv) now \<noteq> [])
       (Service_Settlement ''expired reservations must reach canonical finality before a new execution'')) sv (\<lambda>_.
     then_run (stage_submission E N sv ord a evidence now) (\<lambda>sg sv1.
     (prepare_staged E D N JointProof sv1 sg now, sv1)))"

text \<open>The reservation receipt of a filled order takes over the canonical fields of its settlement.\<close>

definition accepted_reservation :: "ReservationReceipt \<Rightarrow> OclobSettlementReceipt \<Rightarrow> ReservationReceipt" where
  "accepted_reservation r s = r\<lparr>rc_state_root := sr_reservation_after_root s,
     rc_canonical_receipt_digest := sr_canonical_receipt_digest s, rc_canonical_height := sr_canonical_height s,
     rc_zkpi_digest := sr_arriving_reservation_zkpi_digest s,
     rc_instruction_nullifier := sr_arriving_reservation_instruction_nullifier s,
     rc_proof_digest := sr_arriving_reservation_proof_digest s,
     rc_avalanche_transaction_id := sr_avalanche_transaction_id s,
     rc_avalanche_block_id := sr_avalanche_block_id s\<rparr>"

definition accept ::
  "crypto \<Rightarrow> defmi \<Rightarrow> ('l, 'a) PreparedOclobSubmission \<Rightarrow> 'l OclobService \<Rightarrow> CanonicalSettlementAcceptance \<Rightarrow>
   (ServiceError + 'a OclobExecutionReceipt) \<times> 'l OclobService" where
  "accept E D p sv x =
     guarded (fail_if (sn_state_root (public_snapshot E (sv_book sv)) \<noteq> ps_base_book_root p
         \<or> state_snapshot E D (sv_settlement sv) \<noteq> ps_base_settlement p)
       (Service_Settlement ''prepared OCLOB execution is stale against current service state'')) sv (\<lambda>_.
     let (r, g) = canonical_accept E D (ps_canonical p) (ps_settlement p) x in
     guarded (map_err settlement_failed r) sv (\<lambda>applied.
     let (reservation, settlement) = (case applied of
           AppliedReservation q \<Rightarrow> (q, None)
         | AppliedSettlement s \<Rightarrow> (accepted_reservation (ps_reservation p) s, Some s)) in
     (Inr \<lparr>xe_expired_before = None, xe_certificate = ps_certificate p, xe_reservation = reservation,
           xe_eligibility = ps_eligibility p, xe_mpc = ps_mpc p, xe_book_transition = ps_book_transition p,
           xe_transition_proof = ps_transition_proof p, xe_settlement = settlement,
           xe_reservation_release = None\<rparr>,
      sv\<lparr>sv_book := ps_book p, sv_ordering := ps_ordering p, sv_settlement := g,
         sv_eligibility := ps_eligibility_verifier p\<rparr>)))"

section \<open>Optimistic submission\<close>

record NodeExecutionAdmission =
  na_context :: ExecutionContext
  na_rest :: "u8 list"

text \<open>The host callback, the proposer's signature and the challenge client of one call.\<close>

record optimistic_client =
  oh_admit :: "TransitionStatement \<Rightarrow> TransitionChallengeVerifier \<Rightarrow> string + NodeExecutionAdmission"
  oh_sign :: "NodeExecutionAdmission \<Rightarrow> Digest32 \<Rightarrow> string + Proposal"
  oh_propose :: "Proposal \<Rightarrow> string + unit"

record 'l PendingOclobSubmission =
  pe_base_book_root :: Digest32
  pe_base_settlement :: SettlementStateSnapshot
  pe_staged :: "('l, Proposal, TransitionStatement) StagedSubmission"
  pe_verifier :: TransitionChallengeVerifier

definition optimistic_assurance ::
  "crypto \<Rightarrow> optimistic_client \<Rightarrow> TransitionChallengeVerifier \<Rightarrow> TransitionStatement \<Rightarrow> OrderingCommittee \<Rightarrow>
   ServiceError + Proposal \<times> TransitionStatement" where
  "optimistic_assurance E C verifier statement oc =
     andThen (map_err Service_Settlement (oh_admit C statement verifier)) (\<lambda>admission.
     andThen (fail_if (ec_input_root (na_context admission) \<noteq> transition_input_root E statement
         \<or> ec_verifier (na_context admission) \<noteq> tv_identity verifier)
       (Service_Proof ''canonical admission differs from the executed OCLOB input'')) (\<lambda>_.
     andThen (map_err Service_Proof (oh_sign C admission (statement_digest_of E statement))) (\<lambda>proposal.
     andThen (map_err Service_Settlement (oh_propose C proposal)) (\<lambda>_.
     Inr (proposal, statement)))))"

definition prepare_optimistic_submit ::
  "crypto \<Rightarrow> defmi \<Rightarrow> 'l service_env \<Rightarrow> optimistic_client \<Rightarrow> 'l OclobService \<Rightarrow> SecretOrder \<Rightarrow> OrderAuthority \<Rightarrow>
   AnonymousPresentation \<Rightarrow> u64 \<Rightarrow> (ServiceError + 'l PendingOclobSubmission) \<times> 'l OclobService" where
  "prepare_optimistic_submit E D N C sv ord a evidence now =
     guarded (fail_if (expired_commitments (sv_book sv) now \<noteq> [])
       (Service_Settlement ''expired reservations must reach canonical finality first'')) sv (\<lambda>_.
     guarded (map_err Service_Proof (TransitionChallengeVerifier_new E (oc_keys (sv_ordering sv))
       (oc_policy (sv_ordering sv)))) sv (\<lambda>verifier.
     then_run (stage_with_assurance E N sv ord a evidence now (optimistic_assurance E C verifier)) (\<lambda>sg sv1.
     (Inr \<lparr>pe_base_book_root = sn_state_root (public_snapshot E (sv_book sv)),
           pe_base_settlement = state_snapshot E D (sv_settlement sv), pe_staged = sg,
           pe_verifier = verifier\<rparr>, sv1))))"

definition challenge_proof :: "crypto \<Rightarrow> 'l PendingOclobSubmission \<Rightarrow> ServiceError + TransitionProof" where
  "challenge_proof E p = map_err proof_failed (TransitionProof_attest E (sg_verified_transition (pe_staged p))
     (transition_signers (sg_ordering (pe_staged p))) (oc_policy (sg_ordering (pe_staged p))))"

definition pending_finalize ::
  "crypto \<Rightarrow> defmi \<Rightarrow> 'l service_env \<Rightarrow> optimistic_host \<Rightarrow> 'l PendingOclobSubmission \<Rightarrow> 'l OclobService \<Rightarrow> Claim \<Rightarrow>
   u64 \<Rightarrow> ServiceError + ('l, FinalizedOptimisticTransition) PreparedOclobSubmission" where
  "pending_finalize E D N H p sv claim now =
     (let sg = pe_staged p in
      andThen (fail_if (sn_state_root (public_snapshot E (sv_book sv)) \<noteq> pe_base_book_root p
          \<or> state_snapshot E D (sv_settlement sv) \<noteq> pe_base_settlement p)
        (Service_Settlement ''provisional OCLOB execution is stale against the current book'')) (\<lambda>_.
      andThen (fail_if (cl_proposal claim \<noteq> sg_transition_proof sg)
        (Service_Settlement ''canonical finality names another provisional execution'')) (\<lambda>_.
      andThen (map_err Service_Settlement (from_canonical E H claim (sg_verified_transition sg) (pe_verifier p)))
        (\<lambda>authorization.
      prepare_staged E D N OptimisticFinality sv
        \<lparr>sg_settlement_order = sg_settlement_order sg, sg_book = sg_book sg, sg_ordering = sg_ordering sg,
         sg_settlement = sg_settlement sg, sg_eligibility_verifier = sg_eligibility_verifier sg,
         sg_certificate = sg_certificate sg, sg_reservation = sg_reservation sg,
         sg_eligibility = sg_eligibility sg, sg_mpc = sg_mpc sg, sg_book_transition = sg_book_transition sg,
         sg_transition_proof = authorization, sg_verified_transition = authorization\<rparr> now))))"

end
