(* ===== verification/Reservation_Ledger.thy ===== *)
theory Reservation_Ledger
  imports Reservations
begin

text \<open>
  The invariant of the reservation ledger and what each of its operations does to it. \<open>held\<close> is the
  amount a participant has locked in active reservations of one kind; an active reservation always covers
  the worst permitted fill of the quantity still open, and an inactive one holds nothing.
\<close>

section \<open>Held amounts\<close>

definition hold :: "Digest32 \<Rightarrow> ReservationKind \<Rightarrow> ReservationRecord \<Rightarrow> nat" where
  "hold p k r = (if rr_participant_handle r = p \<and> rr_kind r = k \<and> rr_status r = Active
     then unat (rr_remaining r) else 0)"

definition held :: "ReservationBook \<Rightarrow> Digest32 \<Rightarrow> ReservationKind \<Rightarrow> nat" where
  "held b p k = sum_list (map (\<lambda>(_, r). hold p k r) (records b))"

lemma records_set_record [simp]:
  "records (set_record b i r) = btree_insert i r (records b)"
  "capacities (set_record b i r) = capacities b"
  "participant_entities (set_record b i r) = participant_entities b"
  "entity_participants (set_record b i r) = entity_participants b"
  by (simp_all add: set_record_def)

lemma held_set_record:
  "btree_ok (records b) \<Longrightarrow> held (set_record b i r) p k
     + (case btree_get (records b) i of None \<Rightarrow> 0 | Some u \<Rightarrow> hold p k u) = held b p k + hold p k r"
  using btree_insert_weight [of "records b" "hold p k" i r] by (simp add: held_def)

lemma hold_filter:
  "sum_list (map unat (map rr_remaining (filter (\<lambda>r. rr_participant_handle r = p \<and> rr_kind r = k
     \<and> rr_status r = Active) (map snd m)))) = sum_list (map (\<lambda>(_, r). hold p k r) m)"
  by (induction m) (auto simp: hold_def)

lemma reserved_for_ok:
  assumes "held b p k \<le> unat (v::u64)"
  shows "\<exists>s. reserved_for b p k = Inr s \<and> unat s = held b p k"
proof -
  let ?xs = "map rr_remaining (filter (\<lambda>r. rr_participant_handle r = p \<and> rr_kind r = k
     \<and> rr_status r = Active) (map snd (records b)))"
  have s: "sum_list (map unat ?xs) = held b p k"
    by (simp only: hold_filter held_def)
  then have "sum_list (map unat ?xs) < 2 ^ LENGTH(64)"
    using assms unat_u64_less [of v] by simp
  with s show ?thesis
    by (auto simp: reserved_for_def checked_sum_alt unat_sum_list)
qed

section \<open>Records\<close>

definition cover :: "ReservationRecord \<Rightarrow> nat \<Rightarrow> nat" where
  "cover r q = (if q = 0 then 0 else case rr_kind r of
     Cash \<Rightarrow> unat (rr_limit_price r) * q + unat (rr_max_fee r) | Securities \<Rightarrow> q)"

definition record_ok :: "ReservationRecord \<Rightarrow> bool" where
  "record_ok r \<longleftrightarrow> rr_remaining_quantity r \<le> rr_original_quantity r \<and> rr_remaining r \<le> rr_reserved r
     \<and> (if rr_status r = Active then cover r (unat (rr_remaining_quantity r)) \<le> unat (rr_remaining r)
        else rr_remaining r = 0 \<and> rr_remaining_quantity r = 0)"

text \<open>The identity of a record: what no operation changes.\<close>

definition same_terms :: "ReservationRecord \<Rightarrow> ReservationRecord \<Rightarrow> bool" where
  "same_terms r s \<longleftrightarrow> rr_reservation_id s = rr_reservation_id r \<and> rr_order_commitment s = rr_order_commitment r
     \<and> rr_participant_handle s = rr_participant_handle r \<and> rr_entity_nullifier s = rr_entity_nullifier r
     \<and> rr_market_id s = rr_market_id r \<and> rr_kind s = rr_kind r \<and> rr_limit_price s = rr_limit_price r
     \<and> rr_max_fee s = rr_max_fee r \<and> rr_expires_at s = rr_expires_at r
     \<and> rr_original_quantity s = rr_original_quantity r"

lemma same_terms_refl [simp]: "same_terms r r"
  by (simp add: same_terms_def)

lemma same_terms_trans: "same_terms r s \<Longrightarrow> same_terms s u \<Longrightarrow> same_terms r u"
  by (simp add: same_terms_def)

lemma cover_same_terms: "same_terms r s \<Longrightarrow> cover s q = cover r q"
  by (simp add: cover_def same_terms_def split: ReservationKind.split)

lemma remaining_required_Some:
  "remaining_required (rr_kind r) (rr_limit_price r) (rr_max_fee r) q = Some x \<Longrightarrow> unat x = cover r (unat q)"
  by (auto simp: remaining_required_def cover_def checked_add_Some checked_mul_Some unat_add_bounded
      unat_mult_bounded word_zero_unat bind_eq_Some_conv split: if_splits ReservationKind.splits)

lemma remaining_required_bounded:
  assumes "cover r (unat q) < 2 ^ 64"
  shows "\<exists>x. remaining_required (rr_kind r) (rr_limit_price r) (rr_max_fee r) q = Some x"
proof (cases "q = 0 \<or> rr_kind r = Securities")
  case True
  then show ?thesis by (auto simp: remaining_required_def)
next
  case False
  then have k: "rr_kind r = Cash" and q: "unat q \<noteq> 0"
    by (auto simp: word_zero_unat intro: ReservationKind.exhaust)
  with assms have s: "unat (rr_limit_price r) * unat q + unat (rr_max_fee r) < 2 ^ 64"
    by (simp add: cover_def)
  then have m: "unat (rr_limit_price r) * unat q < 2 ^ 64" by linarith
  then have "unat (rr_limit_price r * q) = unat (rr_limit_price r) * unat q"
    by (simp add: unat_mult_bounded)
  with k s m False show ?thesis
    by (simp add: remaining_required_def checked_mul_def checked_add_def)
qed

text \<open>A fill takes its price from the reservation and releases what the remainder no longer needs.\<close>

lemma consume_record_ok:
  assumes c: "consume_record r spent filled = Inr s" and r: "record_ok r"
  shows "record_ok s \<and> same_terms r s \<and> unat (rr_remaining s) + unat spent \<le> unat (rr_remaining r)
     \<and> unat (rr_remaining_quantity s) + unat filled = unat (rr_remaining_quantity r)
     \<and> rr_time_in_force s = rr_time_in_force r"
proof -
  from c obtain required where sp: "spent \<le> rr_remaining r" and fi: "filled \<le> rr_remaining_quantity r"
    and req: "remaining_required (rr_kind r) (rr_limit_price r) (rr_max_fee r)
        (rr_remaining_quantity r - filled) = Some required"
    and le: "\<not> rr_remaining r - spent < required"
    and s: "s = r\<lparr>rr_remaining_quantity := rr_remaining_quantity r - filled, rr_remaining := required,
        rr_status := (if rr_remaining_quantity r - filled = 0 then Consumed else Active)\<rparr>"
    by (auto simp: consume_record_def result_ok split: if_splits)
  have q: "unat (rr_remaining_quantity r - filled) = unat (rr_remaining_quantity r) - unat filled"
    and u: "unat (rr_remaining r - spent) = unat (rr_remaining r) - unat spent"
    using sp fi by (simp_all add: unat_diff)
  have x: "unat required = cover r (unat (rr_remaining_quantity r - filled))"
    by (rule remaining_required_Some [OF req])
  have b: "unat required + unat spent \<le> unat (rr_remaining r)"
    using le u sp by (simp add: word_le_nat_alt word_less_nat_alt)
  have z: "rr_remaining_quantity r = filled \<Longrightarrow> required = 0"
    using x by (simp add: cover_def word_zero_unat)
  have st: "same_terms r s"
    by (simp add: same_terms_def s)
  have f: "rr_remaining_quantity s = rr_remaining_quantity r - filled" "rr_remaining s = required"
    "rr_status s = (if rr_remaining_quantity r = filled then Consumed else Active)"
    "rr_reserved s = rr_reserved r" "rr_original_quantity s = rr_original_quantity r"
    "rr_time_in_force s = rr_time_in_force r"
    by (simp_all add: s)
  have "record_ok s"
    using r x b q fi z unfolding record_ok_def cover_same_terms [OF st] f
    by (auto simp: word_le_nat_alt)
  with b q fi f st show ?thesis
    by (auto simp: word_le_nat_alt)
qed

section \<open>The ledger invariant\<close>

definition ledger_ok :: "ReservationBook \<Rightarrow> bool" where
  "ledger_ok b \<longleftrightarrow> btree_ok (records b) \<and> btree_ok (capacities b) \<and> btree_ok (participant_entities b)
     \<and> btree_ok (entity_participants b)
     \<and> (\<forall>i r. btree_get (records b) i = Some r \<longrightarrow> rr_reservation_id r = i \<and> record_ok r
          \<and> btree_get (participant_entities b) (rr_participant_handle r) = Some (rr_entity_nullifier r))
     \<and> (\<forall>i j r s. btree_get (records b) i = Some r \<longrightarrow> btree_get (records b) j = Some s \<longrightarrow>
          rr_order_commitment r = rr_order_commitment s \<longrightarrow> i = j)
     \<and> (\<forall>p e. btree_get (participant_entities b) p = Some e \<longleftrightarrow> btree_get (entity_participants b) e = Some p)"

lemma ledger_okI:
  assumes "btree_ok (records b)" "btree_ok (capacities b)" "btree_ok (participant_entities b)"
    "btree_ok (entity_participants b)"
    "\<And>i r. btree_get (records b) i = Some r \<Longrightarrow> rr_reservation_id r = i \<and> record_ok r
       \<and> btree_get (participant_entities b) (rr_participant_handle r) = Some (rr_entity_nullifier r)"
    "\<And>i j r s. btree_get (records b) i = Some r \<Longrightarrow> btree_get (records b) j = Some s \<Longrightarrow>
       rr_order_commitment r = rr_order_commitment s \<Longrightarrow> i = j"
    "\<And>p e. btree_get (participant_entities b) p = Some e \<longleftrightarrow> btree_get (entity_participants b) e = Some p"
  shows "ledger_ok b"
proof -
  have 5: "\<forall>i r. btree_get (records b) i = Some r \<longrightarrow> rr_reservation_id r = i \<and> record_ok r
      \<and> btree_get (participant_entities b) (rr_participant_handle r) = Some (rr_entity_nullifier r)"
    using assms(5) by blast
  have 6: "\<forall>i j r s. btree_get (records b) i = Some r \<longrightarrow> btree_get (records b) j = Some s \<longrightarrow>
      rr_order_commitment r = rr_order_commitment s \<longrightarrow> i = j"
    using assms(6) by blast
  have 7: "\<forall>p e. btree_get (participant_entities b) p = Some e \<longleftrightarrow> btree_get (entity_participants b) e = Some p"
    using assms(7) by blast
  from assms(1-4) 5 6 7 show ?thesis
    unfolding ledger_ok_def by (intro conjI)
qed

lemma ledger_okD:
  assumes "ledger_ok b"
  shows "btree_ok (records b)" "btree_ok (capacities b)" "btree_ok (participant_entities b)"
    "btree_ok (entity_participants b)"
    "btree_get (records b) i = Some r \<Longrightarrow> rr_reservation_id r = i \<and> record_ok r
       \<and> btree_get (participant_entities b) (rr_participant_handle r) = Some (rr_entity_nullifier r)"
    "btree_get (records b) i = Some r \<Longrightarrow> btree_get (records b) j = Some s \<Longrightarrow>
       rr_order_commitment r = rr_order_commitment s \<Longrightarrow> i = j"
    "btree_get (participant_entities b) p = Some e \<longleftrightarrow> btree_get (entity_participants b) e = Some p"
  using assms unfolding ledger_ok_def by blast+

text \<open>Two participants bound to one entity are one participant.\<close>

lemma entity_unique:
  "ledger_ok b \<Longrightarrow> btree_get (participant_entities b) p = Some e \<Longrightarrow>
     btree_get (participant_entities b) q = Some e \<Longrightarrow> p = q"
  using ledger_okD(7) [of b p e] ledger_okD(7) [of b q e] by simp

lemma record_id_for_Some:
  assumes ok: "ledger_ok b" and i: "record_id_for b c = Some i"
  shows "\<exists>r. btree_get (records b) i = Some r \<and> rr_order_commitment r = c"
proof -
  from i obtain r where f: "List.find (\<lambda>r. rr_order_commitment r = c) (map snd (records b)) = Some r"
    and ri: "rr_reservation_id r = i"
    by (auto simp: record_id_for_def)
  from f have c: "rr_order_commitment r = c" and "r \<in> set (map snd (records b))"
    by (auto simp: find_Some_iff)
  then obtain j where "(j, r) \<in> set (records b)" by auto
  then have "btree_get (records b) j = Some r"
    using bt.entries_get [OF ledger_okD(1) [OF ok], of j r] by blast
  with ledger_okD(5) [OF ok this] ri c show ?thesis by (intro exI [of _ r]) simp
qed

lemma record_id_for_iff:
  assumes ok: "ledger_ok b"
  shows "record_id_for b c = Some i \<longleftrightarrow> (\<exists>r. btree_get (records b) i = Some r \<and> rr_order_commitment r = c)"
proof
  assume "record_id_for b c = Some i"
  then show "\<exists>r. btree_get (records b) i = Some r \<and> rr_order_commitment r = c"
    by (rule record_id_for_Some [OF ok])
next
  assume "\<exists>r. btree_get (records b) i = Some r \<and> rr_order_commitment r = c"
  then obtain r where r: "btree_get (records b) i = Some r" "rr_order_commitment r = c" by blast
  have "(i, r) \<in> set (records b)"
    using r(1) bt.entries_get [OF ledger_okD(1) [OF ok], of i r] by blast
  then have "snd (i, r) \<in> set (map snd (records b))"
    unfolding set_map by (rule imageI)
  then have "\<exists>x. x \<in> set (map snd (records b)) \<and> rr_order_commitment x = c"
    using r(2) by (intro exI [of _ r]) simp
  then have "List.find (\<lambda>r. rr_order_commitment r = c) (map snd (records b)) \<noteq> None"
    unfolding find_None_iff not_not .
  then obtain j where j: "record_id_for b c = Some j"
    unfolding record_id_for_def by (cases "List.find (\<lambda>r. rr_order_commitment r = c) (map snd (records b))") simp_all
  from record_id_for_Some [OF ok j] obtain s where "btree_get (records b) j = Some s" "rr_order_commitment s = c"
    by blast
  with r have "j = i"
    using ledger_okD(6) [OF ok, of j s i r] by simp
  with j show "record_id_for b c = Some i"
    by simp
qed

text \<open>Replacing a record by one with the same terms.\<close>

lemma ledger_ok_set_record:
  assumes ok: "ledger_ok b" and r: "btree_get (records b) i = Some r" and s: "same_terms r s" "record_ok s"
  shows "ledger_ok (set_record b i s)"
proof -
  note i = ledger_okD(5) [OF ok r]
  have g: "btree_get (records (set_record b i s)) j = (if j = i then Some s else btree_get (records b) j)" for j
    by (simp add: btree_get_insert)
  have c: "rr_order_commitment s = rr_order_commitment r"
    using s(1) by (simp add: same_terms_def)
  have old: "\<exists>x0. btree_get (records b) j = Some x0 \<and> rr_order_commitment x0 = rr_order_commitment x"
    if "btree_get (records (set_record b i s)) j = Some x" for j x
    using that r c unfolding g by (auto split: if_splits)
  have u: "i' = j" if x: "btree_get (records (set_record b i s)) i' = Some x"
    and y: "btree_get (records (set_record b i s)) j = Some y"
    and xy: "rr_order_commitment x = rr_order_commitment y" for i' j x y
  proof -
    from old [OF x] obtain x0 where x0: "btree_get (records b) i' = Some x0"
      "rr_order_commitment x0 = rr_order_commitment x" by blast
    from old [OF y] obtain y0 where y0: "btree_get (records b) j = Some y0"
      "rr_order_commitment y0 = rr_order_commitment y" by blast
    show ?thesis
      by (rule ledger_okD(6) [OF ok x0(1) y0(1)]) (simp add: x0 y0 xy)
  qed
  have e: "rr_reservation_id x = j \<and> record_ok x
      \<and> btree_get (participant_entities b) (rr_participant_handle x) = Some (rr_entity_nullifier x)"
    if "btree_get (records (set_record b i s)) j = Some x" for j x
    using that ledger_okD(5) [OF ok, of j x] i s unfolding g
    by (auto simp: same_terms_def split: if_splits)
  show ?thesis
    unfolding ledger_ok_def using u e ledger_okD(1-4,7) [OF ok] by (simp add: btree_ok_insert)
qed

lemma held_set_record_le:
  assumes ok: "ledger_ok b" and r: "btree_get (records b) i = Some r"
    and h: "hold p k s \<le> hold p k r"
  shows "held (set_record b i s) p k + (hold p k r - hold p k s) = held b p k"
  using held_set_record [OF ledger_okD(1) [OF ok], of i s p k] r h by simp

section \<open>Operations\<close>

text \<open>What a successful fill does: the two records and the amounts they give up.\<close>

lemma consume_fill_cases:
  assumes ok: "ledger_ok b" and c: "consume_fill b f market now = (Inr cf, b')"
  obtains mi m m' ti t t' where
    "btree_get (records b) mi = Some m" "btree_get (records b) ti = Some t" "mi \<noteq> ti"
    "fill_guard f market now (fill_price f * fill_quantity f) m t = Inr ()"
    "unat (fill_price f) * unat (fill_quantity f) < 2 ^ 64"
    "rr_order_commitment m = commitment_bytes (maker_order f)"
    "rr_order_commitment t = commitment_bytes (taker_order f)"
    "consume_record m (fill_required (fill_price f * fill_quantity f) (fill_quantity f) m) (fill_quantity f) = Inr m'"
    "consume_record t (fill_required (fill_price f * fill_quantity f) (fill_quantity f) t) (fill_quantity f) = Inr t'"
    "b' = set_record (set_record b mi m') ti t'"
    "maker_reservation_id cf = mi" "taker_reservation_id cf = ti" "maker_kind cf = rr_kind m"
    "seller_handle cf = (if rr_kind m = Securities then rr_participant_handle m else rr_participant_handle t)"
    "buyer_handle cf = (if rr_kind m = Securities then rr_participant_handle t else rr_participant_handle m)"
proof -
  from c obtain cash mi ti m t m' t1 t' where cash: "checked_mul (fill_price f) (fill_quantity f) = Some cash"
    and mi: "record_id_for b (commitment_bytes (maker_order f)) = Some mi"
    and ti: "record_id_for b (commitment_bytes (taker_order f)) = Some ti" and ne: "mi \<noteq> ti"
    and m: "btree_get (records b) mi = Some m" and t: "btree_get (records b) ti = Some t"
    and g: "fill_guard f market now cash m t = Inr ()"
    and cm: "consume_record m (fill_required cash (fill_quantity f) m) (fill_quantity f) = Inr m'"
    and t1: "btree_get (records (set_record b mi m')) ti = Some t1"
    and ct: "consume_record t1 (fill_required cash (fill_quantity f) t) (fill_quantity f) = Inr t'"
    and b': "b' = set_record (set_record b mi m') ti t'"
    and cf: "maker_reservation_id cf = mi" "taker_reservation_id cf = ti" "maker_kind cf = rr_kind m"
      "seller_handle cf = (case rr_kind m of Securities \<Rightarrow> rr_participant_handle m | Cash \<Rightarrow> rr_participant_handle t)"
      "buyer_handle cf = (case rr_kind m of Securities \<Rightarrow> rr_participant_handle t | Cash \<Rightarrow> rr_participant_handle m)"
    by (auto simp: consume_fill_def guarded_ok ok_or_eq_Inr fail_if_eq_Inr Let_def)
  have "cash = fill_price f * fill_quantity f" "unat (fill_price f) * unat (fill_quantity f) < 2 ^ 64"
    using cash by (simp_all add: checked_mul_Some)
  moreover have "t1 = t"
    using t t1 ne by (simp add: btree_get_insert)
  moreover have "rr_order_commitment m = commitment_bytes (maker_order f)"
    "rr_order_commitment t = commitment_bytes (taker_order f)"
    using record_id_for_Some [OF ok mi] record_id_for_Some [OF ok ti] m t by auto
  ultimately show ?thesis
    using that [OF m t ne] g cm ct b' cf
    by (cases "rr_kind m") auto
qed

text \<open>After a fill the seller holds at least the quantity less in securities, the buyer at least the price
  less in cash, and nobody holds more than before.\<close>

lemma consume_fill_ok:
  assumes ok: "ledger_ok b" and c: "consume_fill b f market now = (Inr cf, b')"
  shows "ledger_ok b'"
    and "held b' p k \<le> held b p k"
    and "held b' (seller_handle cf) Securities + unat (fill_quantity f) \<le> held b (seller_handle cf) Securities"
    and "held b' (buyer_handle cf) Cash + unat (fill_price f) * unat (fill_quantity f) \<le> held b (buyer_handle cf) Cash"
    and "capacities b' = capacities b \<and> participant_entities b' = participant_entities b
       \<and> entity_participants b' = entity_participants b"
proof -
  obtain mi m m' ti t t' where
    m: "btree_get (records b) mi = Some m" and t: "btree_get (records b) ti = Some t" and ne: "mi \<noteq> ti"
    and g: "fill_guard f market now (fill_price f * fill_quantity f) m t = Inr ()"
    and bd: "unat (fill_price f) * unat (fill_quantity f) < 2 ^ 64"
    and "rr_order_commitment m = commitment_bytes (maker_order f)"
      "rr_order_commitment t = commitment_bytes (taker_order f)"
    and cm: "consume_record m (fill_required (fill_price f * fill_quantity f) (fill_quantity f) m) (fill_quantity f) = Inr m'"
    and ct: "consume_record t (fill_required (fill_price f * fill_quantity f) (fill_quantity f) t) (fill_quantity f) = Inr t'"
    and b': "b' = set_record (set_record b mi m') ti t'"
    and "maker_reservation_id cf = mi" "taker_reservation_id cf = ti" "maker_kind cf = rr_kind m"
    and h: "seller_handle cf = (if rr_kind m = Securities then rr_participant_handle m else rr_participant_handle t)"
      "buyer_handle cf = (if rr_kind m = Securities then rr_participant_handle t else rr_participant_handle m)"
    by (rule consume_fill_cases [OF ok c])
  have cash: "unat (fill_price f * fill_quantity f) = unat (fill_price f) * unat (fill_quantity f)"
    using bd by (simp add: unat_mult_bounded)
  have act: "rr_status m = Active" "rr_status t = Active" "rr_kind m \<noteq> rr_kind t"
    using g by (auto simp: fill_guard_def result_ok)
  note mo = consume_record_ok [OF cm conjunct1 [OF conjunct2 [OF ledger_okD(5) [OF ok m]]]]
  note to = consume_record_ok [OF ct conjunct1 [OF conjunct2 [OF ledger_okD(5) [OF ok t]]]]
  have ok1: "ledger_ok (set_record b mi m')"
    using ledger_ok_set_record [OF ok m] mo by blast
  have t1: "btree_get (records (set_record b mi m')) ti = Some t"
    using t ne by (simp add: btree_get_insert)
  show "ledger_ok b'"
    unfolding b' using ledger_ok_set_record [OF ok1 t1] to by blast
  have le: "hold p k m' \<le> hold p k m" "hold p k t' \<le> hold p k t" for p k
    using mo to act by (auto simp: hold_def same_terms_def)
  have sum: "held b' p k + (hold p k t - hold p k t') + (hold p k m - hold p k m') = held b p k" for p k
    using held_set_record_le [OF ok m le(1) [of p k]] held_set_record_le [OF ok1 t1 le(2) [of p k]] unfolding b' by linarith
  show "held b' p k \<le> held b p k"
    using sum [of p k] by linarith
  have dm: "hold (rr_participant_handle m) (rr_kind m) m' + unat (fill_required (fill_price f * fill_quantity f) (fill_quantity f) m)
      \<le> hold (rr_participant_handle m) (rr_kind m) m"
    and dt: "hold (rr_participant_handle t) (rr_kind t) t' + unat (fill_required (fill_price f * fill_quantity f) (fill_quantity f) t)
      \<le> hold (rr_participant_handle t) (rr_kind t) t"
    using mo to act by (auto simp: hold_def same_terms_def)
  show "held b' (seller_handle cf) Securities + unat (fill_quantity f) \<le> held b (seller_handle cf) Securities"
    using sum [of "seller_handle cf" Securities] dm dt act(3) h le [of "seller_handle cf" Securities]
    by (cases "rr_kind m"; cases "rr_kind t") (auto simp: fill_required_def)
  show "held b' (buyer_handle cf) Cash + unat (fill_price f) * unat (fill_quantity f) \<le> held b (buyer_handle cf) Cash"
    using sum [of "buyer_handle cf" Cash] dm dt act(3) h le [of "buyer_handle cf" Cash]
    by (cases "rr_kind m"; cases "rr_kind t") (auto simp: fill_required_def cash)
  show "capacities b' = capacities b \<and> participant_entities b' = participant_entities b
       \<and> entity_participants b' = entity_participants b"
    by (simp add: b')
qed

text \<open>Binding a participant keeps the pairing one-to-one and never moves an existing binding.\<close>

lemma pairing_insert:
  assumes f: "\<And>q d. f q = Some d \<longleftrightarrow> g d = Some q" and p: "\<And>d. f p = Some d \<Longrightarrow> d = e"
    and e: "\<And>q. g e = Some q \<Longrightarrow> q = p"
  shows "(if q = p then Some e else f q) = Some d \<longleftrightarrow> (if d = e then Some p else g d) = Some q"
proof (cases "q = p")
  case True
  have "f p \<noteq> Some d" if "d \<noteq> e" using p that by blast
  with True f [of p d] show ?thesis by (cases "d = e") simp_all
next
  case False
  have "g e \<noteq> Some q" using e False by blast
  with False f [of q d] show ?thesis by (cases "d = e") simp_all
qed

lemma bind_participant_ok:
  assumes ok: "ledger_ok b" and c: "bind_participant b p e cash securities = (Inr u, b')"
  shows "ledger_ok b'" and "records b' = records b"
    and "btree_get (participant_entities b') q = (if q = p then Some e else btree_get (participant_entities b) q)"
    and "btree_get (participant_entities b) q = Some d \<Longrightarrow> btree_get (participant_entities b') q = Some d"
    and "btree_get (capacities b') (d, t) = (if d = e \<and> t = 1 then Some cash
      else if d = e \<and> t = 2 then Some securities else btree_get (capacities b) (d, t))"
proof -
  have b': "b' = b\<lparr>participant_entities := btree_insert p e (participant_entities b),
      entity_participants := btree_insert e p (entity_participants b),
      capacities := btree_insert (e, 2) securities (btree_insert (e, 1) cash (capacities b))\<rparr>"
    and x: "\<And>d. btree_get (participant_entities b) p = Some d \<Longrightarrow> d = e"
    and y: "\<And>q. btree_get (entity_participants b) e = Some q \<Longrightarrow> q = p"
    using c by (auto simp: bind_participant_def split: if_splits option.splits)
  show r: "records b' = records b" by (simp add: b')
  show g: "btree_get (participant_entities b') q = (if q = p then Some e else btree_get (participant_entities b) q)" for q
    by (simp add: b' btree_get_insert)
  have h: "btree_get (entity_participants b') d = (if d = e then Some p else btree_get (entity_participants b) d)" for d
    by (simp add: b' btree_get_insert)
  show k: "btree_get (participant_entities b) q = Some d \<Longrightarrow> btree_get (participant_entities b') q = Some d" for q d
    using x [of d] unfolding g by auto
  show "btree_get (capacities b') (d, t) = (if d = e \<and> t = 1 then Some cash
      else if d = e \<and> t = 2 then Some securities else btree_get (capacities b) (d, t))"
    by (cases "d = e") (simp_all add: b' btree_get_insert)
  have pair: "btree_get (participant_entities b') q = Some d \<longleftrightarrow> btree_get (entity_participants b') d = Some q" for q d
    unfolding g h by (rule pairing_insert [OF ledger_okD(7) [OF ok] x y])
  have rec: "rr_reservation_id s = i \<and> record_ok s
      \<and> btree_get (participant_entities b') (rr_participant_handle s) = Some (rr_entity_nullifier s)"
    if s: "btree_get (records b') i = Some s" for i s
    using ledger_okD(5) [OF ok, of i s] k [of "rr_participant_handle s" "rr_entity_nullifier s"] s
    by (simp add: r)
  have u: "i = j" if "btree_get (records b') i = Some x" "btree_get (records b') j = Some z"
    "rr_order_commitment x = rr_order_commitment z" for i j x z
    using that unfolding r by (rule ledger_okD(6) [OF ok])
  have m: "btree_ok (records b')" "btree_ok (capacities b')" "btree_ok (participant_entities b')"
    "btree_ok (entity_participants b')"
    using ledger_okD(1-4) [OF ok] by (simp_all add: b' btree_ok_insert)
  show "ledger_ok b'"
    by (rule ledger_okI [OF m rec u pair])
qed

lemma ledger_ok_capacities:
  assumes "ledger_ok b" "btree_ok cs"
  shows "ledger_ok (b\<lparr>capacities := cs\<rparr>)"
  using assms unfolding ledger_ok_def by simp

lemma refresh_capacity_ok:
  assumes ok: "ledger_ok b" and c: "refresh_capacity b p cash securities = (Inr u, b')"
  obtains e where "btree_get (participant_entities b) p = Some e"
    "b' = b\<lparr>capacities := btree_insert (e, 2) securities (btree_insert (e, 1) cash (capacities b))\<rparr>"
    "ledger_ok b'"
proof -
  from c obtain e where e: "btree_get (participant_entities b) p = Some e"
    and b': "b' = b\<lparr>capacities := btree_insert (e, 2) securities (btree_insert (e, 1) cash (capacities b))\<rparr>"
    by (auto simp: refresh_capacity_def guarded_ok ok_or_eq_Inr)
  have "ledger_ok b'"
    unfolding b' by (rule ledger_ok_capacities [OF ok]) (simp add: btree_ok_insert ledger_okD(2) [OF ok])
  with e b' show ?thesis by (rule that)
qed

text \<open>An order whose reserve covers its worst permitted fill.\<close>

definition view_ok :: "SettlementOrderView \<Rightarrow> bool" where
  "view_ok v \<longleftrightarrow> cover (new_record v 0) (unat (settlement_quantity v)) \<le> unat (settlement_reservation_limit v)"

lemma order_view_ok: "order_ok o1 \<Longrightarrow> view_ok (order_view o1 c)"
proof -
  assume "order_ok o1"
  then obtain x where x: "required_reserve (side o1) (limit_price o1) (quantity o1) (max_fee o1) = Some x"
    and le: "x \<le> reservation_limit o1"
    by (auto simp: order_ok_def split: option.splits)
  from x have "cover (new_record (order_view o1 c) 0) (unat (quantity o1)) \<le> unat x"
    by (cases "side o1") (auto simp: required_reserve_def cover_def new_record_def order_view_def side_kind_def
        bind_eq_Some_conv checked_add_Some checked_mul_Some unat_add_bounded unat_mult_bounded)
  with le show ?thesis
    by (simp add: view_ok_def order_view_def word_le_nat_alt)
qed

lemma new_record_ok: "view_ok v \<Longrightarrow> record_ok (new_record v pt)"
proof -
  assume v: "view_ok v"
  have "cover (new_record v pt) q = cover (new_record v 0) q" for q
    by (simp add: cover_def new_record_def split: ReservationKind.split)
  with v show ?thesis
    by (simp add: record_ok_def view_ok_def) (simp add: new_record_def)
qed

lemma in_use_held:
  assumes ok: "ledger_ok b" and e: "btree_get (participant_entities b) p = Some e"
    and u: "in_use b e k = Some used"
  shows "unat used = held b p k"
proof -
  have "rr_entity_nullifier r = e \<longleftrightarrow> rr_participant_handle r = p" if "r \<in> set (map snd (records b))" for r
  proof -
    from that obtain i where "(i, r) \<in> set (records b)" by auto
    then have "btree_get (records b) i = Some r"
      using bt.entries_get [OF ledger_okD(1) [OF ok], of i r] by blast
    then have "btree_get (participant_entities b) (rr_participant_handle r) = Some (rr_entity_nullifier r)"
      using ledger_okD(5) [OF ok] by blast
    with e entity_unique [OF ok e, of "rr_participant_handle r"] show ?thesis by auto
  qed
  then have f: "filter (\<lambda>r. rr_entity_nullifier r = e \<and> rr_kind r = k \<and> rr_status r = Active) (map snd (records b))
      = filter (\<lambda>r. rr_participant_handle r = p \<and> rr_kind r = k \<and> rr_status r = Active) (map snd (records b))"
    by (intro filter_cong) auto
  show ?thesis
    using u hold_filter [of p k "records b"]
    by (auto simp: in_use_def f checked_sum_Some unat_sum_list held_def)
qed

text \<open>A reservation adds one active record and stays within the entity's capacity.\<close>

lemma reserve_ok:
  assumes ok: "ledger_ok b" and v: "view_ok v"
    and c: "ReservationBook_reserve E b v pt = (Inr receipt, b')"
  obtains cap where "btree_get (participant_entities b) (settlement_participant_handle v) = Some (settlement_dekyx_nullifier v)"
    "btree_get (capacities b) (settlement_dekyx_nullifier v, reservation_kind_tag (side_kind (settlement_side v))) = Some cap"
    "btree_get (records b) (settlement_reservation_id v) = None"
    "b' = set_record b (settlement_reservation_id v) (new_record v pt)"
    "ledger_ok b'"
    "\<And>p k. held b' p k = held b p k + hold p k (new_record v pt)"
    "held b' (settlement_participant_handle v) (side_kind (settlement_side v)) \<le> unat cap"
proof -
  let ?e = "settlement_dekyx_nullifier v" and ?p = "settlement_participant_handle v"
    and ?k = "side_kind (settlement_side v)" and ?i = "settlement_reservation_id v"
    and ?n = "new_record v pt"
  from c obtain cap used where bound: "btree_get (participant_entities b) ?p = Some ?e"
    and fresh: "btree_get (records b) ?i = None"
      "\<not> list_ex (\<lambda>(_, r). rr_order_commitment r = commitment_bytes (settlement_commitment v)) (records b)"
    and cap: "btree_get (capacities b) (?e, reservation_kind_tag ?k) = Some cap"
    and used: "in_use b ?e ?k = Some used"
    and le: "\<not> (case checked_add used (settlement_reservation_limit v) of None \<Rightarrow> True | Some t \<Rightarrow> cap < t)"
    and b': "b' = set_record b ?i ?n"
    by (auto simp: ReservationBook_reserve_def guarded_ok ok_or_eq_Inr Let_def set_record_def split: if_splits)
  have f: "rr_reservation_id ?n = ?i" "rr_participant_handle ?n = ?p" "rr_entity_nullifier ?n = ?e"
    "rr_order_commitment ?n = commitment_bytes (settlement_commitment v)" "rr_kind ?n = ?k"
    "rr_status ?n = Active" "rr_remaining ?n = settlement_reservation_limit v"
    by (simp_all add: new_record_def)
  have g: "btree_get (records b') j = (if j = ?i then Some ?n else btree_get (records b) j)" for j
    by (simp add: b' btree_get_insert)
  have other: "rr_order_commitment s \<noteq> rr_order_commitment ?n" if "btree_get (records b) j = Some s" for j s
  proof -
    have "(j, s) \<in> set (records b)"
      using that bt.entries_get [OF ledger_okD(1) [OF ok], of j s] by blast
    with fresh(2) show ?thesis by (auto simp: list_ex_iff f)
  qed
  have ok': "ledger_ok b'"
  proof (rule ledger_okI)
    show "btree_ok (records b')" "btree_ok (capacities b')" "btree_ok (participant_entities b')"
      "btree_ok (entity_participants b')"
      using ledger_okD(1-4) [OF ok] by (simp_all add: b' btree_ok_insert)
    show "rr_reservation_id r = i \<and> record_ok r \<and> btree_get (participant_entities b') (rr_participant_handle r) =
        Some (rr_entity_nullifier r)" if "btree_get (records b') i = Some r" for i r
      using that ledger_okD(5) [OF ok, of i r] new_record_ok [OF v, of pt] bound unfolding g
      by (auto simp: b' f split: if_splits)
    show "i = j" if h: "btree_get (records b') i = Some r" "btree_get (records b') j = Some s"
      "rr_order_commitment r = rr_order_commitment s" for i j r s
    proof (cases "i = ?i \<or> j = ?i")
      case True
      then show ?thesis using h other [of i r] other [of j s] unfolding g by (auto split: if_splits)
    next
      case False
      then have "btree_get (records b) i = Some r" "btree_get (records b) j = Some s"
        using h(1,2) unfolding g by simp_all
      then show ?thesis using h(3) by (rule ledger_okD(6) [OF ok])
    qed
    show "btree_get (participant_entities b') p = Some e \<longleftrightarrow> btree_get (entity_participants b') e = Some p" for p e
      by (simp add: b' ledger_okD(7) [OF ok])
  qed
  have sum: "held b' p k = held b p k + hold p k ?n" for p k
    using held_set_record [OF ledger_okD(1) [OF ok], of ?i ?n p k] fresh(1) by (simp add: b')
  have "held b' ?p ?k \<le> unat cap"
    using le in_use_held [OF ok bound used] sum [of ?p ?k]
    by (auto simp: hold_def f not_less word_le_nat_alt dest: checked_add_SomeD split: option.splits)
  with bound cap fresh(1) b' ok' sum show ?thesis by (rule that)
qed

text \<open>Rewriting one record under the same terms, without raising what it holds.\<close>

lemma set_record_ok:
  assumes ok: "ledger_ok b" and r: "btree_get (records b) i = Some r" and s: "same_terms r s" "record_ok s"
    and le: "\<And>p k. hold p k s \<le> hold p k r"
  shows "ledger_ok (set_record b i s)" "held (set_record b i s) p k \<le> held b p k"
  using ledger_ok_set_record [OF ok r s] held_set_record_le [OF ok r le [of p k]] by simp_all

lemma release_order_ok:
  assumes ok: "ledger_ok b" and c: "ReservationBook_release_order b oc = (Inr u, b')"
  shows "ledger_ok b'" "held b' p k \<le> held b p k" "capacities b' = capacities b"
    "participant_entities b' = participant_entities b"
proof -
  from c obtain i r where r: "btree_get (records b) i = Some r"
    and b': "b' = set_record b i (r\<lparr>rr_remaining := 0, rr_remaining_quantity := 0, rr_status := Released\<rparr>)"
      (is "_ = set_record b i ?s")
    by (auto simp: ReservationBook_release_order_def guarded_ok ok_or_eq_Inr fail_if_eq_Inr)
  have t: "same_terms r ?s" by (simp add: same_terms_def)
  have rk: "record_ok ?s" by (simp add: record_ok_def)
  have h: "hold p k ?s \<le> hold p k r" for p k by (simp add: hold_def)
  show "ledger_ok b'" "held b' p k \<le> held b p k"
    unfolding b' using set_record_ok [OF ok r t rk h] by simp_all
  show "capacities b' = capacities b" "participant_entities b' = participant_entities b"
    by (simp_all add: b')
qed

lemma record_ok_commitment: "record_ok r \<Longrightarrow> record_ok (r\<lparr>rr_reserve_commitment := q\<rparr>)"
  using cover_same_terms [of r "r\<lparr>rr_reserve_commitment := q\<rparr>"]
  by (simp add: record_ok_def same_terms_def)

lemma remainders_ok:
  assumes ok: "ledger_ok b" and c: "apply_collaborative_remainders b cf x y z = (Inr u, b')"
  shows "ledger_ok b'" "held b' p k \<le> held b p k" "capacities b' = capacities b"
    "participant_entities b' = participant_entities b"
proof -
  from c obtain m t w where m: "btree_get (records b) (maker_reservation_id cf) = Some m"
    and t: "btree_get (records (set_record b (maker_reservation_id cf) (m\<lparr>rr_reserve_commitment := z\<rparr>)))
      (taker_reservation_id cf) = Some t"
    and b': "b' = set_record (set_record b (maker_reservation_id cf) (m\<lparr>rr_reserve_commitment := z\<rparr>))
      (taker_reservation_id cf) (t\<lparr>rr_reserve_commitment := w\<rparr>)"
    by (auto simp: apply_collaborative_remainders_def guarded_ok ok_or_eq_Inr Let_def)
  have e: "same_terms r (r\<lparr>rr_reserve_commitment := q\<rparr>)" "hold p k (r\<lparr>rr_reserve_commitment := q\<rparr>) \<le> hold p k r"
    "record_ok r \<Longrightarrow> record_ok (r\<lparr>rr_reserve_commitment := q\<rparr>)" for r q p k
    by (simp_all add: same_terms_def hold_def record_ok_commitment)
  note 1 = set_record_ok [OF ok m e(1) e(3) e(2)]
  have ok1: "ledger_ok (set_record b (maker_reservation_id cf) (m\<lparr>rr_reserve_commitment := z\<rparr>))"
    using 1(1) ledger_okD(5) [OF ok m] by blast
  have rt: "record_ok t" using ledger_okD(5) [OF ok1 t] by blast
  have rm: "record_ok m" using ledger_okD(5) [OF ok m] by blast
  show "ledger_ok b'"
    unfolding b' by (rule set_record_ok(1) [OF ok1 t e(1) e(3) [OF rt] e(2)])
  have "held b' p k \<le> held (set_record b (maker_reservation_id cf) (m\<lparr>rr_reserve_commitment := z\<rparr>)) p k"
    unfolding b' by (rule set_record_ok(2) [OF ok1 t e(1) e(3) [OF rt] e(2)])
  also have "\<dots> \<le> held b p k"
    by (rule 1(2) [OF rm])
  finally show "held b' p k \<le> held b p k" .
  show "capacities b' = capacities b" "participant_entities b' = participant_entities b"
    by (simp_all add: b')
qed

lemma reconcile_collaborative_ok:
  assumes ok: "ledger_ok b" and c: "reconcile_arriving_collaborative b oc left = (Inr u, b')"
  shows "ledger_ok b'" "held b' p k \<le> held b p k" "capacities b' = capacities b"
    "participant_entities b' = participant_entities b"
proof -
  from c obtain i r s where r: "btree_get (records b) i = Some r" and b': "b' = set_record b i s"
    and s: "s = r\<lparr>rr_remaining := 0, rr_remaining_quantity := 0, rr_status := (if left = 0 then Consumed else Released)\<rparr>
      \<or> left \<noteq> 0 \<and> left = rr_remaining_quantity r \<and> s = r\<lparr>rr_status := Active\<rparr>"
    by (auto simp: reconcile_arriving_collaborative_def guarded_ok ok_or_eq_Inr fail_if_eq_Inr split: if_splits)
  have rk: "record_ok r" using ledger_okD(5) [OF ok r] by blast
  have "same_terms r s \<and> record_ok s \<and> (\<forall>p k. hold p k s \<le> hold p k r)"
    using s
  proof
    assume "s = r\<lparr>rr_remaining := 0, rr_remaining_quantity := 0, rr_status := (if left = 0 then Consumed else Released)\<rparr>"
    then show ?thesis by (simp add: same_terms_def record_ok_def hold_def)
  next
    assume h: "left \<noteq> 0 \<and> left = rr_remaining_quantity r \<and> s = r\<lparr>rr_status := Active\<rparr>"
    then have "rr_status r = Active" using rk by (simp add: record_ok_def split: if_splits)
    then have "s = r" using h by simp
    then show ?thesis using rk by simp
  qed
  then have t: "same_terms r s" and k: "record_ok s" and h: "\<And>p k. hold p k s \<le> hold p k r" by blast+
  show "ledger_ok b'" "held b' p k \<le> held b p k"
    unfolding b' by (rule set_record_ok [OF ok r t k h])+
  show "capacities b' = capacities b" "participant_entities b' = participant_entities b"
    by (simp_all add: b')
qed

end
