(* ===== verification/Settlement_Properties.thy ===== *)
theory Settlement_Properties
  imports Reservation_Ledger Canonical_Transitions
begin

text \<open>
  The settlement engine never promises what it does not have. \<open>solvent\<close> says that what a participant holds
  in active reservations is covered by the balance of the same kind; the engine's operations keep it, a
  settled batch moves value between participants without creating or losing any, and no debit of a batch
  the ledger accepts can fail.
\<close>

section \<open>Solvency\<close>

definition funds :: "ParticipantBalances \<Rightarrow> ReservationKind \<Rightarrow> nat" where
  "funds b k = unat (case k of Cash \<Rightarrow> cb_value (pb_cash b) | Securities \<Rightarrow> cb_value (pb_securities b))"

definition total_funds :: "(Digest32, ParticipantBalances) btree \<Rightarrow> ReservationKind \<Rightarrow> nat" where
  "total_funds ps k = sum_list (map (\<lambda>(_, b). funds b k) ps)"

definition solvent :: "ReservationBook \<Rightarrow> (Digest32, ParticipantBalances) btree \<Rightarrow> bool" where
  "solvent rs ps \<longleftrightarrow> ledger_ok rs \<and> btree_ok ps
     \<and> (\<forall>p b k. btree_get ps p = Some b \<longrightarrow> held rs p k \<le> funds b k)"

lemma solventD:
  assumes "solvent rs ps"
  shows "ledger_ok rs" "btree_ok ps" "btree_get ps p = Some b \<Longrightarrow> held rs p k \<le> funds b k"
  using assms unfolding solvent_def by blast+

lemma solvent_mono:
  assumes s: "solvent rs ps" and ok: "ledger_ok rs'" and h: "\<And>p k. held rs' p k \<le> held rs p k"
  shows "solvent rs' ps"
  unfolding solvent_def
proof (intro conjI allI impI)
  fix p b k assume "btree_get ps p = Some b"
  then show "held rs' p k \<le> funds b k"
    using solventD(3) [OF s] h [of p k] order_trans by blast
qed (use ok solventD(2) [OF s] in simp_all)

lemma move_balances_ok:
  assumes "move_balances D s b q c package = Inr (s', b')"
  shows "funds s' Securities + unat q = funds s Securities" "funds s' Cash = funds s Cash + unat c"
    "funds b' Cash + unat c = funds b Cash" "funds b' Securities = funds b Securities + unat q"
  using assms
  by (auto simp: move_balances_def checked_debit_def checked_credit_def funds_def commitment_only_def Let_def
      result_ok unat_diff unat_add_bounded word_le_nat_alt split: if_splits)

lemma move_balances_debits:
  assumes "move_balances D s b q c package = Inl Insolvent"
  shows "funds s Securities < unat q \<or> funds b Cash < unat c"
  using assms
  by (auto simp: move_balances_def checked_debit_def checked_credit_def funds_def Let_def result_err checked_sub_def
      word_le_nat_alt split: if_splits)

lemma settle_fill_cases:
  assumes "settle_fill E D market key pq round out now index f proof st = Inr st'"
  obtains cf b1 seller buyer package b2 seller' buyer' nullifier where
    "consume_fill (st_reservations st) f market now = (Inr cf, b1)" "seller_handle cf \<noteq> buyer_handle cf"
    "btree_get (st_participants st) (seller_handle cf) = Some seller"
    "btree_get (st_participants st) (buyer_handle cf) = Some buyer"
    "apply_collaborative_remainders b1 cf (pk_securities_remainder package) (pk_cash_remainder package)
       (cf_maker_pool_remainder proof) = (Inr (), b2)"
    "nullifier \<notin> st_spent st"
    "move_balances D seller buyer (fill_quantity f) (fill_price f * fill_quantity f) package = Inr (seller', buyer')"
    "st_reservations st' = b2"
    "st_participants st' = btree_insert (buyer_handle cf) buyer'
       (btree_insert (seller_handle cf) seller' (st_participants st))"
    "st_spent st' = insert nullifier (st_spent st)"
proof -
  let ?c = "consume_fill (st_reservations st) f market now"
  from assms obtain cf seller buyer package q where
    c: "fst ?c = Inr cf" and ne: "seller_handle cf \<noteq> buyer_handle cf"
    and seller: "btree_get (st_participants st) (seller_handle cf) = Some seller"
    and buyer: "btree_get (st_participants st) (buyer_handle cf) = Some buyer"
    and r: "fst (apply_collaborative_remainders (snd ?c) cf (pk_securities_remainder package)
      (pk_cash_remainder package) (cf_maker_pool_remainder proof)) = Inr ()"
    and fresh: "instruction_nullifier D (pk_instruction package) \<notin> st_spent st"
    and q: "move_balances D seller buyer (fill_quantity f) (fill_price f * fill_quantity f) package = Inr q"
    and st': "st_reservations st' = snd (apply_collaborative_remainders (snd ?c) cf (pk_securities_remainder package)
        (pk_cash_remainder package) (cf_maker_pool_remainder proof))"
      "st_participants st' = btree_insert (buyer_handle cf) (snd q)
        (btree_insert (seller_handle cf) (fst q) (st_participants st))"
      "st_spent st' = insert (instruction_nullifier D (pk_instruction package)) (st_spent st)"
    by (auto simp: settle_fill_def result_ok Let_def split_def)
  have 1: "?c = (Inr cf, snd ?c)"
    using c by (simp add: prod_eq_iff)
  have 2: "apply_collaborative_remainders (snd ?c) cf (pk_securities_remainder package) (pk_cash_remainder package)
      (cf_maker_pool_remainder proof) = (Inr (), st_reservations st')"
    using r st'(1) by (simp add: prod_eq_iff)
  have 3: "move_balances D seller buyer (fill_quantity f) (fill_price f * fill_quantity f) package = Inr (fst q, snd q)"
    using q by simp
  show ?thesis
    by (rule that [OF 1 ne seller buyer 2 fresh 3 refl st'(2,3)])
qed

text \<open>One settled fill.\<close>

lemma btree_insert_dom: "dom (btree_get (btree_insert k v m)) = insert k (dom (btree_get m))"
  by (auto simp: btree_get_insert split: if_splits)

lemma settle_fill_ok:
  assumes s: "solvent (st_reservations st) (st_participants st)"
    and c: "settle_fill E D market key pq round out now index f proof st = Inr st'"
  shows "solvent (st_reservations st') (st_participants st')"
    and "total_funds (st_participants st') k = total_funds (st_participants st) k"
    and "dom (btree_get (st_participants st')) = dom (btree_get (st_participants st))"
    and "participant_entities (st_reservations st') = participant_entities (st_reservations st)"
    and "finite (st_spent st) \<Longrightarrow> finite (st_spent st')"
proof -
  obtain cf b1 seller buyer package b2 seller' buyer' nullifier where
    c1: "consume_fill (st_reservations st) f market now = (Inr cf, b1)" and ne: "seller_handle cf \<noteq> buyer_handle cf"
    and sl: "btree_get (st_participants st) (seller_handle cf) = Some seller"
    and by1: "btree_get (st_participants st) (buyer_handle cf) = Some buyer"
    and c2: "apply_collaborative_remainders b1 cf (pk_securities_remainder package) (pk_cash_remainder package)
       (cf_maker_pool_remainder proof) = (Inr (), b2)"
    and "nullifier \<notin> st_spent st"
    and mv: "move_balances D seller buyer (fill_quantity f) (fill_price f * fill_quantity f) package = Inr (seller', buyer')"
    and r': "st_reservations st' = b2"
    and p': "st_participants st' = btree_insert (buyer_handle cf) buyer'
       (btree_insert (seller_handle cf) seller' (st_participants st))"
    and n': "st_spent st' = insert nullifier (st_spent st)"
    by (rule settle_fill_cases [OF c])
  note ok = solventD(1) [OF s] and pok = solventD(2) [OF s]
  obtain mi m m' ti t t' where bd: "unat (fill_price f) * unat (fill_quantity f) < 2 ^ 64"
    by (rule consume_fill_cases [OF ok c1]) blast
  have cash: "unat (fill_price f * fill_quantity f) = unat (fill_price f) * unat (fill_quantity f)"
    using bd by (simp add: unat_mult_bounded)
  note m = move_balances_ok [OF mv, unfolded cash]
  note h1 = consume_fill_ok [OF ok c1] and h2 = remainders_ok [OF consume_fill_ok(1) [OF ok c1] c2]
  have le: "held b2 p k \<le> held (st_reservations st) p k" for p k
    using h1(2) [of p k] h2(2) [of p k] by linarith
  have get: "btree_get (st_participants st') p = (if p = buyer_handle cf then Some buyer'
      else if p = seller_handle cf then Some seller' else btree_get (st_participants st) p)" for p
    by (simp add: p' btree_get_insert)
  have "held b2 p k \<le> funds b k" if b: "btree_get (st_participants st') p = Some b" for p b k
  proof -
    consider "p = buyer_handle cf" | "p = seller_handle cf" "p \<noteq> buyer_handle cf"
      | "p \<noteq> seller_handle cf" "p \<noteq> buyer_handle cf" by blast
    then show ?thesis
    proof cases
      case 1
      with b have "b = buyer'" by (simp add: get)
      with 1 show ?thesis
        using solventD(3) [OF s by1, of k] h1(4) h2(2) [of p k] le [of p k] m(3,4) by (cases k) auto
    next
      case 2
      with b have "b = seller'" by (simp add: get)
      with 2 show ?thesis
        using solventD(3) [OF s sl, of k] h1(3) h2(2) [of p k] le [of p k] m(1,2) by (cases k) auto
    next
      case 3
      with b have "btree_get (st_participants st) p = Some b" by (simp add: get)
      then show ?thesis
        using solventD(3) [OF s, of p b k] le [of p k] by simp
    qed
  qed
  then show "solvent (st_reservations st') (st_participants st')"
    unfolding solvent_def r' using h2(1) pok by (simp add: p' btree_ok_insert)
  show "total_funds (st_participants st') k = total_funds (st_participants st) k"
    using btree_insert_weight [OF pok, of "\<lambda>b. funds b k" "seller_handle cf" seller']
      btree_insert_weight [OF btree_ok_insert [OF pok], of "\<lambda>b. funds b k" "buyer_handle cf" buyer' "seller_handle cf" seller']
      sl by1 ne m by (cases k) (simp_all add: total_funds_def p' btree_get_insert)
  show "dom (btree_get (st_participants st')) = dom (btree_get (st_participants st))"
    using sl by1 by (auto simp: p' btree_insert_dom)
  show "participant_entities (st_reservations st') = participant_entities (st_reservations st)"
    using h1(5) h2(4) by (simp add: r')
  show "finite (st_spent st) \<Longrightarrow> finite (st_spent st')"
    by (simp add: n')
qed

lemma settle_fills_ok:
  assumes "solvent (st_reservations st) (st_participants st)"
    and "settle_fills E D market key pq round out now index fps st = Inr st'"
  shows "solvent (st_reservations st') (st_participants st')
    \<and> total_funds (st_participants st') k = total_funds (st_participants st) k
    \<and> dom (btree_get (st_participants st')) = dom (btree_get (st_participants st))
    \<and> participant_entities (st_reservations st') = participant_entities (st_reservations st)
    \<and> (finite (st_spent st) \<longrightarrow> finite (st_spent st'))"
  using assms
proof (induction fps arbitrary: index st)
  case Nil
  then show ?case by simp
next
  case (Cons fp fps)
  obtain f p where fp: "fp = (f, p)" by (cases fp)
  from Cons.prems(2) obtain st1 where
    1: "settle_fill E D market key pq round out now index f p st = Inr st1"
    and 2: "settle_fills E D market key pq round out now (Suc index) fps st1 = Inr st'"
    by (auto simp: fp andThen_eq_Inr)
  note a = settle_fill_ok [OF Cons.prems(1) 1]
  show ?case
    using Cons.IH [OF a(1) 2] a(2) [of k] a(3,4,5) by simp
qed

lemma refresh_all_ok:
  assumes "ledger_ok b" "refresh_all b ps = Inr b'" "distinct (map fst ps)"
  shows "ledger_ok b' \<and> records b' = records b \<and> participant_entities b' = participant_entities b
    \<and> (\<forall>(p, x)\<in>set ps. \<exists>e. btree_get (participant_entities b) p = Some e
         \<and> btree_get (capacities b') (e, 1) = Some (cb_value (pb_cash x))
         \<and> btree_get (capacities b') (e, 2) = Some (cb_value (pb_securities x)))
    \<and> (\<forall>e t. (\<forall>p\<in>fst ` set ps. btree_get (participant_entities b) p \<noteq> Some e) \<longrightarrow>
         btree_get (capacities b') (e, t) = btree_get (capacities b) (e, t))"
  using assms
proof (induction ps arbitrary: b)
  case Nil
  then show ?case by simp
next
  case (Cons px ps)
  obtain p x where px: "px = (p, x)" by (cases px)
  from Cons.prems(2) obtain b1 where
    1: "refresh_capacity b p (cb_value (pb_cash x)) (cb_value (pb_securities x)) = (Inr (), b1)"
    and 2: "refresh_all b1 ps = Inr b'"
    by (auto simp: px split: prod.splits sum.splits)
  from refresh_capacity_ok [OF Cons.prems(1) 1] obtain e where e: "btree_get (participant_entities b) p = Some e"
    and b1: "b1 = b\<lparr>capacities := btree_insert (e, 2) (cb_value (pb_securities x))
        (btree_insert (e, 1) (cb_value (pb_cash x)) (capacities b))\<rparr>"
    and ok1: "ledger_ok b1" by blast
  have d: "distinct (map fst ps)" "p \<notin> fst ` set ps"
    using Cons.prems(3) by (simp_all add: px)
  note ih = Cons.IH [OF ok1 2 d(1)]
  have same: "participant_entities b1 = participant_entities b" "records b1 = records b"
    by (simp_all add: b1)
  have other: "\<forall>q\<in>fst ` set ps. btree_get (participant_entities b) q \<noteq> Some e"
    using entity_unique [OF Cons.prems(1) e] d(2) by blast
  have keep: "btree_get (capacities b') (e, t) = btree_get (capacities b1) (e, t)" for t
    using ih other unfolding same by blast
  have mine: "btree_get (capacities b') (e, 1) = Some (cb_value (pb_cash x))
      \<and> btree_get (capacities b') (e, 2) = Some (cb_value (pb_securities x))"
    unfolding keep by (simp add: b1 btree_get_insert)
  have rest: "btree_get (capacities b1) (d, t) = btree_get (capacities b) (d, t)" if "d \<noteq> e" for d t
    using that by (simp add: b1 btree_get_insert)
  have far: "btree_get (capacities b') (d, t) = btree_get (capacities b) (d, t)"
    if h: "\<forall>q\<in>fst ` set (px # ps). btree_get (participant_entities b) q \<noteq> Some d" for d t
  proof -
    have "d \<noteq> e" using h e by (auto simp: px)
    moreover have "btree_get (capacities b') (d, t) = btree_get (capacities b1) (d, t)"
      using ih h unfolding same by simp
    ultimately show ?thesis by (simp add: rest)
  qed
  have all: "\<forall>(q, y)\<in>set (px # ps). \<exists>e. btree_get (participant_entities b) q = Some e
      \<and> btree_get (capacities b') (e, 1) = Some (cb_value (pb_cash y))
      \<and> btree_get (capacities b') (e, 2) = Some (cb_value (pb_securities y))"
    using ih e mine unfolding same px by auto
  from ih same all far show ?case by simp
qed

section \<open>The engine invariant\<close>

text \<open>Every bound participant has an account, and the entity's capacities are that account's balances.\<close>

definition mirrored :: "ReservationBook \<Rightarrow> (Digest32, ParticipantBalances) btree \<Rightarrow> bool" where
  "mirrored rs ps \<longleftrightarrow> (\<forall>p e. btree_get (participant_entities rs) p = Some e \<longrightarrow> (\<exists>b. btree_get ps p = Some b
     \<and> btree_get (capacities rs) (e, 1) = Some (cb_value (pb_cash b))
     \<and> btree_get (capacities rs) (e, 2) = Some (cb_value (pb_securities b))))"

definition engine_ok :: "SettlementEngine \<Rightarrow> bool" where
  "engine_ok g \<longleftrightarrow> solvent (reservations g) (participants g) \<and> mirrored (reservations g) (participants g)
     \<and> finite (spent_instructions g)"

lemma mirroredD:
  "mirrored rs ps \<Longrightarrow> btree_get (participant_entities rs) p = Some e \<Longrightarrow> \<exists>b. btree_get ps p = Some b
     \<and> btree_get (capacities rs) (e, 1) = Some (cb_value (pb_cash b))
     \<and> btree_get (capacities rs) (e, 2) = Some (cb_value (pb_securities b))"
  unfolding mirrored_def by blast

lemma mirrored_cong:
  "mirrored rs ps \<Longrightarrow> participant_entities rs' = participant_entities rs \<Longrightarrow> capacities rs' = capacities rs \<Longrightarrow>
     mirrored rs' ps"
  unfolding mirrored_def by simp

lemma capacity_funds:
  assumes "mirrored rs ps" "btree_get (participant_entities rs) p = Some e"
    "btree_get (capacities rs) (e, reservation_kind_tag k) = Some cap"
  shows "\<exists>b. btree_get ps p = Some b \<and> unat cap = funds b k"
  using mirroredD [OF assms(1,2)] assms(3) by (cases k) (auto simp: reservation_kind_tag_def funds_def)

lemma held_records: "records b' = records b \<Longrightarrow> held b' p k = held b p k"
  by (simp add: held_def)

lemma solvent_records:
  assumes "solvent rs ps" "ledger_ok rs'" "records rs' = records rs"
  shows "solvent rs' ps"
  by (rule solvent_mono [OF assms(1,2)]) (simp add: held_records [OF assms(3)])

lemma settle_staged_ok:
  assumes g: "engine_ok g" and c: "settle_staged E D g fills proofs round a arriving left now = Inr st"
  shows "solvent (st_reservations st) (st_participants st) \<and> mirrored (st_reservations st) (st_participants st)
    \<and> finite (st_spent st) \<and> total_funds (st_participants st) k = total_funds (participants g) k
    \<and> dom (btree_get (st_participants st)) = dom (btree_get (participants g))
    \<and> participant_entities (st_reservations st) = participant_entities (reservations g)"
proof -
  let ?st0 = "\<lparr>st_reservations = reservations g, st_participants = participants g,
      st_spent = spent_instructions g, st_members = []\<rparr>"
  from c obtain market key pq st1 left' b2 where
    f: "settle_fills E D market key pq round (mpc_output_digest (auth_statement a)) now 0
        (zip fills proofs) ?st0 = Inr st1"
    and rc: "fst (reconcile_arriving_collaborative (st_reservations st1) (commitment_bytes arriving) left) = Inr left'"
    and rf0: "refresh_all (snd (reconcile_arriving_collaborative (st_reservations st1) (commitment_bytes arriving) left))
        (st_participants st1) = Inr b2"
    and sta: "st = st1\<lparr>st_reservations := b2, st_members := set_last_remaining left' (st_members st1)\<rparr>"
    by (auto simp: settle_staged_def result_ok Let_def split_def)
  have st: "st_reservations st = b2" "st_participants st = st_participants st1" "st_spent st = st_spent st1"
    by (simp_all add: sta)
  define b1 where b1: "b1 = snd (reconcile_arriving_collaborative (st_reservations st1) (commitment_bytes arriving) left)"
  have rf: "refresh_all b1 (st_participants st1) = Inr b2" using rf0 by (simp add: b1)
  have s0: "solvent (st_reservations ?st0) (st_participants ?st0)"
    using g by (simp add: engine_ok_def)
  note a = settle_fills_ok [OF s0 f, of k]
  from a have s1: "solvent (st_reservations st1) (st_participants st1)" by blast
  have rc': "reconcile_arriving_collaborative (st_reservations st1) (commitment_bytes arriving) left = (Inr left', b1)"
    using rc b1 by (simp add: prod_eq_iff)
  note q = reconcile_collaborative_ok [OF solventD(1) [OF s1] rc']
  have s2: "solvent b1 (st_participants st1)"
    by (rule solvent_mono [OF s1 q(1,2)])
  have dist: "distinct (map fst (st_participants st1))"
    by (rule bt.distinct_keys [OF solventD(2) [OF s1]])
  note w = refresh_all_ok [OF q(1) rf dist]
  have s3: "solvent b2 (st_participants st1)"
    by (rule solvent_records [OF s2]) (use w in simp_all)
  have pe: "participant_entities b1 = participant_entities (reservations g)"
    using a q(4) by simp
  have "mirrored b2 (st_participants st1)"
    unfolding mirrored_def
  proof (intro allI impI)
    fix p e assume e: "btree_get (participant_entities b2) p = Some e"
    then have e1: "btree_get (participant_entities b1) p = Some e" using w by simp
    then have "p \<in> dom (btree_get (participants g))"
      using mirroredD [of "reservations g" "participants g" p e] g pe by (auto simp: engine_ok_def)
    then obtain x where x: "btree_get (st_participants st1) p = Some x"
      using a by (auto simp: dom_def)
    then have "(p, x) \<in> set (st_participants st1)"
      using bt.entries_get [OF solventD(2) [OF s1], of p x] by blast
    with w e1 x show "\<exists>b. btree_get (st_participants st1) p = Some b
        \<and> btree_get (capacities b2) (e, 1) = Some (cb_value (pb_cash b))
        \<and> btree_get (capacities b2) (e, 2) = Some (cb_value (pb_securities b))"
      by fastforce
  qed
  with s3 a g w pe show ?thesis
    by (simp add: st engine_ok_def)
qed

section \<open>Reachable engines\<close>

fun candidate_of :: "PreparedCanonicalTransition \<Rightarrow> SettlementEngine" where
  "candidate_of (PreparedReservation p) = pcr_candidate p"
| "candidate_of (PreparedSettlement p) = pcb_candidate p"

text \<open>An engine is reached from a fresh one by calls of its operations, failed calls included, and by
  accepting a prepared candidate that was itself reached.\<close>

inductive reachable_engine :: "crypto \<Rightarrow> defmi \<Rightarrow> SettlementEngine \<Rightarrow> bool" for E D where
  fresh: "new_with_transition_committee E commit first second scalars keys policy = Inr g \<Longrightarrow> reachable_engine E D g"
| pin: "reachable_engine E D g \<Longrightarrow> pin_collaborative_settlement_committee D g key pq = (r, g') \<Longrightarrow> reachable_engine E D g'"
| bind: "reachable_engine E D g \<Longrightarrow> bind_eligible_participant g p e = (r, g') \<Longrightarrow> reachable_engine E D g'"
| reserve: "reachable_engine E D g \<Longrightarrow> order_ok o1 \<Longrightarrow>
    reserve_order_with_commitment E g (order_view o1 c) pt = (r, g') \<Longrightarrow> reachable_engine E D g'"
| release: "reachable_engine E D g \<Longrightarrow> release_order E g c = (r, g') \<Longrightarrow> reachable_engine E D g'"
| release_batch: "reachable_engine E D g \<Longrightarrow> release_orders_atomic E g cs = (r, g') \<Longrightarrow> reachable_engine E D g'"
| settle: "reachable_engine E D g \<Longrightarrow>
    settle_batch_collaborative E D g fills proofs round_id a arriving left now = (r, g') \<Longrightarrow> reachable_engine E D g'"
| accept: "reachable_engine E D g \<Longrightarrow> reachable_engine E D (candidate_of t) \<Longrightarrow>
    canonical_accept E D t g x = (r, g') \<Longrightarrow> reachable_engine E D g'"

lemma engine_okD:
  assumes "engine_ok g"
  shows "solvent (reservations g) (participants g)" "mirrored (reservations g) (participants g)"
    "finite (spent_instructions g)"
  using assms unfolding engine_ok_def by blast+

lemma engine_ok_height [simp]: "engine_ok (g\<lparr>se_height := h\<rparr>) = engine_ok g"
  by (simp add: engine_ok_def)

lemma fresh_engine_ok:
  "new_with_transition_committee E commit first second scalars keys policy = Inr g \<Longrightarrow> engine_ok g"
  by (auto simp: new_with_transition_committee_def result_ok engine_ok_def solvent_def mirrored_def ledger_ok_def
      ReservationBook_default_def held_def btree_get_def Let_def split_def btree_ok_insert
      simp del: btree_insert.simps)

lemma bind_engine_ok:
  assumes g: "engine_ok g" and c: "bind_eligible_participant g p e = (r, g')"
  shows "engine_ok g'"
proof (cases "\<exists>b u rs. btree_get (participants g) p = Some b \<and>
    bind_participant (reservations g) p e (cb_value (pb_cash b)) (cb_value (pb_securities b)) = (Inr u, rs)")
  case True
  then obtain b u rs where b: "btree_get (participants g) p = Some b"
    and rs: "bind_participant (reservations g) p e (cb_value (pb_cash b)) (cb_value (pb_securities b)) = (Inr u, rs)"
    by blast
  note o = bind_participant_ok [OF solventD(1) [OF engine_okD(1) [OF g]] rs]
  have g': "g' = g\<lparr>reservations := rs\<rparr>"
    using c b rs by (simp add: bind_eligible_participant_def)
  have "mirrored rs (participants g)"
    unfolding mirrored_def
  proof (intro allI impI)
    fix q d assume d: "btree_get (participant_entities rs) q = Some d"
    show "\<exists>b. btree_get (participants g) q = Some b \<and> btree_get (capacities rs) (d, 1) = Some (cb_value (pb_cash b))
        \<and> btree_get (capacities rs) (d, 2) = Some (cb_value (pb_securities b))"
    proof (cases "q = p")
      case True
      then show ?thesis using d b by (simp add: o(3,5))
    next
      case False
      then have "d \<noteq> e"
        using d entity_unique [OF o(1), of p e q] by (auto simp: o(3))
      with False d show ?thesis
        using mirroredD [OF engine_okD(2) [OF g], of q d] by (simp add: o(3,5))
    qed
  qed
  moreover have "solvent rs (participants g)"
    by (rule solvent_records [OF engine_okD(1) [OF g] o(1,2)])
  ultimately show ?thesis
    using engine_okD(3) [OF g] by (simp add: g' engine_ok_def)
next
  case False
  have "bind_participant (reservations g) p e x y = (w, rs) \<Longrightarrow> w \<noteq> Inr () \<Longrightarrow> rs = reservations g" for x y w rs
    by (auto simp: bind_participant_def split: if_splits)
  with False c have "g' = g"
    by (cases "btree_get (participants g) p")
       (auto simp: bind_eligible_participant_def split: prod.splits sum.splits)
  with g show ?thesis by simp
qed

lemma reserve_engine_ok:
  assumes g: "engine_ok g" and v: "view_ok v" and c: "reserve_order_with_commitment E g v pt = (r, g')"
  shows "engine_ok g'"
proof (cases r)
  case (Inl e)
  with c have "g' = g"
    by (auto simp: reserve_order_with_commitment_def guarded_def ok_or_def split: sum.splits prod.splits option.splits)
  with g show ?thesis by simp
next
  case (Inr receipt)
  obtain rcpt rs where rs: "ReservationBook_reserve E (reservations g) v pt = (Inr rcpt, rs)"
    and g': "\<exists>h. g' = g\<lparr>reservations := rs, se_height := h\<rparr>"
    using c Inr by (auto simp: reserve_order_with_commitment_def guarded_ok split: prod.splits)
  let ?p = "settlement_participant_handle v" and ?k = "side_kind (settlement_side v)"
  obtain cap where bound: "btree_get (participant_entities (reservations g)) ?p = Some (settlement_dekyx_nullifier v)"
    and cap: "btree_get (capacities (reservations g)) (settlement_dekyx_nullifier v, reservation_kind_tag ?k) = Some cap"
    and "btree_get (records (reservations g)) (settlement_reservation_id v) = None"
    and rs': "rs = set_record (reservations g) (settlement_reservation_id v) (new_record v pt)"
    and ok: "ledger_ok rs" and sum: "\<And>p k. held rs p k = held (reservations g) p k + hold p k (new_record v pt)"
    and le: "held rs ?p ?k \<le> unat cap"
    by (rule reserve_ok [OF solventD(1) [OF engine_okD(1) [OF g]] v rs]) blast
  from capacity_funds [OF engine_okD(2) [OF g] bound cap]
  obtain b0 where b0: "btree_get (participants g) ?p = Some b0" "unat cap = funds b0 ?k" by blast
  have "held rs p k \<le> funds b k" if b: "btree_get (participants g) p = Some b" for p b k
  proof (cases "p = ?p \<and> k = ?k")
    case True
    then show ?thesis using b b0 le by simp
  next
    case False
    then have "hold p k (new_record v pt) = 0"
      by (auto simp: hold_def new_record_def)
    then show ?thesis
      using sum [of p k] solventD(3) [OF engine_okD(1) [OF g] b, of k] by simp
  qed
  then have "solvent rs (participants g)"
    unfolding solvent_def using ok solventD(2) [OF engine_okD(1) [OF g]] by blast
  moreover have "mirrored rs (participants g)"
    by (rule mirrored_cong [OF engine_okD(2) [OF g]]) (simp_all add: rs')
  ultimately show ?thesis
    using g' engine_okD(3) [OF g] by (auto simp: engine_ok_def)
qed

text \<open>Replacing the reservations by a ledger that holds no more, with the same bindings.\<close>

lemma engine_ok_release:
  assumes g: "engine_ok g" and b: "ledger_ok b" "\<And>p k. held b p k \<le> held (reservations g) p k"
    "capacities b = capacities (reservations g)" "participant_entities b = participant_entities (reservations g)"
  shows "engine_ok (g\<lparr>reservations := b, se_height := h\<rparr>)"
  using solvent_mono [OF engine_okD(1) [OF g] b(1,2)] mirrored_cong [OF engine_okD(2) [OF g] b(4,3)]
    engine_okD(3) [OF g] by (simp add: engine_ok_def)

lemma release_each_ok:
  "ledger_ok b \<Longrightarrow> release_each b cs = Inr b' \<Longrightarrow> ledger_ok b' \<and> (\<forall>p k. held b' p k \<le> held b p k)
     \<and> capacities b' = capacities b \<and> participant_entities b' = participant_entities b"
proof (induction cs arbitrary: b)
  case (Cons c cs)
  then obtain u b1 where 1: "ReservationBook_release_order b c = (Inr u, b1)" and 2: "release_each b1 cs = Inr b'"
    by (auto split: prod.splits sum.splits)
  note o = release_order_ok [OF Cons.prems(1) 1]
  note i = Cons.IH [OF o(1) 2]
  have "held b' p k \<le> held b p k" for p k
    using i o(2) [of p k] by (meson order_trans)
  with i o(3,4) show ?case by simp
qed simp

lemma release_engine_ok:
  assumes g: "engine_ok g" and c: "release_order E g oc = (r, g')"
  shows "engine_ok g'"
proof (cases r)
  case (Inl e)
  with c have "g' = g"
    by (auto simp: release_order_def guarded_def ok_or_def Let_def split: sum.splits prod.splits option.splits)
  with g show ?thesis by simp
next
  case (Inr x)
  obtain u rs h where rs: "ReservationBook_release_order (reservations g) oc = (Inr u, rs)"
    and g': "g' = g\<lparr>reservations := rs, se_height := h\<rparr>"
    using c Inr by (auto simp: release_order_def guarded_ok Let_def split: prod.splits)
  show ?thesis
    unfolding g' by (rule engine_ok_release [OF g release_order_ok [OF solventD(1) [OF engine_okD(1) [OF g]] rs]])
qed

lemma release_batch_engine_ok:
  assumes g: "engine_ok g" and c: "release_orders_atomic E g cs = (r, g')"
  shows "engine_ok g'"
proof (cases r)
  case (Inl e)
  with c have "g' = g"
    by (auto simp: release_orders_atomic_def guarded_def ok_or_def fail_if_def Let_def
        split: sum.splits prod.splits option.splits if_splits)
  with g show ?thesis by simp
next
  case (Inr x)
  obtain rs h where rs: "release_each (reservations g) cs = Inr rs"
    and g': "g' = g\<lparr>reservations := rs, se_height := h\<rparr>"
    using c Inr by (auto simp: release_orders_atomic_def guarded_ok Let_def)
  note o = release_each_ok [OF solventD(1) [OF engine_okD(1) [OF g]] rs]
  show ?thesis
    unfolding g' by (rule engine_ok_release [OF g]) (use o in simp_all)
qed

text \<open>The three outcomes of a batch: refused, failed after the height moved, or applied.\<close>

lemma guarded_map_errE:
  assumes "guarded (map_err f x) s k = (r, s')"
  obtains e where "r = Inl (f e)" "s' = s" | y where "k y = (r, s')"
  using assms by (cases x) auto

lemma commit_staged_cases:
  assumes "commit_staged E D g d st = (r, g')"
  obtains "r = Inl (Reservation ''DeFMI height exhausted'')" "g' = g"
    | e h where "r = Inl (Finality e)" "checked_add (se_height g) 1 = Some h" "g' = g\<lparr>se_height := h\<rparr>"
    | receipt h where "r = Inr receipt" "checked_add (se_height g) 1 = Some h"
        "g' = g\<lparr>se_height := h, reservations := st_reservations st, participants := st_participants st,
           spent_instructions := st_spent st\<rparr>"
proof (cases "checked_add (se_height g) 1")
  case None
  with assms show ?thesis
    by (intro that(1)) (simp_all add: commit_staged_def Let_def split_def)
next
  case (Some h)
  let ?g' = "g\<lparr>se_height := h, reservations := st_reservations st, participants := st_participants st,
         spent_instructions := st_spent st\<rparr>"
  have "(\<exists>e. r = Inl (Finality e) \<and> g' = g\<lparr>se_height := h\<rparr>) \<or> (\<exists>receipt. r = Inr receipt \<and> g' = ?g')"
    using assms unfolding commit_staged_def Some Let_def split_def guarded_simps ok_or_simps
    by (elim guarded_map_errE) blast+
  then show ?thesis
    using that(2) [OF _ Some] that(3) [OF _ Some] by blast
qed

lemma settle_batch_cases:
  assumes "settle_batch_collaborative E D g fills proofs round_id a arriving left now = (r, g')"
  obtains e where "r = Inl e" "g' = g"
    | e st h where "r = Inl (Finality e)" "settle_staged E D g fills proofs round_id a arriving left now = Inr st"
        "checked_add (se_height g) 1 = Some h" "g' = g\<lparr>se_height := h\<rparr>"
    | receipt st h where "r = Inr receipt" "settle_staged E D g fills proofs round_id a arriving left now = Inr st"
        "checked_add (se_height g) 1 = Some h"
        "g' = g\<lparr>se_height := h, reservations := st_reservations st, participants := st_participants st,
           spent_instructions := st_spent st\<rparr>"
proof (cases "settle_staged E D g fills proofs round_id a arriving left now")
  case (Inl e)
  with assms show ?thesis
    by (intro that(1) [of e]) (simp_all add: settle_batch_collaborative_def)
next
  case (Inr st)
  with assms have "commit_staged E D g (auth_digest E a) st = (r, g')"
    by (simp add: settle_batch_collaborative_def)
  then show ?thesis
    by (rule commit_staged_cases) (use that Inr in blast)+
qed

lemma settle_engine_ok:
  assumes g: "engine_ok g"
    and c: "settle_batch_collaborative E D g fills proofs round_id a arriving left now = (r, g')"
  shows "engine_ok g'"
  using c
proof (cases rule: settle_batch_cases)
  case (3 receipt st h)
  note o = settle_staged_ok [OF g 3(2)]
  then show ?thesis by (simp add: 3(4) engine_ok_def)
qed (use g in simp_all)

lemma accept_engine_ok:
  assumes "engine_ok g" "engine_ok (candidate_of t)" "canonical_accept E D t g x = (r, g')"
  shows "engine_ok g'"
  using assms
  by (cases t) (auto simp: canonical_accept_def reservation_accept_def batch_accept_def guarded_def
      split: sum.splits)

lemma pin_engine_ok:
  assumes "engine_ok g" "pin_collaborative_settlement_committee D g key pq = (r, g')"
  shows "engine_ok g'"
  using assms
  by (auto simp: pin_collaborative_settlement_committee_def guarded_def engine_ok_def
      split: sum.splits option.splits)

lemma reachable_engine_ok: "reachable_engine E D g \<Longrightarrow> engine_ok g"
proof (induction rule: reachable_engine.induct)
  case (fresh commit first second scalars keys policy g)
  then show ?case by (rule fresh_engine_ok)
next
  case (pin g key pq r g')
  then show ?case by (blast intro: pin_engine_ok)
next
  case (bind g p e r g')
  then show ?case by (blast intro: bind_engine_ok)
next
  case (reserve g o1 c pt r g')
  then show ?case using reserve_engine_ok [OF _ order_view_ok] by blast
next
  case (release g c r g')
  then show ?case by (blast intro: release_engine_ok)
next
  case (release_batch g cs r g')
  then show ?case by (blast intro: release_batch_engine_ok)
next
  case (settle g fills proofs round_id a arriving left now r g')
  then show ?case by (blast intro: settle_engine_ok)
next
  case (accept g t x r g')
  then show ?case by (blast intro: accept_engine_ok)
qed

section \<open>Progress\<close>

text \<open>A record that covers its remainder can pay any fill within its limit.\<close>

lemma consume_record_succeeds:
  assumes r: "record_ok r" "rr_status r = Active" and q: "q \<le> rr_remaining_quantity r"
    and l: "respects_limit price r" and m: "unat price * unat q < 2 ^ 64"
  shows "\<exists>s. consume_record r (fill_required (price * q) q r) q = Inr s"
    and "fill_required (price * q) q r \<le> rr_remaining r"
proof -
  let ?rq = "unat (rr_remaining_quantity r)" and ?sp = "fill_required (price * q) q r"
  have pq: "unat (price * q) = unat price * unat q"
    using m by (simp add: unat_mult_bounded)
  have qq: "unat q \<le> ?rq" using q by (simp add: word_le_nat_alt)
  have d: "unat (rr_remaining_quantity r - q) = ?rq - unat q"
    using q by (simp add: unat_diff)
  have c: "cover r ?rq \<le> unat (rr_remaining r)"
    using r by (simp add: record_ok_def)
  have key: "cover r (?rq - unat q) + unat ?sp \<le> cover r ?rq"
  proof (cases "rr_kind r")
    case Securities
    then show ?thesis using qq by (auto simp: cover_def fill_required_def)
  next
    case Cash
    then have "unat price \<le> unat (rr_limit_price r)"
      using l by (simp add: respects_limit_def word_le_nat_alt)
    then have "unat price * unat q + unat (rr_limit_price r) * (?rq - unat q) \<le> unat (rr_limit_price r) * ?rq"
      using qq by (metis add_mono_thms_linordered_semiring(3) distrib_left le_add_diff_inverse mult_le_mono1)
    moreover have "cover r (?rq - unat q) \<le> unat (rr_limit_price r) * (?rq - unat q) + unat (rr_max_fee r)"
      using Cash by (simp add: cover_def)
    moreover have "unat ?sp = unat price * unat q"
      using Cash by (simp add: fill_required_def pq)
    moreover have "?rq \<noteq> 0 \<Longrightarrow> cover r ?rq = unat (rr_limit_price r) * ?rq + unat (rr_max_fee r)"
      using Cash by (simp add: cover_def)
    moreover have "?rq = 0 \<Longrightarrow> cover r (?rq - unat q) = 0 \<and> unat price * unat q = 0"
      using qq by (simp add: cover_def)
    ultimately show ?thesis by linarith
  qed
  show le: "?sp \<le> rr_remaining r"
    using key c by (simp add: word_le_nat_alt)
  have "cover r (unat (rr_remaining_quantity r - q)) < 2 ^ 64"
    using key c unat_u64_less [of "rr_remaining r"] unfolding d by linarith
  from remaining_required_bounded [OF this] obtain x where
    x: "remaining_required (rr_kind r) (rr_limit_price r) (rr_max_fee r) (rr_remaining_quantity r - q) = Some x" by blast
  have "\<not> rr_remaining r - ?sp < x"
    using key c remaining_required_Some [OF x] le
    by (simp add: word_less_nat_alt unat_diff d)
  with x le q show "\<exists>s. consume_record r ?sp q = Inr s"
    by (simp add: consume_record_def checked_sub_def)
qed

lemma consume_fill_succeeds:
  assumes ok: "ledger_ok b" and m: "btree_get (records b) mi = Some m" and t: "btree_get (records b) ti = Some t"
    and cm: "rr_order_commitment m = commitment_bytes (maker_order f)"
    and ct: "rr_order_commitment t = commitment_bytes (taker_order f)"
    and act: "rr_status m = Active" "rr_status t = Active" and k: "rr_kind m \<noteq> rr_kind t"
    and mk: "rr_market_id m = market" "rr_market_id t = market"
    and ex: "now \<le> rr_expires_at m" "now \<le> rr_expires_at t"
    and q: "fill_quantity f \<le> rr_remaining_quantity m" "fill_quantity f \<le> rr_remaining_quantity t"
    and l: "respects_limit (fill_price f) m" "respects_limit (fill_price f) t"
    and pq: "unat (fill_price f) * unat (fill_quantity f) < 2 ^ 64"
  shows "\<exists>cf b'. consume_fill b f market now = (Inr cf, b')"
proof -
  let ?c = "fill_price f * fill_quantity f"
  have ids: "record_id_for b (commitment_bytes (maker_order f)) = Some mi"
    "record_id_for b (commitment_bytes (taker_order f)) = Some ti"
    using record_id_for_iff [OF ok] m t cm ct by blast+
  have ne: "mi \<noteq> ti" using m t k by auto
  have rm: "record_ok m" and rt: "record_ok t"
    using ledger_okD(5) [OF ok m] ledger_okD(5) [OF ok t] by blast+
  note am = consume_record_succeeds [OF rm act(1) q(1) l(1) pq]
    and at = consume_record_succeeds [OF rt act(2) q(2) l(2) pq]
  obtain m' t' where m': "consume_record m (fill_required ?c (fill_quantity f) m) (fill_quantity f) = Inr m'"
    and t': "consume_record t (fill_required ?c (fill_quantity f) t) (fill_quantity f) = Inr t'"
    using am(1) at(1) by blast
  have g: "fill_guard f market now ?c m t = Inr ()"
    using k mk ex q l act am(2) at(2) by (simp add: fill_guard_def result_ok not_less)
  have t1: "btree_get (records (set_record b mi m')) ti = Some t"
    using t ne by (simp add: btree_get_insert)
  show ?thesis
    using pq ids ne m t g m' t' t1
    by (simp add: consume_fill_def checked_mul_def Let_def)
qed

end
