(* ===== verification/Book_Structure.thy ===== *)
theory Book_Structure
  imports Private_Book
begin

text \<open>
  The structure of the private book: the invariant \<open>book_ok\<close>, the view of a side as the flat list
  of its orders in price-time order, and what each helper of \<open>PrivateBook\<close> does to that view.
\<close>

section \<open>The invariant\<close>

definition queue_ok :: "Side \<Rightarrow> u64 \<Rightarrow> RestingOrder list \<Rightarrow> bool" where
  "queue_ok s price queue \<longleftrightarrow>
     queue \<noteq> [] \<and> (\<forall>r\<in>set queue. side (secret r) = s \<and> limit_price (secret r) = price)
     \<and> sorted_wrt (<) (map ro_sequence queue)"

definition side_ok :: "Side \<Rightarrow> book_side \<Rightarrow> bool" where
  "side_ok s m \<longleftrightarrow> btree_ok m \<and> (\<forall>(price, queue)\<in>set m. queue_ok s price queue)"

definition orders :: "PrivateBook \<Rightarrow> RestingOrder list" where
  "orders b = flat (bids b) @ flat (asks b)"

definition record_ok :: "crypto \<Rightarrow> rust_str \<Rightarrow> u64 \<Rightarrow> RestingOrder \<Rightarrow> bool" where
  "record_ok E market seq r \<longleftrightarrow>
     order_ok (secret r) \<and> rc r = commitment E (secret r) \<and> 0 < remaining r
     \<and> remaining r \<le> quantity (secret r) \<and> time_in_force (secret r) = GoodTilCancelled
     \<and> market_id (secret r) = market \<and> ro_sequence r \<le> seq"

definition book_ok :: "crypto \<Rightarrow> PrivateBook \<Rightarrow> bool" where
  "book_ok E b \<longleftrightarrow>
     side_ok Buy (bids b) \<and> side_ok Sell (asks b)
     \<and> distinct (map rc (orders b)) \<and> rc ` set (orders b) \<subseteq> admitted b
     \<and> (\<forall>r\<in>set (orders b). record_ok E (pb_market_id b) (pb_sequence b) r)"

section \<open>Flat sides\<close>

lemma flat_simps [simp]:
  "flat [] = []" "flat ((p, q) # m) = q @ flat m" "flat (m @ n) = flat m @ flat n"
  by (simp_all add: flat_def)

lemma set_flat: "set (flat m) = (\<Union>(p, q)\<in>set m. set q)"
  by (auto simp: flat_def)

lemma side_ok_Nil [simp]: "side_ok s []"
  by (simp add: side_ok_def)

lemma side_ok_Cons: "side_ok s ((p, q) # m) \<longleftrightarrow>
    queue_ok s p q \<and> side_ok s m \<and> (\<forall>k\<in>fst ` set m. p < k)"
  by (auto simp: side_ok_def btree_ok_Cons)

lemma side_ok_append:
  "side_ok s (m @ n) \<longleftrightarrow> side_ok s m \<and> side_ok s n \<and> (\<forall>j\<in>fst ` set m. \<forall>k\<in>fst ` set n. j < k)"
  by (auto simp: side_ok_def btree_ok_def sorted_wrt_append)

lemma side_ok_btree: "side_ok s m \<Longrightarrow> btree_ok m"
  by (simp add: side_ok_def)

lemma side_ok_flat:
  "side_ok s m \<Longrightarrow> r \<in> set (flat m) \<Longrightarrow> side (secret r) = s"
  by (auto simp: side_ok_def set_flat queue_ok_def)

lemma side_ok_price:
  "side_ok s m \<Longrightarrow> (p, q) \<in> set m \<Longrightarrow> r \<in> set q \<Longrightarrow> limit_price (secret r) = p"
  by (auto simp: side_ok_def queue_ok_def)

lemma in_flat_price:
  "side_ok s m \<Longrightarrow> r \<in> set (flat m) \<Longrightarrow> limit_price (secret r) \<in> fst ` set m"
  by (force simp: set_flat dest: side_ok_price)

text \<open>Price-time priority against an arriving order of a side: the better price first, then the
  earlier sequence. The two sides are flattened in that order.\<close>

definition outranks :: "Side \<Rightarrow> RestingOrder \<Rightarrow> RestingOrder \<Rightarrow> bool" where
  "outranks s a b \<longleftrightarrow>
     (case s of Buy \<Rightarrow> limit_price (secret a) < limit_price (secret b)
      | Sell \<Rightarrow> limit_price (secret b) < limit_price (secret a))
     \<or> limit_price (secret a) = limit_price (secret b) \<and> ro_sequence a < ro_sequence b"

lemma queue_outranks: "queue_ok s p q \<Longrightarrow> sorted_wrt (outranks t) q"
  by (rule sorted_wrt_mono_rel [of q "\<lambda>a b. ro_sequence a < ro_sequence b"])
     (auto simp: queue_ok_def sorted_wrt_map outranks_def)

lemma level_gap:
  assumes "side_ok s ((p, q) # m)" "a \<in> set q" "b \<in> set (flat m)"
  shows "limit_price (secret a) < limit_price (secret b)" "outranks Buy a b" "outranks Sell b a"
proof -
  show "limit_price (secret a) < limit_price (secret b)"
    using assms in_flat_price [of s m b] by (auto simp: side_ok_Cons queue_ok_def)
  then show "outranks Buy a b" "outranks Sell b a" by (simp_all add: outranks_def)
qed

lemma flat_sorted: "side_ok s m \<Longrightarrow> sorted_wrt (outranks Buy) (flat m)"
proof (induction m)
  case (Cons e m)
  then show ?case
    using level_gap(2) [of s "fst e" "snd e" m]
    by (cases e) (auto simp: sorted_wrt_append side_ok_Cons queue_outranks)
qed simp

lemma flat_rev_sorted: "side_ok s m \<Longrightarrow> sorted_wrt (outranks Sell) (flat (rev m))"
proof (induction m)
  case (Cons e m)
  have "set (flat (rev m)) = set (flat m)" by (simp add: set_flat)
  with Cons show ?case
    using level_gap(3) [of s "fst e" "snd e" m]
    by (cases e) (auto simp: sorted_wrt_append side_ok_Cons queue_outranks)
qed simp

section \<open>Lowering or removing one order\<close>

definition set_left :: "OrderCommitment \<Rightarrow> u64 \<Rightarrow> RestingOrder list \<Rightarrow> RestingOrder list" where
  "set_left c left rs =
     (if left = 0 then filter (\<lambda>r. rc r \<noteq> c) rs
      else map (\<lambda>r. if rc r = c then r\<lparr>remaining := left\<rparr> else r) rs)"

lemma set_left_append [simp]: "set_left c left (xs @ ys) = set_left c left xs @ set_left c left ys"
  by (simp add: set_left_def)

lemma set_left_idem: "c \<notin> rc ` set rs \<Longrightarrow> set_left c left rs = rs"
  by (induction rs) (auto simp: set_left_def)

lemma set_left_position:
  assumes "distinct (map rc q)" "position (\<lambda>r. rc r = c) q = Some i"
  shows "set_left c left q =
    (if left = 0 then remove_at i q else q[i := (q ! i)\<lparr>remaining := left\<rparr>])"
proof -
  from position_SomeD [OF assms(2)] obtain ys x zs where
      q: "q = ys @ x # zs" "length ys = i" "rc x = c" "\<forall>y\<in>set ys. rc y \<noteq> c"
    by blast
  have "c \<notin> rc ` set ys" "c \<notin> rc ` set zs"
    using assms(1) q by auto
  then have "set_left c left ys = ys" "set_left c left zs = zs" by (simp_all add: set_left_idem)
  then show ?thesis using q by (auto simp: set_left_def)
qed

lemma btree_get_split:
  assumes "btree_ok (pre @ (p, q) # post)"
  shows "btree_get (pre @ (p, q) # post) p = Some q"
    and "btree_remove p (pre @ (p, q) # post) = pre @ post"
    and "btree_insert p q' (pre @ (p, q) # post) = pre @ (p, q') # post"
  using assms
proof (induction pre)
  case (Cons e pre)
  obtain k v where e: "e = (k, v)" by (cases e)
  {
    case 1
    then show ?case using Cons.IH by (auto simp: e btree_get_def btree_ok_Cons)
  next
    case 2
    then show ?case using Cons.IH by (auto simp: e btree_ok_Cons)
  next
    case 3
    then show ?case using Cons.IH by (auto simp: e btree_ok_Cons)
  }
qed (auto simp: btree_get_def btree_ok_Cons)

lemma update_prices_skip:
  assumes "\<And>p q. p \<in> set ps \<Longrightarrow> btree_get m p = Some q \<Longrightarrow> c \<notin> rc ` set q"
  shows "update_prices (ps @ qs) c left m = update_prices qs c left m"
  using assms
proof (induction ps)
  case (Cons p ps)
  then have "\<forall>q. btree_get m p = Some q \<longrightarrow> position (\<lambda>r. rc r = c) q = None"
    by (auto simp: position_None)
  with Cons show ?case by (auto split: option.splits)
qed simp

lemma update_prices_None:
  assumes "btree_ok m" "c \<notin> rc ` set (flat m)"
  shows "update_prices (map fst m) c left m = None"
proof -
  have "c \<notin> rc ` set q" if "btree_get m p = Some q" for p q
    using that assms bt.entries_get [OF assms(1), of p q] by (auto simp: set_flat)
  then show ?thesis using update_prices_skip [of "map fst m" m c "[]" left] by auto
qed

definition nonempty_level :: "u64 \<Rightarrow> RestingOrder list \<Rightarrow> book_side" where
  "nonempty_level p q = (if q = [] then [] else [(p, q)])"

lemma update_prices_split:
  assumes "btree_ok m" "distinct (map rc (flat m))" "c \<in> rc ` set (flat m)"
  obtains pre p q post where "m = pre @ (p, q) # post"
    and "c \<notin> rc ` set (flat pre)" "c \<notin> rc ` set (flat post)"
    and "update_prices (map fst m) c left m = Some (pre @ nonempty_level p (set_left c left q) @ post)"
proof -
  from assms(3) have "\<exists>e\<in>set m. c \<in> rc ` set (snd e)" by (force simp: set_flat)
  from split_list_first_prop [OF this] obtain pre e post where
      m: "m = pre @ e # post" and c: "c \<in> rc ` set (snd e)"
      and pre: "\<forall>e\<in>set pre. c \<notin> rc ` set (snd e)"
    by blast
  obtain p q where e: "e = (p, q)" by (cases e)
  have npre: "c \<notin> rc ` set (flat pre)" using pre by (force simp: set_flat)
  have npost: "c \<notin> rc ` set (flat post)" and dq: "distinct (map rc q)"
    using assms(2) c by (auto simp: m e)
  have ok: "btree_ok (pre @ (p, q) # post)" using assms(1) by (simp add: m e)
  have skip: "c \<notin> rc ` set w" if "k \<in> set (map fst pre)" "btree_get m k = Some w" for k w
  proof -
    from that(1) obtain v where "(k, v) \<in> set m" "(k, v) \<in> set pre" by (auto simp: m)
    with that(2) bt.entries_get [OF assms(1)] pre show ?thesis by fastforce
  qed
  from c obtain i where i: "position (\<lambda>r. rc r = c) q = Some i"
    by (cases "position (\<lambda>r. rc r = c) q") (auto simp: e position_None)
  have "update_prices (map fst m) c left m = update_prices (p # map fst post) c left m"
    using update_prices_skip [of "map fst pre" m c "p # map fst post" left] skip by (simp add: m e)
  also have "\<dots> = Some (pre @ nonempty_level p (set_left c left q) @ post)"
    using btree_get_split [OF ok] set_left_position [OF dq i, of left] i
    by (auto simp: m e nonempty_level_def Let_def)
  finally show thesis using that npre npost by (simp add: m e)
qed

lemma set_left_fields [simp]:
  "ro_sequence (if P then r\<lparr>remaining := left\<rparr> else r) = ro_sequence r"
  "secret (if P then r\<lparr>remaining := left\<rparr> else r) = secret r"
  "authority (if P then r\<lparr>remaining := left\<rparr> else r) = authority r"
  by simp_all

lemma queue_ok_set_left:
  assumes "queue_ok s p q" "set_left c left q \<noteq> []"
  shows "queue_ok s p (set_left c left q)"
proof -
  have "sorted_wrt (<) (map ro_sequence (set_left c left q))"
    using assms(1) by (auto simp: queue_ok_def set_left_def sorted_wrt_map sorted_wrt_filter)
  with assms show ?thesis
    by (auto simp: queue_ok_def set_left_def split: if_splits)
qed

lemma side_ok_replace:
  assumes "side_ok s (pre @ (p, q) # post)" "q' = [] \<or> queue_ok s p q'"
  shows "side_ok s (pre @ nonempty_level p q' @ post)"
  using assms by (auto simp: nonempty_level_def side_ok_append side_ok_Cons)

lemma update_side:
  assumes "side_ok s m" "distinct (map rc (flat m))" "c \<in> rc ` set (flat m)"
  obtains m' where "update_prices (map fst m) c left m = Some m'" "side_ok s m'"
    "flat m' = set_left c left (flat m)"
proof -
  from update_prices_split [OF side_ok_btree [OF assms(1)] assms(2,3)] obtain pre p q post where
      m: "m = pre @ (p, q) # post" and np: "c \<notin> rc ` set (flat pre)" "c \<notin> rc ` set (flat post)"
    and u: "update_prices (map fst m) c left m = Some (pre @ nonempty_level p (set_left c left q) @ post)"
    by blast
  have "side_ok s (pre @ nonempty_level p (set_left c left q) @ post)"
    using assms(1) unfolding m
    by (rule side_ok_replace)
       (use assms(1) queue_ok_set_left [of s p q c left] in \<open>auto simp: m side_ok_append side_ok_Cons\<close>)
  moreover have "flat (pre @ nonempty_level p (set_left c left q) @ post) = set_left c left (flat m)"
    using np by (simp add: m nonempty_level_def set_left_idem)
  ultimately show thesis using that u by blast
qed

section \<open>Updates of the book\<close>

text \<open>What the helpers need of the book and keep, and what they leave alone.\<close>

definition sides_ok :: "PrivateBook \<Rightarrow> bool" where
  "sides_ok b \<longleftrightarrow> side_ok Buy (bids b) \<and> side_ok Sell (asks b) \<and> distinct (map rc (orders b))"

definition header :: "PrivateBook \<Rightarrow> rust_str \<times> u64 \<times> OrderCommitment set" where
  "header b = (pb_market_id b, pb_sequence b, admitted b)"

lemma book_ok_sides: "book_ok E b \<Longrightarrow> sides_ok b"
  by (simp add: book_ok_def sides_ok_def)

lemma map_rc_set_left: "map rc (set_left c left rs) = filter (\<lambda>x. left = 0 \<longrightarrow> x \<noteq> c) (map rc rs)"
  by (induction rs) (auto simp: set_left_def)

lemma distinct_set_left: "distinct (map rc rs) \<Longrightarrow> distinct (map rc (set_left c left rs))"
  by (simp add: map_rc_set_left)

lemma update_remainder_ok:
  assumes "sides_ok b" "c \<in> rc ` set (orders b)"
  obtains b' where "update_remainder b c left = Inr b'" "sides_ok b'" "header b' = header b"
    "flat (bids b') = set_left c left (flat (bids b))" "flat (asks b') = set_left c left (flat (asks b))"
proof -
  have sb: "side_ok Buy (bids b)" "distinct (map rc (flat (bids b)))"
    and sa: "side_ok Sell (asks b)" "distinct (map rc (flat (asks b)))"
    and disj: "rc ` set (flat (bids b)) \<inter> rc ` set (flat (asks b)) = {}"
    and d: "distinct (map rc (set_left c left (orders b)))"
    using assms(1) distinct_set_left [of "orders b"] by (simp_all add: sides_ok_def orders_def)
  show thesis
  proof (cases "c \<in> rc ` set (flat (bids b))")
    case True
    with disj have "set_left c left (flat (asks b)) = flat (asks b)" by (intro set_left_idem) blast
    moreover obtain m where "update_prices (map fst (bids b)) c left (bids b) = Some m" "side_ok Buy m"
        "flat m = set_left c left (flat (bids b))"
      using update_side [OF sb True] .
    ultimately show thesis
      using that [of "b\<lparr>bids := m\<rparr>"] sa d by (simp add: update_remainder_def sides_ok_def header_def orders_def)
  next
    case False
    with assms(2) have ca: "c \<in> rc ` set (flat (asks b))" by (auto simp: orders_def)
    have "set_left c left (flat (bids b)) = flat (bids b)" using False by (rule set_left_idem)
    moreover have "update_prices (map fst (bids b)) c left (bids b) = None"
      by (rule update_prices_None [OF side_ok_btree [OF sb(1)] False])
    moreover obtain m where "update_prices (map fst (asks b)) c left (asks b) = Some m" "side_ok Sell m"
        "flat m = set_left c left (flat (asks b))"
      using update_side [OF sa ca] .
    ultimately show thesis
      using that [of "b\<lparr>asks := m\<rparr>"] sb d by (simp add: update_remainder_def sides_ok_def header_def orders_def)
  qed
qed

lemma update_remainder_missing:
  assumes "sides_ok b" "c \<notin> rc ` set (orders b)"
  shows "update_remainder b c left = Inl InvalidMpcResult"
proof -
  have "c \<notin> rc ` set (flat (bids b))" "c \<notin> rc ` set (flat (asks b))"
    using assms(2) by (auto simp: orders_def)
  moreover have "btree_ok (bids b)" "btree_ok (asks b)"
    using assms(1) side_ok_btree by (auto simp: sides_ok_def)
  ultimately show ?thesis by (simp add: update_remainder_def update_prices_None)
qed

lemma find_record_iff:
  assumes "distinct (map rc (orders b))"
  shows "find_record b c = Some r \<longleftrightarrow> r \<in> set (orders b) \<and> rc r = c"
proof
  assume "find_record b c = Some r"
  then show "r \<in> set (orders b) \<and> rc r = c"
    by (auto simp: find_record_def orders_def find_Some_iff simp del: set_append)
next
  assume r: "r \<in> set (orders b) \<and> rc r = c"
  then obtain x where x: "find_record b c = Some x"
    by (cases "find_record b c") (auto simp: find_record_def orders_def find_None_iff)
  then have "x \<in> set (orders b)" "rc x = c"
    by (auto simp: find_record_def orders_def find_Some_iff simp del: set_append)
  with r assms have "x = r" by (auto simp: distinct_map dest: inj_onD)
  with x show "find_record b c = Some r" by simp
qed

lemma find_record_None: "find_record b c = None \<longleftrightarrow> c \<notin> rc ` set (orders b)"
  by (auto simp: find_record_def orders_def find_None_iff)

section \<open>Adding an order\<close>

lemma btree_upsert_Cons:
  assumes "btree_ok ((a, v) # m)"
  shows "btree_upsert k d f ((a, v) # m) =
    (if k < a then (k, f d) # (a, v) # m else if k = a then (a, f v) # m
     else (a, v) # btree_upsert k d f m)"
proof -
  have "k < a \<Longrightarrow> map_of ((a, v) # m) k = None"
    using assms by (force simp: btree_ok_Cons map_of_eq_None_iff)
  then show ?thesis by (auto simp: btree_upsert_def btree_get_def)
qed

lemma upsert_queue:
  assumes "side_ok s m" "side (secret r) = s" "\<And>x. x \<in> set (flat m) \<Longrightarrow> ro_sequence x < ro_sequence r"
  defines "m' \<equiv> btree_upsert (limit_price (secret r)) [] (\<lambda>q. q @ [r]) m"
  shows "side_ok s m' \<and> mset (flat m') = add_mset r (mset (flat m))
    \<and> fst ` set m' = insert (limit_price (secret r)) (fst ` set m)"
  using assms(1,3) unfolding m'_def
proof (induction m)
  case Nil
  then show ?case using assms(2) by (simp add: btree_upsert_def btree_get_def side_ok_Cons queue_ok_def)
next
  case (Cons e m)
  obtain a q where e: "e = (a, q)" by (cases e)
  have ok: "btree_ok ((a, q) # m)" using Cons.prems(1) by (simp add: e side_ok_btree)
  have q: "queue_ok s a q" and m: "side_ok s m" and lt: "\<forall>k\<in>fst ` set m. a < k"
    using Cons.prems(1) by (simp_all add: e side_ok_Cons)
  have IH: "side_ok s (btree_upsert (limit_price (secret r)) [] (\<lambda>q. q @ [r]) m)
      \<and> mset (flat (btree_upsert (limit_price (secret r)) [] (\<lambda>q. q @ [r]) m)) = add_mset r (mset (flat m))
      \<and> fst ` set (btree_upsert (limit_price (secret r)) [] (\<lambda>q. q @ [r]) m)
          = insert (limit_price (secret r)) (fst ` set m)"
    using Cons.IH m Cons.prems(2) by (simp add: e)
  have app: "queue_ok s a (q @ [r])" if "limit_price (secret r) = a"
    using that q assms(2) Cons.prems(2) by (auto simp: e queue_ok_def sorted_wrt_append)
  have new: "queue_ok s (limit_price (secret r)) [r]" using assms(2) by (simp add: queue_ok_def)
  consider "limit_price (secret r) < a" | "limit_price (secret r) = a" | "a < limit_price (secret r)"
    by (metis linorder_neqE)
  then show ?case
  proof cases
    case 1
    then show ?thesis
      using new Cons.prems(1) lt by (auto simp: e btree_upsert_Cons [OF ok] side_ok_Cons)
  next
    case 2
    then show ?thesis using app m lt by (auto simp: e btree_upsert_Cons [OF ok] side_ok_Cons)
  next
    case 3
    then show ?thesis using IH q lt by (auto simp: e btree_upsert_Cons [OF ok] side_ok_Cons)
  qed
qed

lemma insert_record_ok:
  assumes "sides_ok b" "rc r \<notin> rc ` set (orders b)"
    and "\<And>x. x \<in> set (orders b) \<Longrightarrow> ro_sequence x < ro_sequence r"
  shows "sides_ok (insert_record r b)" "mset (orders (insert_record r b)) = add_mset r (mset (orders b))"
    "header (insert_record r b) = header b"
proof -
  show m: "mset (orders (insert_record r b)) = add_mset r (mset (orders b))"
    using assms upsert_queue [of "side (secret r)"]
    by (cases "side (secret r)") (auto simp: insert_record_def sides_ok_def orders_def Let_def)
  have "mset (map rc (orders (insert_record r b))) = mset (map rc (r # orders b))"
    by (simp add: m)
  then have "distinct (map rc (orders (insert_record r b)))"
    using assms(1,2) mset_eq_imp_distinct_iff by (fastforce simp: sides_ok_def)
  then show "sides_ok (insert_record r b)"
    using assms upsert_queue [of "side (secret r)"]
    by (cases "side (secret r)") (auto simp: insert_record_def sides_ok_def orders_def Let_def)
  show "header (insert_record r b) = header b"
    by (cases "side (secret r)") (simp_all add: insert_record_def header_def Let_def)
qed

end
