(* ===== verification/Book_Steps.thy ===== *)
theory Book_Steps
  imports Book_Structure
begin

text \<open>
  What the operations of the private book do: the effect of a batch on the resting orders as one
  function of the fills, the exact outcome of every operation on a well-formed book, and the
  invariant over all of them.
\<close>

section \<open>Settling fills against the resting orders\<close>

text \<open>Every order loses what was traded against it and leaves the book when nothing remains.\<close>

definition settle :: "(OrderCommitment \<Rightarrow> u64) \<Rightarrow> RestingOrder list \<Rightarrow> RestingOrder list" where
  "settle t rs =
     filter (\<lambda>r. remaining r \<noteq> 0) (map (\<lambda>r. r\<lparr>remaining := remaining r - t (rc r)\<rparr>) rs)"

definition traded :: "PublicFill list \<Rightarrow> OrderCommitment \<Rightarrow> u64" where
  "traded fs c = sum_list (map fill_quantity (filter (\<lambda>f. maker_order f = c) fs))"

lemma settle_simps [simp]:
  "settle t [] = []"
  "settle t (r # rs) =
     (if remaining r - t (rc r) = 0 then settle t rs
      else r\<lparr>remaining := remaining r - t (rc r)\<rparr> # settle t rs)"
  "settle t (rs @ ss) = settle t rs @ settle t ss"
  by (simp_all add: settle_def)

lemma set_settle:
  "set (settle t rs) = {r\<lparr>remaining := remaining r - t (rc r)\<rparr> | r. r \<in> set rs \<and> remaining r - t (rc r) \<noteq> 0}"
  by (auto simp: settle_def)

lemma map_rc_settle: "map rc (settle t rs) = map rc (filter (\<lambda>r. remaining r - t (rc r) \<noteq> 0) rs)"
  by (induction rs) auto

lemma settle_zero: "(\<And>r. r \<in> set rs \<Longrightarrow> remaining r \<noteq> 0) \<Longrightarrow> settle (\<lambda>_. 0) rs = rs"
  by (induction rs) auto

lemma set_left_settle:
  assumes "\<And>r. r \<in> set rs \<Longrightarrow> remaining r \<noteq> 0"
    and "\<And>r. r \<in> set rs \<Longrightarrow> rc r = c \<Longrightarrow> remaining r - q = left"
  shows "set_left c left rs = settle (\<lambda>x. if x = c then q else 0) rs"
  using assms
proof (induction rs)
  case (Cons r rs)
  have IH: "set_left c left rs = settle (\<lambda>x. if x = c then q else 0) rs"
    by (rule Cons.IH) (rule Cons.prems, simp_all)+
  show ?case
  proof (cases "rc r = c")
    case True
    have "remaining r - q = left" by (rule Cons.prems(2)) (simp_all add: True)
    then show ?thesis using IH True by (simp add: set_left_def split: if_splits)
  next
    case False
    have "remaining r \<noteq> 0" by (rule Cons.prems(1)) simp
    then show ?thesis using IH False by (simp add: set_left_def split: if_splits)
  qed
qed (simp add: set_left_def)

lemma settle_settle:
  assumes "\<And>c. u c = 0 \<or> t c = 0" "\<And>r. r \<in> set rs \<Longrightarrow> remaining r \<noteq> 0"
  shows "settle t (settle u rs) = settle (\<lambda>c. u c + t c) rs"
  using assms(2)
proof (induction rs)
  case (Cons r rs)
  then show ?case using assms(1) [of "rc r"] by (auto simp: diff_diff_eq)
qed simp

section \<open>The loop over the slots\<close>

definition fills_of ::
  "OrderCommitment \<Rightarrow> (PrivateRestingInput \<times> MpcSlotResult) list \<Rightarrow> PublicFill list" where
  "fills_of taker zs =
     map (\<lambda>(r, slot). \<lparr>maker_order = ri_commitment r, taker_order = taker,
            fill_price = trade_price slot, fill_quantity = trade_quantity slot\<rparr>)
       (filter (\<lambda>(r, slot). matched slot) zs)"

lemma fills_of_simps [simp]:
  "fills_of taker [] = []"
  "fills_of taker ((r, slot) # zs) =
     (if matched slot
      then \<lparr>maker_order = ri_commitment r, taker_order = taker, fill_price = trade_price slot,
            fill_quantity = trade_quantity slot\<rparr> # fills_of taker zs
      else fills_of taker zs)"
  by (simp_all add: fills_of_def)

lemma traded_simps [simp]:
  "traded [] c = 0"
  "traded (f # fs) c = (if maker_order f = c then fill_quantity f else 0) + traded fs c"
  by (simp_all add: traded_def)

lemma traded_other: "c \<notin> maker_order ` set fs \<Longrightarrow> traded fs c = 0"
  by (induction fs) auto

lemma makers_fills_of: "maker_order ` set (fills_of taker zs) \<subseteq> (ri_commitment \<circ> fst) ` set zs"
  by (force simp: fills_of_def)

text \<open>Every matched slot names a resting order with the quantity of the slot.\<close>

definition slots_ok :: "RestingOrder list \<Rightarrow> (PrivateRestingInput \<times> MpcSlotResult) list \<Rightarrow> bool" where
  "slots_ok rs zs \<longleftrightarrow>
     distinct (map (ri_commitment \<circ> fst) zs)
     \<and> (\<forall>(r, slot)\<in>set zs. matched slot \<longrightarrow> trade_quantity slot \<le> ri_quantity r
          \<and> (\<exists>x\<in>set rs. rc x = ri_commitment r \<and> remaining x = ri_quantity r))"

lemma in_set_leftI: "x \<in> set rs \<Longrightarrow> rc x \<noteq> c \<Longrightarrow> x \<in> set (set_left c left rs)"
  by (auto simp: set_left_def image_iff)

lemma slots_okD:
  "slots_ok rs zs \<Longrightarrow> (r, slot) \<in> set zs \<Longrightarrow> matched slot \<Longrightarrow>
     trade_quantity slot \<le> ri_quantity r \<and> (\<exists>x\<in>set rs. rc x = ri_commitment r \<and> remaining x = ri_quantity r)"
  by (auto simp: slots_ok_def)

lemma slots_ok_set_left:
  assumes "slots_ok rs ((r, slot) # zs)"
  shows "slots_ok (set_left (ri_commitment r) left rs) zs"
proof -
  have d: "distinct (map (ri_commitment \<circ> fst) zs)" "ri_commitment r \<notin> (ri_commitment \<circ> fst) ` set zs"
    using assms by (simp_all add: slots_ok_def)
  have "trade_quantity sl \<le> ri_quantity y
      \<and> (\<exists>x\<in>set (set_left (ri_commitment r) left rs). rc x = ri_commitment y \<and> remaining x = ri_quantity y)"
    if y: "(y, sl) \<in> set zs" "matched sl" for y sl
  proof -
    have "ri_commitment y \<noteq> ri_commitment r" using d(2) y(1) by force
    moreover have "trade_quantity sl \<le> ri_quantity y
        \<and> (\<exists>x\<in>set rs. rc x = ri_commitment y \<and> remaining x = ri_quantity y)"
      using slots_okD [OF assms _ y(2)] y(1) by simp
    ultimately show ?thesis using in_set_leftI [of _ rs "ri_commitment r"] by metis
  qed
  with d(1) show ?thesis unfolding slots_ok_def by blast
qed

lemma traded_Nil: "traded [] = (\<lambda>_. 0)"
  by (rule ext) simp

text \<open>One matched slot: the resting order is lowered to what the slot leaves.\<close>

lemma settle_slot:
  assumes sides: "sides_ok b" and nz: "\<And>r. r \<in> set (orders b) \<Longrightarrow> remaining r \<noteq> 0"
    and x: "x \<in> set (orders b)" "rc x = c" "remaining x - q = left"
    and T: "t c = 0" and rs: "set rs \<subseteq> set (orders b)"
  shows "settle t (set_left c left rs) = settle (\<lambda>y. (if c = y then q else 0) + t y) rs"
proof -
  have inj: "inj_on rc (set (orders b))" using sides by (simp add: sides_ok_def distinct_map)
  have "set_left c left rs = settle (\<lambda>y. if y = c then q else 0) rs"
  proof (rule set_left_settle)
    show "remaining r \<noteq> 0" if "r \<in> set rs" for r using that rs nz by blast
    show "remaining r - q = left" if "r \<in> set rs" "rc r = c" for r
      using that rs x inj_onD [OF inj, of r x] by auto
  qed
  also have "settle t \<dots> = settle (\<lambda>y. (if y = c then q else 0) + t y) rs"
    by (rule settle_settle) (use T rs nz in auto)
  finally show ?thesis by (simp only: eq_commute)
qed

lemma apply_slots_ok:
  assumes "sides_ok b" "\<And>r. r \<in> set (orders b) \<Longrightarrow> remaining r \<noteq> 0" "slots_ok (orders b) zs"
  shows "\<exists>b'. apply_slots taker fills zs b = (Inr (fills @ fills_of taker zs), b')
    \<and> sides_ok b' \<and> header b' = header b
    \<and> flat (bids b') = settle (traded (fills_of taker zs)) (flat (bids b))
    \<and> flat (asks b') = settle (traded (fills_of taker zs)) (flat (asks b))"
  using assms
proof (induction zs arbitrary: fills b)
  case Nil
  then show ?case by (simp add: traded_Nil settle_zero orders_def)
next
  case (Cons z zs)
  obtain r slot where z: "z = (r, slot)" by (cases z)
  show ?case
  proof (cases "matched slot")
    case False
    have "slots_ok (orders b) zs" using Cons.prems(3) by (simp add: slots_ok_def)
    from Cons.IH [OF Cons.prems(1,2) this, of fills] False show ?thesis by (simp add: z)
  next
    case True
    let ?c = "ri_commitment r" and ?q = "trade_quantity slot"
    let ?left = "ri_quantity r - ?q"
    let ?f = "\<lparr>maker_order = ?c, taker_order = taker, fill_price = trade_price slot, fill_quantity = ?q\<rparr>"
    from slots_okD [OF Cons.prems(3) [unfolded z] _ True] obtain x where le: "?q \<le> ri_quantity r"
      and x: "x \<in> set (orders b)" "rc x = ?c" "remaining x = ri_quantity r"
      by (meson list.set_intros(1))
    have "?c \<in> rc ` set (orders b)" using x by (metis imageI)
    with Cons.prems(1) obtain b1 where u: "update_remainder b ?c ?left = Inr b1" "sides_ok b1"
        "header b1 = header b" "flat (bids b1) = set_left ?c ?left (flat (bids b))"
        "flat (asks b1) = set_left ?c ?left (flat (asks b))"
      by (rule update_remainder_ok)
    have o1: "orders b1 = set_left ?c ?left (orders b)" by (simp add: orders_def u)
    have nz: "remaining y \<noteq> 0" if "y \<in> set (orders b1)" for y
      using that Cons.prems(2) by (auto simp: o1 set_left_def split: if_splits)
    have "slots_ok (orders b1) zs"
      unfolding o1 by (rule slots_ok_set_left [OF Cons.prems(3) [unfolded z]])
    from Cons.IH [OF u(2) nz this, of "fills @ [?f]"] obtain b' where
      b': "apply_slots taker (fills @ [?f]) zs b1 = (Inr ((fills @ [?f]) @ fills_of taker zs), b')"
        "sides_ok b'" "header b' = header b1"
        "flat (bids b') = settle (traded (fills_of taker zs)) (flat (bids b1))"
        "flat (asks b') = settle (traded (fills_of taker zs)) (flat (asks b1))"
      by blast
    have "?c \<notin> (ri_commitment \<circ> fst) ` set zs" using Cons.prems(3) by (simp add: slots_ok_def z)
    with makers_fills_of [of taker zs] have T: "traded (fills_of taker zs) ?c = 0"
      by (intro traded_other) blast
    have tr: "traded (?f # fills_of taker zs) = (\<lambda>y. (if ?c = y then ?q else 0) + traded (fills_of taker zs) y)"
      by (rule ext) simp
    have "settle (traded (fills_of taker zs)) (set_left ?c ?left rs) = settle (traded (?f # fills_of taker zs)) rs"
      if "set rs \<subseteq> set (orders b)" for rs
      unfolding tr
      by (rule settle_slot [where t = "traded (fills_of taker zs)", OF Cons.prems(1,2) x(1,2) _ T that])
         (simp_all add: x(3))
    then have "flat (bids b') = settle (traded (?f # fills_of taker zs)) (flat (bids b))"
        "flat (asks b') = settle (traded (?f # fills_of taker zs)) (flat (asks b))"
      by (simp_all only: b'(4,5) u(4,5) orders_def set_append Un_upper1 Un_upper2)
    moreover have "apply_slots taker fills (z # zs) b = (Inr (fills @ ?f # fills_of taker zs), b')"
      using True le u(1) b'(1) by (simp add: z checked_sub_def)
    moreover have "fills_of taker (z # zs) = ?f # fills_of taker zs" using True by (simp add: z)
    ultimately show ?thesis using b'(2,3) u(3) by (simp only: ) blast
  qed
qed

section \<open>Applying fills\<close>

text \<open>The book after its resting orders were lowered by a list of fills, each against a different
  resting order and within what remains of it.\<close>

definition fills_applied :: "PrivateBook \<Rightarrow> PublicFill list \<Rightarrow> PrivateBook \<Rightarrow> bool" where
  "fills_applied b fs b1 \<longleftrightarrow>
     sides_ok b1 \<and> header b1 = header b
     \<and> flat (bids b1) = settle (traded fs) (flat (bids b))
     \<and> flat (asks b1) = settle (traded fs) (flat (asks b))
     \<and> distinct (map maker_order fs) \<and> maker_order ` set fs \<subseteq> rc ` set (orders b)
     \<and> (\<forall>r\<in>set (orders b). traded fs (rc r) \<le> remaining r)"

lemma fills_applied_orders: "fills_applied b fs b1 \<Longrightarrow> orders b1 = settle (traded fs) (orders b)"
  by (simp add: fills_applied_def orders_def)

lemma traded_fills_of:
  assumes "distinct (map (ri_commitment \<circ> fst) zs)"
  shows "traded (fills_of taker zs) c = 0 \<or>
    (\<exists>y sl. (y, sl) \<in> set zs \<and> matched sl \<and> ri_commitment y = c
      \<and> traded (fills_of taker zs) c = trade_quantity sl)"
  using assms
proof (induction zs)
  case (Cons z zs)
  obtain r slot where z: "z = (r, slot)" by (cases z)
  have nin: "ri_commitment r \<notin> (ri_commitment \<circ> fst) ` set zs" using Cons.prems by (simp add: z)
  show ?case
  proof (cases "matched slot \<and> ri_commitment r = c")
    case True
    then have "traded (fills_of taker zs) c = 0"
      using nin makers_fills_of [of taker zs] by (intro traded_other) blast
    with True show ?thesis by (auto simp: z)
  next
    case False
    then have "traded (fills_of taker (z # zs)) c = traded (fills_of taker zs) c" by (auto simp: z)
    with Cons show ?thesis by (auto simp: z)
  qed
qed simp

lemma distinct_makers: "distinct (map (ri_commitment \<circ> fst) zs) \<Longrightarrow> distinct (map maker_order (fills_of taker zs))"
proof (induction zs)
  case (Cons z zs)
  then show ?case using makers_fills_of [of taker zs] by (cases z) auto
qed simp

lemma slots_fills_applied:
  assumes b: "sides_ok b" "\<And>r. r \<in> set (orders b) \<Longrightarrow> remaining r \<noteq> 0" and zs: "slots_ok (orders b) zs"
  shows "\<exists>b1. apply_slots taker [] zs b = (Inr (fills_of taker zs), b1) \<and> fills_applied b (fills_of taker zs) b1"
proof -
  have inj: "inj_on rc (set (orders b))" using b(1) by (simp add: sides_ok_def distinct_map)
  have d: "distinct (map (ri_commitment \<circ> fst) zs)" using zs by (simp add: slots_ok_def)
  have "traded (fills_of taker zs) (rc r) \<le> remaining r" if r: "r \<in> set (orders b)" for r
    using traded_fills_of [OF d, of taker "rc r"]
  proof
    assume "\<exists>y sl. (y, sl) \<in> set zs \<and> matched sl \<and> ri_commitment y = rc r
        \<and> traded (fills_of taker zs) (rc r) = trade_quantity sl"
    then obtain y sl where y: "(y, sl) \<in> set zs" "matched sl" "ri_commitment y = rc r"
      and t: "traded (fills_of taker zs) (rc r) = trade_quantity sl" by blast
    from slots_okD [OF zs y(1,2)] y(3) obtain x where "trade_quantity sl \<le> remaining x"
        "x \<in> set (orders b)" "rc x = rc r" by metis
    with t inj_onD [OF inj, of x r] r show ?thesis by simp
  qed simp
  moreover have "maker_order ` set (fills_of taker zs) \<subseteq> rc ` set (orders b)"
  proof
    fix c assume "c \<in> maker_order ` set (fills_of taker zs)"
    then obtain y sl where y: "(y, sl) \<in> set zs" "matched sl" "c = ri_commitment y"
      by (auto simp: fills_of_def)
    from slots_okD [OF zs y(1,2)] y(3) show "c \<in> rc ` set (orders b)" by (metis imageI)
  qed
  ultimately show ?thesis
    using apply_slots_ok [OF b zs, of taker "[]"] distinct_makers [OF d]
    unfolding fills_applied_def by (metis append_Nil)
qed

subsection \<open>Conservation\<close>

definition total_resting :: "PrivateBook \<Rightarrow> nat" where
  "total_resting b = (\<Sum>r\<leftarrow>orders b. unat (remaining r))"

definition total_filled :: "PublicFill list \<Rightarrow> nat" where
  "total_filled fs = (\<Sum>f\<leftarrow>fs. unat (fill_quantity f))"

lemma sum_list_single:
  "distinct (map rc rs) \<Longrightarrow> (\<Sum>r\<leftarrow>rs. if c = rc r then k else (0::nat)) = (if c \<in> rc ` set rs then k else 0)"
  by (induction rs) auto

lemma sum_traded:
  assumes "distinct (map rc rs)" "distinct (map maker_order fs)" "maker_order ` set fs \<subseteq> rc ` set rs"
  shows "(\<Sum>r\<leftarrow>rs. unat (traded fs (rc r))) = total_filled fs"
  using assms(2,3)
proof (induction fs)
  case (Cons f fs)
  have z: "traded fs (maker_order f) = 0" using Cons.prems(1) by (intro traded_other) simp
  have "unat (traded (f # fs) (rc r)) =
      (if maker_order f = rc r then unat (fill_quantity f) else 0) + unat (traded fs (rc r))" for r
    using z by (cases "maker_order f = rc r") simp_all
  then show ?case
    using Cons sum_list_single [OF assms(1), of "maker_order f" "unat (fill_quantity f)"]
    by (simp add: sum_list_addf total_filled_def)
qed (simp add: total_filled_def)

lemma sum_settle:
  assumes "\<And>r. r \<in> set rs \<Longrightarrow> t (rc r) \<le> remaining r"
  shows "(\<Sum>r\<leftarrow>settle t rs. unat (remaining r)) + (\<Sum>r\<leftarrow>rs. unat (t (rc r))) = (\<Sum>r\<leftarrow>rs. unat (remaining r))"
  using assms
proof (induction rs)
  case (Cons r rs)
  have le: "t (rc r) \<le> remaining r" by (rule Cons.prems) simp
  have IH: "(\<Sum>r\<leftarrow>settle t rs. unat (remaining r)) + (\<Sum>r\<leftarrow>rs. unat (t (rc r))) = (\<Sum>r\<leftarrow>rs. unat (remaining r))"
    by (rule Cons.IH) (rule Cons.prems, simp)
  show ?case
    using le IH unat_diff [OF le] by (auto simp: word_le_nat_alt)
qed simp

lemma total_fills_applied:
  assumes "sides_ok b" "fills_applied b fs b1"
  shows "total_resting b1 + total_filled fs = total_resting b"
proof -
  have "(\<Sum>r\<leftarrow>orders b. unat (traded fs (rc r))) = total_filled fs"
    using assms by (intro sum_traded) (simp_all add: sides_ok_def fills_applied_def)
  moreover have "(\<Sum>r\<leftarrow>settle (traded fs) (orders b). unat (remaining r))
      + (\<Sum>r\<leftarrow>orders b. unat (traded fs (rc r))) = (\<Sum>r\<leftarrow>orders b. unat (remaining r))"
    using assms(2) by (intro sum_settle) (simp add: fills_applied_def)
  ultimately show ?thesis
    using fills_applied_orders [OF assms(2)] by (simp add: total_resting_def)
qed

subsection \<open>The invariant after fills\<close>

lemma book_ok_alt:
  "book_ok E b \<longleftrightarrow> sides_ok b \<and> rc ` set (orders b) \<subseteq> admitted b
     \<and> (\<forall>r\<in>set (orders b). record_ok E (pb_market_id b) (pb_sequence b) r)"
  by (auto simp: book_ok_def sides_ok_def)

lemma book_ok_nonzero: "book_ok E b \<Longrightarrow> r \<in> set (orders b) \<Longrightarrow> remaining r \<noteq> 0"
  by (auto simp: book_ok_def record_ok_def)

lemma headerD:
  "header b1 = header b \<Longrightarrow>
     pb_market_id b1 = pb_market_id b \<and> pb_sequence b1 = pb_sequence b \<and> admitted b1 = admitted b"
  by (simp add: header_def)

lemma book_ok_fills_applied:
  assumes ok: "book_ok E b" and fa: "fills_applied b fs b1"
  shows "book_ok E b1"
proof -
  have h: "pb_market_id b1 = pb_market_id b" "pb_sequence b1 = pb_sequence b" "admitted b1 = admitted b"
    using headerD [of b1 b] fa by (simp_all add: fills_applied_def)
  have "rc r \<in> admitted b \<and> record_ok E (pb_market_id b) (pb_sequence b) r" if r: "r \<in> set (orders b1)" for r
  proof -
    from r obtain x where x: "x \<in> set (orders b)" and nz: "remaining x - traded fs (rc x) \<noteq> 0"
      and rx: "r = x\<lparr>remaining := remaining x - traded fs (rc x)\<rparr>"
      by (auto simp: fills_applied_orders [OF fa] set_settle)
    have "traded fs (rc x) \<le> remaining x" using fa x by (simp add: fills_applied_def)
    then have "remaining x - traded fs (rc x) \<le> remaining x"
      by (simp add: word_le_nat_alt unat_diff)
    moreover have "rc x \<in> admitted b" "record_ok E (pb_market_id b) (pb_sequence b) x"
      using ok x by (auto simp: book_ok_alt)
    ultimately show ?thesis
      using nz by (auto simp: rx record_ok_def word_gt_0)
  qed
  then show ?thesis
    using fa by (auto simp: book_ok_alt h fills_applied_def)
qed

lemma record_ok_mono: "record_ok E m s r \<Longrightarrow> s \<le> t \<Longrightarrow> record_ok E m t r"
  by (auto simp: record_ok_def)

lemma orders_admit [simp]: "orders (admit c seq b) = orders b" "bids (admit c seq b) = bids b"
  "asks (admit c seq b) = asks b" "pb_market_id (admit c seq b) = pb_market_id b"
  "pb_sequence (admit c seq b) = seq" "admitted (admit c seq b) = insert c (admitted b)"
  by (simp_all add: admit_def orders_def)

lemma sides_ok_admit [simp]: "sides_ok (admit c seq b) = sides_ok b"
  by (simp add: sides_ok_def)

lemma book_ok_admit:
  assumes "book_ok E b" "pb_sequence b \<le> seq"
  shows "book_ok E (admit c seq b)"
  using assms record_ok_mono [OF _ assms(2)] by (auto simp: book_ok_alt)

text \<open>A new order enters a well-formed book under a fresh commitment and the next sequence.\<close>

definition admissible :: "crypto \<Rightarrow> PrivateBook \<Rightarrow> SecretOrder \<Rightarrow> OrderAuthority \<Rightarrow> u64 \<Rightarrow> bool" where
  "admissible E b ord a seq \<longleftrightarrow>
     order_ok ord \<and> oa_commitment a = commitment E ord \<and> market_id ord = pb_market_id b
     \<and> oa_commitment a \<notin> admitted b \<and> pb_sequence b < seq"

lemma book_ok_insert:
  assumes ok: "book_ok E b" and ad: "admissible E b ord a seq"
    and gtc: "time_in_force ord = GoodTilCancelled" and left: "0 < left" "left \<le> quantity ord"
  defines "r \<equiv> \<lparr>secret = ord, authority = a, remaining = left, ro_sequence = seq\<rparr>"
  shows "book_ok E (admit (oa_commitment a) seq (insert_record r b))"
    "mset (orders (insert_record r b)) = add_mset r (mset (orders b))"
proof -
  have c: "rc r = oa_commitment a" and sq: "ro_sequence r = seq" by (simp_all add: r_def)
  have le: "pb_sequence b \<le> seq" and lt: "pb_sequence b < seq" using ad by (auto simp: admissible_def)
  have old: "rc x \<in> admitted b" "record_ok E (pb_market_id b) (pb_sequence b) x" if "x \<in> set (orders b)" for x
    using ok that by (auto simp: book_ok_alt)
  have "rc r \<notin> rc ` set (orders b)" using ad old(1) by (auto simp: c admissible_def)
  moreover have "ro_sequence x < ro_sequence r" if "x \<in> set (orders b)" for x
    using old(2) [OF that] lt by (auto simp: sq record_ok_def)
  ultimately have i: "sides_ok (insert_record r b)"
      "mset (orders (insert_record r b)) = add_mset r (mset (orders b))"
      "header (insert_record r b) = header b"
    using insert_record_ok [OF book_ok_sides [OF ok], of r] by blast+
  then show "mset (orders (insert_record r b)) = add_mset r (mset (orders b))" by blast
  have s: "set (orders (insert_record r b)) = insert r (set (orders b))"
    using arg_cong [OF i(2), of set_mset] by simp
  have "record_ok E (pb_market_id b) seq r"
    using ad gtc left by (simp add: admissible_def record_ok_def r_def)
  then show "book_ok E (admit (oa_commitment a) seq (insert_record r b))"
    using i(1) headerD [OF i(3)] old(1) record_ok_mono [OF old(2) le]
    by (simp add: book_ok_alt s c image_subset_iff)
qed

text \<open>The end of an accepted order: its remainder rests, the command is admitted.\<close>

definition rest_of :: "SecretOrder \<Rightarrow> OrderAuthority \<Rightarrow> u64 \<Rightarrow> u64 \<Rightarrow> RestingOrder list" where
  "rest_of ord a seq left =
     (if 0 < left \<and> time_in_force ord = GoodTilCancelled
      then [\<lparr>secret = ord, authority = a, remaining = left, ro_sequence = seq\<rparr>] else [])"

lemma book_ok_rest_arriving:
  assumes "book_ok E b" "admissible E b ord a seq" "left \<le> quantity ord"
  shows "book_ok E (admit (oa_commitment a) seq (rest_arriving ord a seq left b))"
    "mset (orders (rest_arriving ord a seq left b)) = mset (orders b) + mset (rest_of ord a seq left)"
proof -
  show "book_ok E (admit (oa_commitment a) seq (rest_arriving ord a seq left b))"
    using book_ok_insert(1) [OF assms(1,2) _ _ assms(3)] book_ok_admit [OF assms(1), of seq] assms(2)
    by (auto simp: rest_arriving_def admissible_def)
  show "mset (orders (rest_arriving ord a seq left b)) = mset (orders b) + mset (rest_of ord a seq left)"
    using book_ok_insert(2) [OF assms(1,2) _ _ assms(3)] by (simp add: rest_arriving_def rest_of_def)
qed

end
