(* ===== verification/Book_Operations.thy ===== *)
theory Book_Operations
  imports Book_Steps
begin

text \<open>
  The outcome of each public operation of the private book on a well-formed book: either the error
  with the book unchanged, or the exact effect on the resting orders. The one exception, the
  overflow error of the expiry command, is stated as such.
\<close>

section \<open>Batches\<close>

definition batch_of :: "PrivateBook \<Rightarrow> SecretOrder \<Rightarrow> u64 \<Rightarrow> PrivateMatchBatch" where
  "batch_of b ord now =
     \<lparr>resting = map resting_input (take MAX_MATCH_SLOTS (live_opposite b ord now)),
      arriving_side = side ord, arriving_price = limit_price ord, arriving_quantity = quantity ord,
      arriving_can_rest = (time_in_force ord = GoodTilCancelled)\<rparr>"

definition batch_fills :: "PrivateBook \<Rightarrow> SecretOrder \<Rightarrow> OrderAuthority \<Rightarrow> u64 \<Rightarrow> PublicFill list" where
  "batch_fills b ord a now =
     fills_of (oa_commitment a)
       (zip (resting (batch_of b ord now)) (slots (expected_batch (batch_of b ord now))))"

lemma private_match_batch_of:
  "private_match_batch b ord now = Inr batch \<longleftrightarrow> market_id ord = pb_market_id b \<and> batch = batch_of b ord now"
  by (auto simp: private_match_batch_def batch_of_def)

lemma set_ordered_opposite:
  "set (ordered_opposite b s) = (case s of Buy \<Rightarrow> set (flat (asks b)) | Sell \<Rightarrow> set (flat (bids b)))"
  by (cases s) (simp_all add: ordered_opposite_def set_flat)

lemma ordered_opposite_subset: "set (ordered_opposite b s) \<subseteq> set (orders b)"
  by (cases s) (simp_all add: set_ordered_opposite orders_def)

lemma distinct_flat_rev: "distinct (map rc (flat (rev m))) = distinct (map rc (flat m))"
proof (induction m)
  case (Cons e m)
  have "set (flat (rev m)) = set (flat m)" by (simp add: set_flat)
  with Cons show ?case by (cases e) auto
qed simp

lemma distinct_ordered_opposite:
  "sides_ok b \<Longrightarrow> distinct (map rc (ordered_opposite b s))"
  by (cases s) (simp_all add: sides_ok_def orders_def ordered_opposite_def distinct_flat_rev)

lemma live_opposite_subset: "set (live_opposite b ord now) \<subseteq> set (orders b)"
  using ordered_opposite_subset by (auto simp: live_opposite_def)

lemma distinct_live_opposite: "sides_ok b \<Longrightarrow> distinct (map rc (live_opposite b ord now))"
  using distinct_ordered_opposite [of b "side ord"] by (simp add: live_opposite_def distinct_map_filter)

lemma batch_slots_ok:
  assumes "sides_ok b"
  shows "slots_ok (orders b) (zip (resting (batch_of b ord now)) (slots (expected_batch (batch_of b ord now))))"
proof -
  let ?l = "take MAX_MATCH_SLOTS (live_opposite b ord now)"
  let ?batch = "batch_of b ord now"
  have r: "resting ?batch = map resting_input ?l" by (simp add: batch_of_def)
  have "distinct (map rc ?l)" using distinct_live_opposite [OF assms] by (simp flip: take_map)
  moreover have "map (ri_commitment \<circ> fst) (zip (resting ?batch) (slots (expected_batch ?batch)))
      = map ri_commitment (resting ?batch)"
    by (simp only: map_map [symmetric] map_fst_zip length_slots_expected_batch)
  moreover have "map ri_commitment (resting ?batch) = map rc ?l"
    by (simp add: r resting_input_def comp_def)
  ultimately have "distinct (map (ri_commitment \<circ> fst) (zip (resting ?batch) (slots (expected_batch ?batch))))"
    by simp
  moreover have "trade_quantity sl \<le> ri_quantity y \<and> (\<exists>x\<in>set (orders b). rc x = ri_commitment y \<and> remaining x = ri_quantity y)"
    if y: "(y, sl) \<in> set (zip (resting ?batch) (slots (expected_batch ?batch)))" for y sl
  proof -
    have "y \<in> set (resting ?batch)" using y by (rule set_zip_leftD)
    then obtain x where "x \<in> set ?l" "y = resting_input x" by (auto simp: r)
    moreover from this have "x \<in> set (orders b)" using live_opposite_subset by (meson in_set_takeD subsetD)
    ultimately show ?thesis using slot_le [OF y] by (auto simp: resting_input_def)
  qed
  ultimately show ?thesis by (auto simp: slots_ok_def)
qed

section \<open>Admission\<close>

lemma check_admission_ok:
  "check_admission b ord c seq = Inr () \<longleftrightarrow>
     market_id ord = pb_market_id b \<and> c \<notin> admitted b \<and> seq = pb_sequence b + 1"
  by (auto simp: check_admission_def)

text \<open>What every accepted order satisfied.\<close>

definition accepted :: "crypto \<Rightarrow> PrivateBook \<Rightarrow> SecretOrder \<Rightarrow> OrderAuthority \<Rightarrow> u64 \<Rightarrow> u64 \<Rightarrow> bool" where
  "accepted E b ord a seq now \<longleftrightarrow>
     OrderAuthority_verify E a ord now = Inr () \<and> check_admission b ord (oa_commitment a) seq = Inr ()"

lemma accepted_admissible:
  assumes "accepted E b ord a seq now" "order_ok ord" "pb_sequence b \<noteq> u64_max"
  shows "admissible E b ord a seq"
  using assms word_less_Suc_unat(2) [of "pb_sequence b"]
  by (auto simp: accepted_def admissible_def check_admission_ok OrderAuthority_verify_iff u64_max_def)

lemma sum_cases_unit:
  fixes r :: "'e + unit"
  obtains (Err) e where "r = Inl e" | (Ok) "r = Inr ()"
  by (cases r) auto

section \<open>The outcome of a batch result\<close>

text \<open>Either an error and the book as it was, or the fills of the reference transition applied to the
  resting orders, the remainder resting and the command admitted.\<close>

lemma apply_mpc_batch_result_cases:
  assumes "book_ok E b"
  obtains (Err) e where "apply_mpc_batch_result E b ord a seq now result = (Inl e, b)"
      "\<not> (accepted E b ord a seq now \<and> result = expected_batch (batch_of b ord now))"
  | (Ok) b1 tr where "accepted E b ord a seq now" "result = expected_batch (batch_of b ord now)"
      "fills_applied b (batch_fills b ord a now) b1" "bx_fills tr = batch_fills b ord a now"
      "bx_sequence tr = seq" "bx_arriving_remaining tr = arriving_remaining result"
      "apply_mpc_batch_result E b ord a seq now result =
         (Inr tr, admit (oa_commitment a) seq (rest_arriving ord a seq (arriving_remaining result) b1))"
proof (cases "accepted E b ord a seq now \<and> result = expected_batch (batch_of b ord now)")
  case True
  then have v: "OrderAuthority_verify E a ord now = Inr ()" "check_admission b ord (oa_commitment a) seq = Inr ()"
    and r: "result = expected_batch (batch_of b ord now)"
    by (simp_all add: accepted_def)
  have m: "private_match_batch b ord now = Inr (batch_of b ord now)"
    using v(2) by (simp add: private_match_batch_of check_admission_ok)
  from slots_fills_applied [OF book_ok_sides [OF assms] book_ok_nonzero [OF assms]
      batch_slots_ok [OF book_ok_sides [OF assms], of ord now], of "oa_commitment a"]
  obtain b1 where b1: "apply_slots (oa_commitment a) [] (zip (resting (batch_of b ord now)) (slots result)) b
      = (Inr (batch_fills b ord a now), b1)" "fills_applied b (batch_fills b ord a now) b1"
    unfolding batch_fills_def r by blast
  obtain tr where "apply_mpc_batch_result E b ord a seq now result =
      (Inr tr, admit (oa_commitment a) seq (rest_arriving ord a seq (arriving_remaining result) b1))"
      "bx_fills tr = batch_fills b ord a now" "bx_sequence tr = seq"
      "bx_arriving_remaining tr = arriving_remaining result"
    using b1(1) by (simp add: apply_mpc_batch_result_def v m r Let_def)
  with True b1(2) show thesis by (intro Ok) auto
next
  case False
  obtain e where "apply_mpc_batch_result E b ord a seq now result = (Inl e, b)"
  proof (cases rule: sum_cases_unit [of "OrderAuthority_verify E a ord now"])
    case (Err e)
    then show thesis by (intro that) (simp add: apply_mpc_batch_result_def)
  next
    case v: Ok
    show thesis
    proof (cases rule: sum_cases_unit [of "check_admission b ord (oa_commitment a) seq"])
      case (Err e)
      then show thesis by (intro that) (simp add: apply_mpc_batch_result_def v)
    next
      case c: Ok
      have m: "private_match_batch b ord now = Inr (batch_of b ord now)"
        using c by (simp add: private_match_batch_of check_admission_ok)
      have "result \<noteq> expected_batch (batch_of b ord now)" using False v c by (simp add: accepted_def)
      then show thesis by (intro that) (simp add: apply_mpc_batch_result_def v c m)
    qed
  qed
  with False show thesis by (intro Err)
qed

lemma insert_resting_cases:
  obtains (Err) e where "insert_resting E b ord a seq now = (Inl e, b)"
  | (Ok) "accepted E b ord a seq now" "time_in_force ord = GoodTilCancelled"
      "insert_resting E b ord a seq now = (Inr (), admit (oa_commitment a) seq
         (insert_record \<lparr>secret = ord, authority = a, remaining = quantity ord, ro_sequence = seq\<rparr> b))"
proof (cases "accepted E b ord a seq now \<and> time_in_force ord = GoodTilCancelled")
  case True
  then show thesis by (intro Ok) (auto simp: insert_resting_def accepted_def)
next
  case False
  show thesis
  proof (cases rule: sum_cases_unit [of "OrderAuthority_verify E a ord now"])
    case (Err e)
    then show thesis by (intro that(1)) (simp add: insert_resting_def)
  next
    case v: Ok
    show thesis
    proof (cases rule: sum_cases_unit [of "check_admission b ord (oa_commitment a) seq"])
      case (Err e)
      then show thesis by (intro that(1)) (simp add: insert_resting_def v)
    next
      case c: Ok
      with False v show thesis by (intro that(1)) (auto simp: insert_resting_def accepted_def)
    qed
  qed
qed

section \<open>The outcome of a single result\<close>

lemma pop_price_split:
  assumes "btree_ok (pre @ (p, q) # post)"
  shows "pop_price (Some p) (pre @ (p, q) # post) = pre @ nonempty_level p (tl q) @ post"
  using btree_get_split [OF assms] by (simp add: pop_price_def nonempty_level_def)

lemma queue_ok_tl: "queue_ok s p (r # rs) \<Longrightarrow> rs \<noteq> [] \<Longrightarrow> queue_ok s p rs"
  by (simp add: queue_ok_def)

lemma queue_ok_set_front: "queue_ok s p (r # rs) \<Longrightarrow> queue_ok s p (r\<lparr>remaining := left\<rparr> # rs)"
  by (simp add: queue_ok_def)

text \<open>Lowering or removing the front order of one level of a side.\<close>

lemma front_level:
  assumes ok: "side_ok s (pre @ (p, r # rs) # post)"
    and d: "distinct (map rc (flat (pre @ (p, r # rs) # post)))"
    and q_def: "q = (if left = 0 then rs else r\<lparr>remaining := left\<rparr> # rs)"
  shows "side_ok s (pre @ nonempty_level p q @ post)"
    "flat (pre @ nonempty_level p q @ post) = set_left (rc r) left (flat (pre @ (p, r # rs) # post))"
proof -
  have qok: "queue_ok s p (r # rs)" using ok by (simp add: side_ok_append side_ok_Cons)
  show "side_ok s (pre @ nonempty_level p q @ post)"
    by (rule side_ok_replace [OF ok])
       (use queue_ok_tl [OF qok] queue_ok_set_front [OF qok] in \<open>auto simp: q_def\<close>)
  have "set_left (rc r) left (flat pre) = flat pre" "set_left (rc r) left (flat post) = flat post"
      "set_left (rc r) left rs = rs"
    by (rule set_left_idem, use d in auto)+
  then show "flat (pre @ nonempty_level p q @ post) = set_left (rc r) left (flat (pre @ (p, r # rs) # post))"
    by (auto simp: q_def nonempty_level_def set_left_def)
qed

lemma best_opposite_split:
  assumes "best_opposite b ord = Some r"
  obtains pre p rs post where
    "case side ord of Buy \<Rightarrow> asks b = (p, r # rs) # post \<and> pre = []
       | Sell \<Rightarrow> bids b = pre @ [(p, r # rs)] \<and> post = []"
proof (cases "side ord")
  case Buy
  with assms obtain p rs m where "asks b = (p, r # rs) # m"
    by (auto simp: best_opposite_def split: list.splits)
  with Buy that [where pre = "[]"] show thesis by simp
next
  case Sell
  with assms obtain p rs m where "rev (bids b) = (p, r # rs) # m"
    by (auto simp: best_opposite_def split: list.splits)
  then have "bids b = rev m @ [(p, r # rs)]" by (simp add: rev_swap)
  with Sell that [where post = "[]"] show thesis by simp
qed

lemma lower_best_Buy:
  assumes "side ord = Buy" "asks b = (p, r # rs) # post" "btree_ok (asks b)"
  shows "(if left = 0 then remove_best b ord else set_best b ord left) =
    b\<lparr>asks := nonempty_level p (if left = 0 then rs else r\<lparr>remaining := left\<rparr> # rs) @ post\<rparr>"
  using pop_price_split [of "[]" p "r # rs" post] assms(3)
  by (simp add: remove_best_def set_best_def assms(1,2) set_front_def nonempty_level_def)

lemma lower_best_Sell:
  assumes "side ord = Sell" "bids b = pre @ [(p, r # rs)]" "btree_ok (bids b)"
  shows "(if left = 0 then remove_best b ord else set_best b ord left) =
    b\<lparr>bids := pre @ nonempty_level p (if left = 0 then rs else r\<lparr>remaining := left\<rparr> # rs)\<rparr>"
  using pop_price_split [of pre p "r # rs" "[]"] assms(3)
  by (simp add: remove_best_def set_best_def assms(1,2) set_front_def nonempty_level_def)

lemma lower_best:
  assumes b: "sides_ok b" and best: "best_opposite b ord = Some r"
    and b'_def: "b' = (if left = 0 then remove_best b ord else set_best b ord left)"
  shows "sides_ok b' \<and> header b' = header b \<and> flat (bids b') = set_left (rc r) left (flat (bids b))
      \<and> flat (asks b') = set_left (rc r) left (flat (asks b))"
proof -
  have sb: "side_ok Buy (bids b)" and sa: "side_ok Sell (asks b)"
    and db: "distinct (map rc (flat (bids b)))" and da: "distinct (map rc (flat (asks b)))"
    and disj: "rc ` set (flat (bids b)) \<inter> rc ` set (flat (asks b)) = {}"
    and d: "distinct (map rc (set_left (rc r) left (orders b)))"
    using b distinct_set_left [of "orders b"] by (simp_all add: sides_ok_def orders_def)
  obtain pre p rs post where
    spl: "case side ord of Buy \<Rightarrow> asks b = (p, r # rs) # post \<and> pre = []
       | Sell \<Rightarrow> bids b = pre @ [(p, r # rs)] \<and> post = []" by (rule best_opposite_split [OF best])
  let ?q = "if left = 0 then rs else r\<lparr>remaining := left\<rparr> # rs"
  show ?thesis
  proof (cases "side ord")
    case Buy
    with spl have m: "asks b = [] @ (p, r # rs) # post" by simp
    have b': "b' = b\<lparr>asks := nonempty_level p ?q @ post\<rparr>"
      unfolding b'_def by (rule lower_best_Buy [OF Buy _ side_ok_btree [OF sa]]) (simp add: m)
    have fl: "side_ok Sell (asks b')" "flat (asks b') = set_left (rc r) left (flat (asks b))"
      using front_level [OF sa [unfolded m] da [unfolded m] refl, of left] by (simp_all add: b' m)
    have "rc r \<in> rc ` set (flat (asks b))" by (simp add: m)
    with disj have "set_left (rc r) left (flat (bids b)) = flat (bids b)" by (intro set_left_idem) blast
    moreover have "bids b' = bids b" "header b' = header b" by (simp_all add: b' header_def)
    ultimately show ?thesis using fl sb d by (simp add: sides_ok_def orders_def)
  next
    case Sell
    with spl have m: "bids b = pre @ (p, r # rs) # []" by simp
    have b': "b' = b\<lparr>bids := pre @ nonempty_level p ?q\<rparr>"
      unfolding b'_def by (rule lower_best_Sell [OF Sell _ side_ok_btree [OF sb]]) (simp add: m)
    have fl: "side_ok Buy (bids b')" "flat (bids b') = set_left (rc r) left (flat (bids b))"
      using front_level [OF sb [unfolded m] db [unfolded m] refl, of left] by (simp_all add: b' m)
    have "rc r \<in> rc ` set (flat (bids b))" by (simp add: m)
    with disj have "set_left (rc r) left (flat (asks b)) = flat (asks b)" by (intro set_left_idem) blast
    moreover have "asks b' = asks b" "header b' = header b" by (simp_all add: b' header_def)
    ultimately show ?thesis using fl sa d by (simp add: sides_ok_def orders_def)
  qed
qed

lemma best_opposite_in: "best_opposite b ord = Some r \<Longrightarrow> r \<in> set (orders b)"
  by (rule best_opposite_split, assumption, cases "side ord") (auto simp: orders_def)

lemma single_fill_applied:
  assumes b: "sides_ok b" "\<And>r. r \<in> set (orders b) \<Longrightarrow> remaining r \<noteq> 0" and r: "r \<in> set (orders b)"
    and q: "fill_quantity f \<le> remaining r" "maker_order f = rc r" and b1: "sides_ok b1" "header b1 = header b"
    "flat (bids b1) = set_left (rc r) (remaining r - fill_quantity f) (flat (bids b))"
    "flat (asks b1) = set_left (rc r) (remaining r - fill_quantity f) (flat (asks b))"
  shows "fills_applied b [f] b1"
proof -
  have inj: "inj_on rc (set (orders b))" using b(1) by (simp add: sides_ok_def distinct_map)
  have t: "traded [f] = (\<lambda>y. if y = rc r then fill_quantity f else 0)" by (rule ext) (simp add: q(2))
  have "set_left (rc r) (remaining r - fill_quantity f) rs = settle (traded [f]) rs"
    if "set rs \<subseteq> set (orders b)" for rs
    unfolding t
  proof (rule set_left_settle)
    show "remaining x \<noteq> 0" if "x \<in> set rs" for x using that \<open>set rs \<subseteq> set (orders b)\<close> b(2) by blast
    show "remaining x - fill_quantity f = remaining r - fill_quantity f" if "x \<in> set rs" "rc x = rc r" for x
      using inj_onD [OF inj that(2)] that(1) \<open>set rs \<subseteq> set (orders b)\<close> r by auto
  qed
  moreover have "traded [f] (rc x) \<le> remaining x" if "x \<in> set (orders b)" for x
    using inj_onD [OF inj, of x r] that r q(1) by (auto simp: t)
  ultimately show ?thesis
    using b1 r by (simp add: fills_applied_def orders_def q(2))
qed

definition single_fills :: "PrivateBook \<Rightarrow> SecretOrder \<Rightarrow> OrderAuthority \<Rightarrow> PublicFill list" where
  "single_fills b ord a =
     (case best_opposite b ord of None \<Rightarrow> []
      | Some r \<Rightarrow>
          if crosses (side ord) (limit_price ord) (limit_price (secret r))
          then [\<lparr>maker_order = rc r, taker_order = oa_commitment a, fill_price = limit_price (secret r),
                 fill_quantity = min (quantity ord) (remaining r)\<rparr>]
          else [])"

lemma fills_applied_Nil:
  assumes "sides_ok b" "\<And>r. r \<in> set (orders b) \<Longrightarrow> remaining r \<noteq> 0"
  shows "fills_applied b [] b"
  using assms by (simp add: fills_applied_def traded_Nil settle_zero orders_def)

lemma mm_arriving_remaining_le: "mm_arriving_remaining (expected_result b ord) \<le> quantity ord"
  by (auto simp: expected_result_def Let_def word_le_nat_alt unat_diff split: option.splits)

lemma apply_mpc_result_cases:
  assumes "book_ok E b"
  obtains (Err) e where "apply_mpc_result E b ord a seq now result = (Inl e, b)"
      "\<not> (accepted E b ord a seq now \<and> result = expected_result b ord)"
  | (Ok) b1 tr where "accepted E b ord a seq now" "result = expected_result b ord"
      "fills_applied b (single_fills b ord a) b1" "bx_fills tr = single_fills b ord a" "bx_sequence tr = seq"
      "apply_mpc_result E b ord a seq now result =
         (Inr tr, admit (oa_commitment a) seq (rest_arriving ord a seq (mm_arriving_remaining result) b1))"
proof (cases "accepted E b ord a seq now \<and> result = expected_result b ord")
  case True
  then have v: "OrderAuthority_verify E a ord now = Inr ()" "check_admission b ord (oa_commitment a) seq = Inr ()"
    and r: "result = expected_result b ord" by (simp_all add: accepted_def)
  note sides = book_ok_sides [OF assms] and nz = book_ok_nonzero [OF assms]
  show thesis
  proof (cases "mm_matched result")
    case False
    then have "single_fills b ord a = []"
      by (auto simp: single_fills_def r expected_result_def Let_def split: option.splits)
    moreover from False obtain tr where "bx_fills tr = []" "bx_sequence tr = seq"
      "apply_mpc_result E b ord a seq now result =
         (Inr tr, admit (oa_commitment a) seq (rest_arriving ord a seq (mm_arriving_remaining result) b))"
      by (fastforce simp: apply_mpc_result_def v Let_def simp flip: r)
    ultimately show thesis using Ok [of b tr] True fills_applied_Nil [OF sides nz] by auto
  next
    case m: True
    then obtain x where x: "best_opposite b ord = Some x"
      by (cases "best_opposite b ord") (auto simp: r expected_result_def)
    let ?f = "\<lparr>maker_order = rc x, taker_order = oa_commitment a, fill_price = limit_price (secret x),
                 fill_quantity = min (quantity ord) (remaining x)\<rparr>"
    define b1 where "b1 = (if mm_resting_remaining result = 0 then remove_best b ord
        else set_best b ord (mm_resting_remaining result))"
    have cr: "crosses (side ord) (limit_price ord) (limit_price (secret x))"
      using m by (simp add: r expected_result_def x Let_def)
    then have sf: "single_fills b ord a = [?f]" by (simp add: single_fills_def x)
    have res: "mm_resting_remaining result = remaining x - fill_quantity ?f"
        "mm_trade_price result = limit_price (secret x)" "mm_trade_quantity result = fill_quantity ?f"
      using cr by (simp_all add: r expected_result_def x Let_def)
    have "fills_applied b [?f] b1"
      by (rule single_fill_applied [OF sides nz best_opposite_in [OF x]])
         (use lower_best [OF sides x b1_def] in \<open>simp_all add: res(1)\<close>)
    moreover from m obtain tr where "bx_fills tr = [?f]" "bx_sequence tr = seq"
      "apply_mpc_result E b ord a seq now result =
         (Inr tr, admit (oa_commitment a) seq (rest_arriving ord a seq (mm_arriving_remaining result) b1))"
      by (fastforce simp: apply_mpc_result_def v Let_def x b1_def res(2,3) simp flip: r)
    ultimately show thesis using Ok [of b1 tr] True sf by auto
  qed
next
  case False
  obtain e where "apply_mpc_result E b ord a seq now result = (Inl e, b)"
  proof (cases rule: sum_cases_unit [of "OrderAuthority_verify E a ord now"])
    case (Err e)
    then show thesis by (intro that) (simp add: apply_mpc_result_def)
  next
    case v: Ok
    show thesis
    proof (cases rule: sum_cases_unit [of "check_admission b ord (oa_commitment a) seq"])
      case (Err e)
      then show thesis by (intro that) (simp add: apply_mpc_result_def v)
    next
      case c: Ok
      then show thesis using False v by (intro that) (simp add: apply_mpc_result_def accepted_def)
    qed
  qed
  with False show thesis by (intro Err)
qed

section \<open>Removing orders\<close>

text \<open>The book without the orders of a set of commitments.\<close>

definition orders_removed :: "PrivateBook \<Rightarrow> OrderCommitment set \<Rightarrow> PrivateBook \<Rightarrow> bool" where
  "orders_removed b C b1 \<longleftrightarrow>
     sides_ok b1 \<and> header b1 = header b
     \<and> flat (bids b1) = filter (\<lambda>r. rc r \<notin> C) (flat (bids b))
     \<and> flat (asks b1) = filter (\<lambda>r. rc r \<notin> C) (flat (asks b))"

lemma orders_removed_orders: "orders_removed b C b1 \<Longrightarrow> orders b1 = filter (\<lambda>r. rc r \<notin> C) (orders b)"
  by (simp add: orders_removed_def orders_def)

lemma orders_removed_refl: "sides_ok b \<Longrightarrow> orders_removed b {} b"
  by (simp add: orders_removed_def)

lemma orders_removed_trans:
  "orders_removed b C b1 \<Longrightarrow> orders_removed b1 D b2 \<Longrightarrow> orders_removed b (C \<union> D) b2"
  by (simp add: orders_removed_def conj_commute)

lemma book_ok_removed:
  assumes ok: "book_ok E b" and rm: "orders_removed b C b1"
  shows "book_ok E b1"
proof -
  have h: "pb_market_id b1 = pb_market_id b" "pb_sequence b1 = pb_sequence b" "admitted b1 = admitted b"
    using headerD [of b1 b] rm by (simp_all add: orders_removed_def)
  have "set (orders b1) \<subseteq> set (orders b)" by (auto simp: orders_removed_orders [OF rm])
  then show ?thesis using ok rm by (auto simp: book_ok_alt h orders_removed_def)
qed

lemma remove_by_commitment_ok:
  assumes "sides_ok b" "c \<in> rc ` set (orders b)"
  obtains b1 where "remove_by_commitment b c = Inr b1" "orders_removed b {c} b1"
proof -
  obtain b1 where "update_remainder b c 0 = Inr b1" "sides_ok b1" "header b1 = header b"
    "flat (bids b1) = set_left c 0 (flat (bids b))" "flat (asks b1) = set_left c 0 (flat (asks b))"
    by (rule update_remainder_ok [OF assms])
  then show thesis
    using that [of b1] by (simp add: remove_by_commitment_def orders_removed_def set_left_def)
qed

section \<open>The outcome of a cancellation\<close>

lemma apply_cancellation_cases:
  assumes "book_ok E b"
  obtains (Err) e where "apply_cancellation E b k seq = (Inl e, b)"
      "\<not> (seq = pb_sequence b + 1 \<and> SecretCancellation_commitment E k \<notin> admitted b
        \<and> (\<exists>r\<in>set (orders b). rc r = sc_target k
              \<and> cancellation_secret_digest (secret r) = cancellation_digest E (sc_secret k)))"
  | (Ok) r b1 tr where "seq = pb_sequence b + 1" "SecretCancellation_commitment E k \<notin> admitted b"
      "r \<in> set (orders b)" "rc r = sc_target k"
      "cancellation_secret_digest (secret r) = cancellation_digest E (sc_secret k)"
      "orders_removed b {sc_target k} b1" "cx_released_quantity tr = remaining r" "cx_sequence tr = seq"
      "cx_cancellation_commitment tr = SecretCancellation_commitment E k"
      "apply_cancellation E b k seq = (Inr tr, admit (SecretCancellation_commitment E k) seq b1)"
proof (cases "seq = pb_sequence b + 1 \<and> SecretCancellation_commitment E k \<notin> admitted b
    \<and> (\<exists>r\<in>set (orders b). rc r = sc_target k
          \<and> cancellation_secret_digest (secret r) = cancellation_digest E (sc_secret k))")
  case True
  then obtain r where r: "r \<in> set (orders b)" "rc r = sc_target k"
      "cancellation_secret_digest (secret r) = cancellation_digest E (sc_secret k)" by blast
  have f: "find_record b (sc_target k) = Some r"
    using assms r by (subst find_record_iff) (simp_all add: book_ok_def)
  obtain b1 where b1: "remove_by_commitment b (sc_target k) = Inr b1" "orders_removed b {sc_target k} b1"
    by (rule remove_by_commitment_ok [OF book_ok_sides [OF assms], of "sc_target k"])
       (use r in \<open>auto intro: image_eqI [of _ rc r]\<close>)
  obtain tr where "apply_cancellation E b k seq = (Inr tr, admit (SecretCancellation_commitment E k) seq b1)"
      "cx_released_quantity tr = remaining r" "cx_sequence tr = seq"
      "cx_cancellation_commitment tr = SecretCancellation_commitment E k"
    using True by (fastforce simp: apply_cancellation_def Let_def f r(3) b1(1))
  with True r b1(2) show thesis by (intro Ok) auto
next
  case False
  have "\<exists>e. apply_cancellation E b k seq = (Inl e, b)"
  proof (cases "find_record b (sc_target k)")
    case None
    then show ?thesis by (auto simp: apply_cancellation_def Let_def)
  next
    case (Some r)
    then have "r \<in> set (orders b)" "rc r = sc_target k"
      using assms by (auto simp: find_record_iff book_ok_def)
    with False Some show ?thesis by (auto simp: apply_cancellation_def Let_def)
  qed
  with False show thesis by (auto intro: Err)
qed

section \<open>The outcome of an expiry\<close>

definition expired_total :: "PrivateBook \<Rightarrow> OrderCommitment set \<Rightarrow> nat" where
  "expired_total b C = (\<Sum>r\<leftarrow>filter (\<lambda>r. rc r \<in> C) (orders b). unat (remaining r))"

lemma sum_list_filter_split:
  "(\<Sum>r\<leftarrow>filter P xs. f r) = (\<Sum>r\<leftarrow>filter (\<lambda>r. P r \<and> Q r) xs. f r) + (\<Sum>r\<leftarrow>filter (\<lambda>r. P r \<and> \<not> Q r) xs. (f r::nat))"
  by (induction xs) auto

lemma filter_rc_single:
  "distinct (map rc xs) \<Longrightarrow> r \<in> set xs \<Longrightarrow> filter (\<lambda>x. rc x = rc r) xs = [r]"
proof (induction xs)
  case (Cons a xs)
  show ?case
  proof (cases "r = a")
    case True
    with Cons.prems(1) have "filter (\<lambda>x. rc x = rc r) xs = []"
      by (auto simp: filter_empty_conv image_iff)
    with True show ?thesis by simp
  next
    case False
    with Cons.prems have "rc a \<noteq> rc r" "r \<in> set xs" by auto
    with Cons show ?thesis by simp
  qed
qed simp

lemma expired_total_insert:
  assumes "sides_ok b" "r \<in> set (orders b)" "rc r \<notin> C" "orders_removed b {rc r} b1"
  shows "expired_total b (insert (rc r) C) = unat (remaining r) + expired_total b1 C"
proof -
  have "filter (\<lambda>x. rc x = rc r) (orders b) = [r]"
    using assms(1,2) by (intro filter_rc_single) (simp_all add: sides_ok_def)
  moreover have "filter (\<lambda>x. rc x \<in> insert (rc r) C \<and> rc x = rc r) (orders b) = filter (\<lambda>x. rc x = rc r) (orders b)"
    by (rule filter_cong) auto
  moreover have "filter (\<lambda>x. rc x \<in> insert (rc r) C \<and> rc x \<noteq> rc r) (orders b) = filter (\<lambda>x. rc x \<in> C) (orders b1)"
    using assms(3) by (auto simp: orders_removed_orders [OF assms(4)] intro: filter_cong)
  ultimately show ?thesis
    unfolding expired_total_def
    by (subst sum_list_filter_split [where Q = "\<lambda>x. rc x = rc r"]) simp
qed

text \<open>The loop either releases every order, or stops at the first addition that overflows with the
  orders before it already removed.\<close>

lemma release_expired_cases:
  assumes "sides_ok b" "distinct cs" "set cs \<subseteq> rc ` set (orders b)"
  shows "(unat released + expired_total b (set cs) < 2 ^ 64 \<longrightarrow>
      (\<exists>b1 total. release_expired released cs b = (Inr total, b1) \<and> orders_removed b (set cs) b1
         \<and> unat total = unat released + expired_total b (set cs)))
    \<and> (2 ^ 64 \<le> unat released + expired_total b (set cs) \<longrightarrow>
      (\<exists>b1 ds es. release_expired released cs b = (Inl (Invalid ''expired quantity overflowed''), b1)
         \<and> cs = ds @ es \<and> es \<noteq> [] \<and> orders_removed b (set ds) b1
         \<and> unat released + expired_total b (set ds) < 2 ^ 64
         \<and> 2 ^ 64 \<le> unat released + expired_total b (insert (hd es) (set ds))))"
  using assms
proof (induction cs arbitrary: released b)
  case Nil
  have "unat released < 2 ^ 64" by (rule order_less_le_trans [OF unsigned_less]) simp
  with Nil show ?case by (auto simp: expired_total_def intro: orders_removed_refl)
next
  case (Cons c cs)
  from Cons.prems(3) obtain r where r: "r \<in> set (orders b)" "rc r = c" by auto
  have f: "find_record b c = Some r"
    using Cons.prems(1) r by (subst find_record_iff) (simp_all add: sides_ok_def)
  obtain b1 where b1: "remove_by_commitment b c = Inr b1" "orders_removed b {c} b1"
    by (rule remove_by_commitment_ok [OF Cons.prems(1), of c]) (use r in auto)
  have cs: "c \<notin> set cs" "distinct cs" using Cons.prems(2) by auto
  have tot: "expired_total b (insert c C) = unat (remaining r) + expired_total b1 C" if "c \<notin> C" for C
    using expired_total_insert [OF Cons.prems(1) r(1), of C b1] that b1(2) r(2) by simp
  have sub: "set cs \<subseteq> rc ` set (orders b1)"
  proof
    fix x assume x: "x \<in> set cs"
    then obtain y where "y \<in> set (orders b)" "rc y = x" using Cons.prems(3) by auto
    moreover have "x \<noteq> c" using x cs(1) by auto
    ultimately show "x \<in> rc ` set (orders b1)" by (auto simp: orders_removed_orders [OF b1(2)])
  qed
  have un: "orders_removed b (insert c D) b2" if "orders_removed b1 D b2" for D b2
    using orders_removed_trans [OF b1(2) that] by simp
  show ?case
  proof (cases "unat released + unat (remaining r) < 2 ^ LENGTH(64)")
    case True
    then have ca: "checked_add released (remaining r) = Some (released + remaining r)"
        and u: "unat (released + remaining r) = unat released + unat (remaining r)"
      by (simp_all add: checked_add_def unat_add_bounded)
    have step: "release_expired released (c # cs) b = release_expired (released + remaining r) cs b1"
      by (simp add: f ca b1(1))
    have "sides_ok b1" using b1(2) by (simp add: orders_removed_def)
    note IH = Cons.IH [OF this cs(2) sub, of "released + remaining r"]
    show ?thesis
    proof (intro conjI impI)
      assume "unat released + expired_total b (set (c # cs)) < 2 ^ 64"
      then show "\<exists>b1 total. release_expired released (c # cs) b = (Inr total, b1)
          \<and> orders_removed b (set (c # cs)) b1 \<and> unat total = unat released + expired_total b (set (c # cs))"
        using IH un tot [OF cs(1)] unfolding step by (auto simp: u add.assoc)
    next
      assume "2 ^ 64 \<le> unat released + expired_total b (set (c # cs))"
      then obtain b2 ds es where "release_expired (released + remaining r) cs b1
            = (Inl (Invalid ''expired quantity overflowed''), b2)" "cs = ds @ es" "es \<noteq> []"
          "orders_removed b1 (set ds) b2" "unat (released + remaining r) + expired_total b1 (set ds) < 2 ^ 64"
          "2 ^ 64 \<le> unat (released + remaining r) + expired_total b1 (insert (hd es) (set ds))"
        using IH tot [OF cs(1)] by (auto simp: u add.assoc)
      moreover from this have "c \<notin> set ds" "c \<notin> insert (hd es) (set ds)"
        using cs(1) by (auto simp: neq_Nil_conv)
      ultimately show "\<exists>b1 ds es. release_expired released (c # cs) b = (Inl (Invalid ''expired quantity overflowed''), b1)
          \<and> c # cs = ds @ es \<and> es \<noteq> [] \<and> orders_removed b (set ds) b1
          \<and> unat released + expired_total b (set ds) < 2 ^ 64
          \<and> 2 ^ 64 \<le> unat released + expired_total b (insert (hd es) (set ds))"
        using un tot [of "set ds"] tot [of "insert (hd es) (set ds)"] unfolding step
        by (intro exI [of _ b2] exI [of _ "c # ds"] exI [of _ es]) (simp add: u add.assoc insert_commute)
    qed
  next
    case False
    then have "checked_add released (remaining r) = None" by (simp add: checked_add_def)
    then have "release_expired released (c # cs) b = (Inl (Invalid ''expired quantity overflowed''), b)"
      by (simp add: f)
    moreover have "orders_removed b (set []) b" using orders_removed_refl [OF Cons.prems(1)] by simp
    moreover have "unat released + expired_total b (set []) < 2 ^ 64"
      using unsigned_less [of released] by (simp add: expired_total_def)
    moreover have "\<not> unat released + expired_total b (set (c # cs)) < 2 ^ 64"
      using False tot [OF cs(1)] by simp
    moreover have "2 ^ 64 \<le> unat released + expired_total b (insert (hd (c # cs)) (set []))"
      using False tot [of "{}"] by simp
    ultimately show ?thesis by (metis append_Nil list.distinct(1))
  qed
qed

end
