(* ===== verification/Book_Machine.thy ===== *)
theory Book_Machine
  imports Book_Operations
begin

text \<open>
  The private book as a state machine: its five commands, the states they reach, and the invariant
  over all of them.
\<close>

section \<open>Commands\<close>

datatype BookCommand =
    InsertResting SecretOrder OrderAuthority u64
  | MatchOne SecretOrder OrderAuthority u64 MpcMatchResult
  | MatchBatch SecretOrder OrderAuthority u64 MpcBatchResult
  | Cancel SecretCancellation
  | Expire u64 OrderCommitment

definition discard :: "('e + 'a) \<times> 's \<Rightarrow> ('e + unit) \<times> 's" where
  "discard p = (case p of (Inl e, s) \<Rightarrow> (Inl e, s) | (Inr _, s) \<Rightarrow> (Inr (), s))"

definition run_command ::
  "crypto \<Rightarrow> PrivateBook \<Rightarrow> u64 \<Rightarrow> BookCommand \<Rightarrow> (OrderError + unit) \<times> PrivateBook" where
  "run_command E b seq cmd =
     (case cmd of
        InsertResting ord a now \<Rightarrow> insert_resting E b ord a seq now
      | MatchOne ord a now res \<Rightarrow> discard (apply_mpc_result E b ord a seq now res)
      | MatchBatch ord a now res \<Rightarrow> discard (apply_mpc_batch_result E b ord a seq now res)
      | Cancel k \<Rightarrow> discard (apply_cancellation E b k seq)
      | Expire cutoff c \<Rightarrow> discard (apply_expiry E b cutoff c seq))"

definition command_id :: "crypto \<Rightarrow> BookCommand \<Rightarrow> OrderCommitment" where
  "command_id E cmd =
     (case cmd of
        InsertResting ord a now \<Rightarrow> oa_commitment a
      | MatchOne ord a now res \<Rightarrow> oa_commitment a
      | MatchBatch ord a now res \<Rightarrow> oa_commitment a
      | Cancel k \<Rightarrow> SecretCancellation_commitment E k
      | Expire cutoff c \<Rightarrow> c)"

text \<open>The orders of a command went through the constructor of \<open>SecretOrder\<close>, whose fields are private.\<close>

definition command_ok :: "BookCommand \<Rightarrow> bool" where
  "command_ok cmd =
     (case cmd of
        InsertResting ord a now \<Rightarrow> order_ok ord
      | MatchOne ord a now res \<Rightarrow> order_ok ord
      | MatchBatch ord a now res \<Rightarrow> order_ok ord
      | Cancel k \<Rightarrow> True
      | Expire cutoff c \<Rightarrow> True)"

lemma discard_simps [simp]: "discard (Inl e, s) = (Inl e, s)" "discard (Inr x, s) = (Inr (), s)"
  by (simp_all add: discard_def)

section \<open>The outcome of an expiry\<close>

definition expired_set :: "PrivateBook \<Rightarrow> u64 \<Rightarrow> OrderCommitment set" where
  "expired_set b cutoff = rc ` {r \<in> set (orders b). expires_at (secret r) < cutoff}"

lemma set_expired_commitments: "set (expired_commitments b cutoff) = expired_set b cutoff"
  by (auto simp: expired_commitments_def expired_set_def orders_def)

lemma distinct_expired_commitments: "sides_ok b \<Longrightarrow> distinct (expired_commitments b cutoff)"
  by (auto simp: expired_commitments_def sides_ok_def orders_def distinct_map_filter)

definition expiry_ready :: "crypto \<Rightarrow> PrivateBook \<Rightarrow> u64 \<Rightarrow> OrderCommitment \<Rightarrow> u64 \<Rightarrow> bool" where
  "expiry_ready E b cutoff c seq \<longleftrightarrow>
     seq = pb_sequence b + 1 \<and> c \<notin> admitted b \<and> expired_commitments b cutoff \<noteq> []
     \<and> c = expiry_commitment E (pb_market_id b) cutoff (expired_commitments b cutoff)"

lemma apply_expiry_cases:
  assumes "book_ok E b"
  obtains (Err) e where "apply_expiry E b cutoff c seq = (Inl e, b)" "\<not> expiry_ready E b cutoff c seq"
      "e \<noteq> Invalid ''expired quantity overflowed''"
  | (Overflow) b1 ds es where "expiry_ready E b cutoff c seq"
      "2 ^ 64 \<le> expired_total b (expired_set b cutoff)" "expired_commitments b cutoff = ds @ es" "es \<noteq> []"
      "orders_removed b (set ds) b1" "ds \<noteq> []"
      "apply_expiry E b cutoff c seq = (Inl (Invalid ''expired quantity overflowed''), b1)"
  | (Ok) b1 tr where "expiry_ready E b cutoff c seq"
      "expired_total b (expired_set b cutoff) < 2 ^ 64" "orders_removed b (expired_set b cutoff) b1"
      "unat (ex_released_quantity tr) = expired_total b (expired_set b cutoff)"
      "ex_expired_orders tr = expired_commitments b cutoff" "ex_sequence tr = seq"
      "apply_expiry E b cutoff c seq = (Inr tr, admit c seq b1)"
proof (cases "expiry_ready E b cutoff c seq")
  case False
  show thesis
    by (rule Err [of "if seq \<noteq> pb_sequence b + 1 then Invalid ''certificate sequence is not next''
          else if c \<in> admitted b then Replay else Invalid ''expiry command is empty or non-canonical''"])
       (use False in \<open>auto simp: apply_expiry_def expiry_ready_def Let_def\<close>)
next
  case True
  let ?cs = "expired_commitments b cutoff"
  have sub: "set ?cs \<subseteq> rc ` set (orders b)" by (auto simp: set_expired_commitments expired_set_def)
  note rel = release_expired_cases [OF book_ok_sides [OF assms]
      distinct_expired_commitments [OF book_ok_sides [OF assms]] sub, of 0]
  show thesis
  proof (cases "expired_total b (expired_set b cutoff) < 2 ^ 64")
    case lt: True
    with rel obtain b1 total where r: "release_expired 0 ?cs b = (Inr total, b1)"
        "orders_removed b (expired_set b cutoff) b1" "unat total = expired_total b (expired_set b cutoff)"
      by (auto simp: set_expired_commitments)
    obtain tr where "apply_expiry E b cutoff c seq = (Inr tr, admit c seq b1)"
        "ex_released_quantity tr = total" "ex_expired_orders tr = ?cs" "ex_sequence tr = seq"
      using True r(1) by (fastforce simp: apply_expiry_def expiry_ready_def Let_def)
    with True lt r show thesis by (intro Ok) auto
  next
    case False
    with rel obtain b1 ds es where r: "release_expired 0 ?cs b = (Inl (Invalid ''expired quantity overflowed''), b1)"
        "?cs = ds @ es" "es \<noteq> []" "orders_removed b (set ds) b1"
        "2 ^ 64 \<le> expired_total b (insert (hd es) (set ds))"
      by (auto simp: set_expired_commitments not_less)
    moreover have "ds \<noteq> []"
    proof
      assume ds: "ds = []"
      have "hd es \<in> rc ` set (orders b)" using r(2,3) sub ds by (auto simp: neq_Nil_conv)
      then obtain x where "x \<in> set (orders b)" "rc x = hd es" by auto
      then have "filter (\<lambda>y. rc y = hd es) (orders b) = [x]"
        using filter_rc_single [of "orders b" x] assms by (simp add: book_ok_def)
      then have "expired_total b {hd es} = unat (remaining x)" by (simp add: expired_total_def)
      with r(5) ds unat_u64_less [of "remaining x"] show False by simp
    qed
    moreover have "apply_expiry E b cutoff c seq = (Inl (Invalid ''expired quantity overflowed''), b1)"
      using True r(1) by (auto simp: apply_expiry_def expiry_ready_def Let_def)
    ultimately show thesis using False by (intro Overflow [OF True _ r(2,3,4)]) auto
  qed
qed

section \<open>The invariant over all commands\<close>

lemma arriving_remaining_le_quantity:
  "arriving_remaining (expected_batch (batch_of b ord now)) \<le> quantity ord"
  using arriving_remaining_le [of "batch_of b ord now"] by (simp add: batch_of_def)

lemma fills_applied_admissible:
  "fills_applied b fs b1 \<Longrightarrow> admissible E b1 ord a seq = admissible E b ord a seq"
  using headerD [of b1 b] by (simp add: fills_applied_def admissible_def)

lemma book_ok_after_fills:
  assumes "book_ok E b" "fills_applied b fs b1" "admissible E b ord a seq" "left \<le> quantity ord"
  shows "book_ok E (admit (oa_commitment a) seq (rest_arriving ord a seq left b1))"
  using book_ok_rest_arriving(1) [OF book_ok_fills_applied [OF assms(1,2)] _ assms(4)]
    fills_applied_admissible [OF assms(2)] assms(3) by simp

lemma book_ok_after_removal:
  assumes "book_ok E b" "orders_removed b C b1" "pb_sequence b \<noteq> u64_max"
  shows "book_ok E (admit c (pb_sequence b + 1) b1)"
proof (rule book_ok_admit [OF book_ok_removed [OF assms(1,2)]])
  show "pb_sequence b1 \<le> pb_sequence b + 1"
    using assms(2,3) headerD [of b1 b] word_less_Suc_unat(2) [of "pb_sequence b"]
    by (simp add: orders_removed_def u64_max_def)
qed

lemma run_command_ok:
  assumes ok: "book_ok E b" and cmd: "command_ok cmd" and mx: "pb_sequence b \<noteq> u64_max"
  shows "book_ok E (snd (run_command E b seq cmd))"
proof (cases cmd)
  case (InsertResting ord a now)
  show ?thesis
  proof (cases rule: insert_resting_cases [of E b ord a seq now])
    case Ok
    have q: "quantity ord \<le> quantity ord" "0 < quantity ord" using cmd InsertResting
      by (auto simp: command_ok_def order_ok_def word_gt_0)
    from accepted_admissible [OF Ok(1) _ mx] cmd InsertResting
    have "admissible E b ord a seq" by (simp add: command_ok_def)
    from book_ok_insert(1) [OF ok this Ok(2) q(2,1)] Ok(3) InsertResting show ?thesis
      by (simp add: run_command_def)
  qed (use ok InsertResting in \<open>simp add: run_command_def\<close>)
next
  case (MatchOne ord a now res)
  from ok show ?thesis
  proof (cases rule: apply_mpc_result_cases [of E b ord a seq now res])
    case (Ok b1 tr)
    from accepted_admissible [OF Ok(1) _ mx] cmd MatchOne
    have "admissible E b ord a seq" by (simp add: command_ok_def)
    from book_ok_after_fills [OF ok Ok(3) this mm_arriving_remaining_le] Ok(2,6) MatchOne show ?thesis
      by (simp add: run_command_def)
  qed (use ok MatchOne in \<open>simp add: run_command_def\<close>)
next
  case (MatchBatch ord a now res)
  from ok show ?thesis
  proof (cases rule: apply_mpc_batch_result_cases [of E b ord a seq now res])
    case (Ok b1 tr)
    from accepted_admissible [OF Ok(1) _ mx] cmd MatchBatch
    have "admissible E b ord a seq" by (simp add: command_ok_def)
    from book_ok_after_fills [OF ok Ok(3) this arriving_remaining_le_quantity] Ok(2,7) MatchBatch show ?thesis
      by (simp add: run_command_def)
  qed (use ok MatchBatch in \<open>simp add: run_command_def\<close>)
next
  case (Cancel k)
  from ok show ?thesis
  proof (cases rule: apply_cancellation_cases [of E b k seq])
    case (Ok r b1 tr)
    from book_ok_after_removal [OF ok Ok(6) mx] Ok(1,10) Cancel show ?thesis
      by (simp add: run_command_def)
  qed (use ok Cancel in \<open>simp add: run_command_def\<close>)
next
  case (Expire cutoff c)
  from ok show ?thesis
  proof (cases rule: apply_expiry_cases [of E b cutoff c seq])
    case (Overflow b1 ds es)
    from book_ok_removed [OF ok Overflow(5)] Overflow(7) Expire show ?thesis by (simp add: run_command_def)
  next
    case (Ok b1 tr)
    from book_ok_after_removal [OF ok Ok(3) mx] Ok(1,7) Expire show ?thesis
      by (simp add: run_command_def expiry_ready_def)
  qed (use ok Expire in \<open>simp add: run_command_def\<close>)
qed

text \<open>The states of a book: any sequence of commands with any certificate sequence, accepted or not,
  as long as the sequence counter has not reached its maximum.\<close>

inductive book_reachable :: "crypto \<Rightarrow> PrivateBook \<Rightarrow> bool" for E where
  book_init: "PrivateBook_new market = Inr b \<Longrightarrow> book_reachable E b"
| book_step: "book_reachable E b \<Longrightarrow> command_ok cmd \<Longrightarrow> pb_sequence b \<noteq> u64_max \<Longrightarrow>
    book_reachable E (snd (run_command E b seq cmd))"

lemma PrivateBook_new_ok: "PrivateBook_new market = Inr b \<Longrightarrow> book_ok E b"
  by (auto simp: PrivateBook_new_def book_ok_def orders_def split: if_splits)

lemma reachable_book_ok: "book_reachable E b \<Longrightarrow> book_ok E b"
  by (induction rule: book_reachable.induct) (auto intro: PrivateBook_new_ok run_command_ok)

end
