(* ===== verification/Open_Orders.thy ===== *)
theory Open_Orders
  imports Settlement_Properties Local_Settlement Book_Machine
begin

text \<open>
  What the book and the reservation ledger each know of an open order: its quantity, by commitment. The book's
  map comes from the resting orders, the ledger's from the active records. Every operation of either component
  is described by its effect on that map, so that the service's steps can be compared on both sides.
\<close>

section \<open>The two maps\<close>

definition active_open :: "ReservationBook \<Rightarrow> Digest32 \<Rightarrow> u64 option" where
  "active_open b c = Option.bind (record_id_for b c) (\<lambda>i. Option.bind (btree_get (records b) i) (\<lambda>r.
     if rr_status r = Active then Some (rr_remaining_quantity r) else None))"

definition book_open :: "PrivateBook \<Rightarrow> Digest32 \<Rightarrow> u64 option" where
  "book_open b c = map_option remaining (find_record b (OrderCommitment c))"

text \<open>The map after trades: an order loses what was traded and is closed when nothing is left.\<close>

definition after_trades :: "(Digest32 \<Rightarrow> u64) \<Rightarrow> (Digest32 \<Rightarrow> u64 option) \<Rightarrow> Digest32 \<Rightarrow> u64 option" where
  "after_trades t m c = (case m c of None \<Rightarrow> None | Some x \<Rightarrow> if x = t c then None else Some (x - t c))"

definition spend :: "Digest32 \<Rightarrow> u64 \<Rightarrow> (Digest32 \<Rightarrow> u64 option) \<Rightarrow> Digest32 \<Rightarrow> u64 option" where
  "spend c q m = m(c := (case m c of None \<Rightarrow> None | Some x \<Rightarrow> if x = q then None else Some (x - q)))"

fun spend_all :: "PublicFill list \<Rightarrow> (Digest32 \<Rightarrow> u64 option) \<Rightarrow> Digest32 \<Rightarrow> u64 option" where
  "spend_all [] m = m"
| "spend_all (f # fs) m = spend_all fs (spend (commitment_bytes (taker_order f)) (fill_quantity f)
     (spend (commitment_bytes (maker_order f)) (fill_quantity f) m))"

definition traded_bytes :: "PublicFill list \<Rightarrow> Digest32 \<Rightarrow> u64" where
  "traded_bytes fs c = traded fs (OrderCommitment c)"

lemma spend_other: "x \<noteq> c \<Longrightarrow> spend c q m x = m x"
  by (simp add: spend_def)

lemma bytes_eq_iff: "commitment_bytes a = c \<longleftrightarrow> a = OrderCommitment c"
  by (cases a) simp

lemma spend_all_trades:
  assumes "\<forall>f\<in>set fs. commitment_bytes (taker_order f) = c" "distinct (map maker_order fs)" "x \<noteq> c"
    "m x \<noteq> Some 0"
  shows "spend_all fs m x = after_trades (traded_bytes fs) m x"
  using assms
proof (induction fs arbitrary: m)
  case Nil
  then show ?case by (simp add: after_trades_def traded_bytes_def split: option.split)
next
  case (Cons f fs)
  let ?m = "spend c (fill_quantity f) (spend (commitment_bytes (maker_order f)) (fill_quantity f) m)"
  have mx: "?m x = spend (commitment_bytes (maker_order f)) (fill_quantity f) m x"
    using Cons.prems(3) by (simp add: spend_other)
  have nz: "?m x \<noteq> Some 0"
    unfolding mx using Cons.prems(4) by (auto simp: spend_def split: option.splits)
  have step: "spend_all (f # fs) m x = after_trades (traded_bytes fs) ?m x"
    using Cons.IH [of ?m, OF _ _ Cons.prems(3) nz] Cons.prems(1,2) by simp
  show ?case
  proof (cases "maker_order f = OrderCommitment x")
    case True
    then have "traded fs (OrderCommitment x) = 0"
      using Cons.prems(2) by (intro traded_other) auto
    with True Cons.prems(3,4) show ?thesis
      unfolding step by (simp add: after_trades_def traded_bytes_def mx spend_def split: option.split)
  next
    case False
    then have "commitment_bytes (maker_order f) \<noteq> x" by (simp add: bytes_eq_iff)
    with False show ?thesis
      unfolding step by (simp add: after_trades_def traded_bytes_def mx spend_other split: option.split)
  qed
qed

section \<open>The ledger\<close>

lemma active_open_record:
  assumes "ledger_ok b" "btree_get (records b) i = Some r" "rr_order_commitment r = c"
  shows "active_open b c = (if rr_status r = Active then Some (rr_remaining_quantity r) else None)"
proof -
  have "record_id_for b c = Some i"
    using record_id_for_iff [OF assms(1)] assms(2,3) by blast
  then show ?thesis by (simp add: active_open_def assms(2))
qed

lemma active_open_absent:
  assumes "ledger_ok b" "\<And>i r. btree_get (records b) i = Some r \<Longrightarrow> rr_order_commitment r \<noteq> c"
  shows "active_open b c = None"
proof -
  have "record_id_for b c = None"
    using record_id_for_Some [OF assms(1), of c] assms(2) by (cases "record_id_for b c") auto
  then show ?thesis by (simp add: active_open_def)
qed

lemma active_open_cases:
  assumes "ledger_ok b"
  obtains i r where "btree_get (records b) i = Some r" "rr_order_commitment r = c"
    | "\<And>i r. btree_get (records b) i = Some r \<Longrightarrow> rr_order_commitment r \<noteq> c"
  by blast

lemma active_open_set_record:
  assumes ok: "ledger_ok b" "ledger_ok (set_record b i s)"
    and new: "btree_get (records b) i = None \<or> (\<exists>r. btree_get (records b) i = Some r \<and> rr_order_commitment r = rr_order_commitment s)"
  shows "active_open (set_record b i s) = (active_open b)(rr_order_commitment s :=
    (if rr_status s = Active then Some (rr_remaining_quantity s) else None))"
proof
  fix c
  show "active_open (set_record b i s) c = ((active_open b)(rr_order_commitment s :=
      (if rr_status s = Active then Some (rr_remaining_quantity s) else None))) c"
  proof (cases "c = rr_order_commitment s")
    case True
    have "btree_get (records (set_record b i s)) i = Some s" by (simp add: btree_get_insert)
    from active_open_record [OF ok(2) this] True show ?thesis by simp
  next
    case False
    show ?thesis
    proof (cases rule: active_open_cases [OF ok(1), of c])
      case (1 j r)
      with False new have "j \<noteq> i" by auto
      then have "btree_get (records (set_record b i s)) j = Some r" using 1(1) by (simp add: btree_get_insert)
      from active_open_record [OF ok(2) this 1(2)] active_open_record [OF ok(1) 1] False
      show ?thesis by simp
    next
      case 2
      then have "active_open (set_record b i s) c = None"
        using False by (intro active_open_absent [OF ok(2)]) (auto simp: btree_get_insert split: if_splits)
      moreover have "active_open b c = None" by (rule active_open_absent [OF ok(1) 2])
      ultimately show ?thesis using False by simp
    qed
  qed
qed

lemma active_open_records: "records b' = records b \<Longrightarrow> active_open b' = active_open b"
  by (simp add: active_open_def record_id_for_def fun_eq_iff)

section \<open>Ledger operations\<close>

lemma reserve_open:
  assumes "ledger_ok b" "view_ok v" "ReservationBook_reserve E b v pt = (Inr receipt, b')"
  shows "ledger_ok b' \<and> active_open b' = (active_open b)(commitment_bytes (settlement_commitment v) \<mapsto> settlement_quantity v)
    \<and> btree_get (records b') (settlement_reservation_id v) = Some (new_record v pt)"
proof -
  obtain cap where n: "btree_get (records b) (settlement_reservation_id v) = None"
    and b': "b' = set_record b (settlement_reservation_id v) (new_record v pt)" and ok: "ledger_ok b'"
    by (rule reserve_ok [OF assms])
  show ?thesis
    using active_open_set_record [OF assms(1) ok [unfolded b']] n ok
    by (simp add: b' new_record_def btree_get_insert)
qed

lemma release_open:
  assumes "ledger_ok b" "ReservationBook_release_order b c = (Inr u, b')"
  shows "ledger_ok b' \<and> active_open b' = (active_open b)(c := None)"
proof -
  from assms(2) obtain i r where i: "record_id_for b c = Some i" and r: "btree_get (records b) i = Some r"
    and b': "b' = set_record b i (r\<lparr>rr_remaining := 0, rr_remaining_quantity := 0, rr_status := Released\<rparr>)"
    by (auto simp: ReservationBook_release_order_def guarded_ok ok_or_eq_Inr fail_if_eq_Inr)
  have c: "rr_order_commitment r = c"
    using record_id_for_Some [OF assms(1) i] r by simp
  have ok: "ledger_ok b'" by (rule release_order_ok(1) [OF assms])
  show ?thesis
    using active_open_set_record [OF assms(1) ok [unfolded b']] r c ok by (simp add: b')
qed

lemma release_each_open:
  "ledger_ok b \<Longrightarrow> release_each b cs = Inr b' \<Longrightarrow>
     ledger_ok b' \<and> active_open b' = (\<lambda>c. if c \<in> set cs then None else active_open b c)"
proof (induction cs arbitrary: b)
  case (Cons c cs)
  then obtain u b1 where 1: "ReservationBook_release_order b c = (Inr u, b1)" and 2: "release_each b1 cs = Inr b'"
    by (auto split: prod.splits sum.splits)
  from release_open [OF Cons.prems(1) 1] Cons.IH [OF _ 2] show ?case by auto
qed simp

lemma refresh_all_open:
  "ledger_ok b \<Longrightarrow> refresh_all b ps = Inr b' \<Longrightarrow> ledger_ok b' \<and> active_open b' = active_open b"
proof (induction b ps rule: refresh_all.induct)
  case (2 b participant p ps)
  then obtain u b1 where 1: "refresh_capacity b participant (cb_value (pb_cash p)) (cb_value (pb_securities p)) = (Inr u, b1)"
    and b': "refresh_all b1 ps = Inr b'"
    by (auto split: prod.splits sum.splits)
  obtain e where e: "b1 = b\<lparr>capacities := btree_insert (e, 2) (cb_value (pb_securities p))
      (btree_insert (e, 1) (cb_value (pb_cash p)) (capacities b))\<rparr>" and ok: "ledger_ok b1"
    by (rule refresh_capacity_ok [OF "2.prems"(1) 1])
  have "records b1 = records b" by (simp add: e)
  then have "active_open b1 = active_open b" by (rule active_open_records)
  with "2.IH" [OF 1 [symmetric] refl ok b'] show ?case by simp
qed simp

lemma bind_open:
  assumes "ledger_ok b" "bind_participant b p e cash securities = (Inr u, b')"
  shows "ledger_ok b' \<and> active_open b' = active_open b"
  using bind_participant_ok(1,2) [OF assms] active_open_records by blast

text \<open>The record of an order keeps the order's terms.\<close>

definition has_terms :: "ReservationBook \<Rightarrow> SettlementOrderView \<Rightarrow> bool" where
  "has_terms b v \<longleftrightarrow> (\<exists>r. btree_get (records b) (settlement_reservation_id v) = Some r
     \<and> rr_order_commitment r = commitment_bytes (settlement_commitment v)
     \<and> rr_kind r = side_kind (settlement_side v) \<and> rr_limit_price r = settlement_limit_price v
     \<and> rr_max_fee r = settlement_max_fee v)"

lemma has_terms_new: "btree_get (records b) (settlement_reservation_id v) = Some (new_record v pt) \<Longrightarrow> has_terms b v"
  by (simp add: has_terms_def new_record_def)

lemma has_terms_set_record:
  assumes "has_terms b v" "btree_get (records b) i = Some r" "same_terms r s"
  shows "has_terms (set_record b i s) v"
proof -
  from assms(1) obtain x where x: "btree_get (records b) (settlement_reservation_id v) = Some x"
    "rr_order_commitment x = commitment_bytes (settlement_commitment v)" "rr_kind x = side_kind (settlement_side v)"
    "rr_limit_price x = settlement_limit_price v" "rr_max_fee x = settlement_max_fee v"
    unfolding has_terms_def by blast
  show ?thesis
  proof (cases "i = settlement_reservation_id v")
    case True
    with x(1) assms(2) have "r = x" by simp
    with True x assms(3) show ?thesis by (simp add: has_terms_def same_terms_def btree_get_insert)
  next
    case False
    with x show ?thesis by (simp add: has_terms_def btree_get_insert)
  qed
qed

lemma consume_record_fields:
  assumes "consume_record r spent filled = Inr s"
  shows "rr_order_commitment s = rr_order_commitment r" "rr_remaining_quantity s = rr_remaining_quantity r - filled"
    "rr_status s = (if rr_remaining_quantity r = filled then Consumed else Active)"
  using assms by (auto simp: consume_record_def result_ok split: if_splits)

lemma consume_fill_open:
  assumes ok: "ledger_ok b" and c: "consume_fill b f market now = (Inr cf, b')"
  shows "ledger_ok b'"
    and "active_open b' = spend (commitment_bytes (taker_order f)) (fill_quantity f)
       (spend (commitment_bytes (maker_order f)) (fill_quantity f) (active_open b))"
    and "has_terms b v \<Longrightarrow> has_terms b' v"
proof -
  show ok': "ledger_ok b'" by (rule consume_fill_ok(1) [OF ok c])
  obtain mi m m' ti t t' where
    m: "btree_get (records b) mi = Some m" and t: "btree_get (records b) ti = Some t" and ne: "mi \<noteq> ti"
    and g: "fill_guard f market now (fill_price f * fill_quantity f) m t = Inr ()"
    and "unat (fill_price f) * unat (fill_quantity f) < 2 ^ 64"
    and mc: "rr_order_commitment m = commitment_bytes (maker_order f)"
    and tc: "rr_order_commitment t = commitment_bytes (taker_order f)"
    and cm: "consume_record m (fill_required (fill_price f * fill_quantity f) (fill_quantity f) m) (fill_quantity f) = Inr m'"
    and ct: "consume_record t (fill_required (fill_price f * fill_quantity f) (fill_quantity f) t) (fill_quantity f) = Inr t'"
    and b': "b' = set_record (set_record b mi m') ti t'"
    and "maker_reservation_id cf = mi" "taker_reservation_id cf = ti" "maker_kind cf = rr_kind m"
      "seller_handle cf = (if rr_kind m = Securities then rr_participant_handle m else rr_participant_handle t)"
      "buyer_handle cf = (if rr_kind m = Securities then rr_participant_handle t else rr_participant_handle m)"
    by (rule consume_fill_cases [OF ok c])
  have a: "rr_status m = Active" "rr_status t = Active"
    using g by (auto simp: fill_guard_def andThen_eq_Inr fail_if_eq_Inr)
  have om: "active_open b (commitment_bytes (maker_order f)) = Some (rr_remaining_quantity m)"
    and ot: "active_open b (commitment_bytes (taker_order f)) = Some (rr_remaining_quantity t)"
    using active_open_record [OF ok m mc] active_open_record [OF ok t tc] a by simp_all
  have cn: "commitment_bytes (maker_order f) \<noteq> commitment_bytes (taker_order f)"
    using ledger_okD(6) [OF ok m t] mc tc ne by metis
  have rm: "Reservation_Ledger.record_ok m" and rt: "Reservation_Ledger.record_ok t" using ledger_okD(5) [OF ok m] ledger_okD(5) [OF ok t] by blast+
  note km = consume_record_ok [OF cm rm] and kt = consume_record_ok [OF ct rt]
  note fm = consume_record_fields [OF cm] and ft = consume_record_fields [OF ct]
  have ok1: "ledger_ok (set_record b mi m')"
    using ledger_ok_set_record [OF ok m] km by blast
  have t1: "btree_get (records (set_record b mi m')) ti = Some t" using t ne by (simp add: btree_get_insert)
  have n0: "\<exists>r. btree_get (records b) mi = Some r \<and> rr_order_commitment r = rr_order_commitment m'"
    using m fm(1) [symmetric] by (intro exI conjI)
  have n1: "\<exists>r. btree_get (records (set_record b mi m')) ti = Some r \<and> rr_order_commitment r = rr_order_commitment t'"
    using t1 ft(1) [symmetric] by (intro exI conjI)
  have o1: "active_open (set_record b mi m') = spend (commitment_bytes (maker_order f)) (fill_quantity f) (active_open b)"
    unfolding active_open_set_record [OF ok ok1 disjI2 [OF n0]] fm mc spend_def om by simp
  have "active_open b' = (active_open (set_record b mi m'))(commitment_bytes (taker_order f) :=
      (if rr_status t' = Active then Some (rr_remaining_quantity t') else None))"
    unfolding b' active_open_set_record [OF ok1 ok' [unfolded b'] disjI2 [OF n1]] ft(1) tc ..
  then show "active_open b' = spend (commitment_bytes (taker_order f)) (fill_quantity f)
       (spend (commitment_bytes (maker_order f)) (fill_quantity f) (active_open b))"
    unfolding o1 ft using cn by (simp add: spend_def [of "commitment_bytes (taker_order f)"] spend_other ot)
  show "has_terms b' v" if "has_terms b v"
    unfolding b' using has_terms_set_record [OF has_terms_set_record [OF that m] t1] km kt by blast
qed

section \<open>A local settlement\<close>

lemma local_fill_open:
  assumes "ledger_ok (st_reservations st)" "local_fill E D K market d now index f rnd st = Inr st'"
  shows "ledger_ok (st_reservations st')"
    and "active_open (st_reservations st') = spend (commitment_bytes (taker_order f)) (fill_quantity f)
       (spend (commitment_bytes (maker_order f)) (fill_quantity f) (active_open (st_reservations st)))"
    and "has_terms (st_reservations st) v \<Longrightarrow> has_terms (st_reservations st') v"
proof -
  obtain cf where cf: "consume_fill (st_reservations st) f market now = (Inr cf, st_reservations st')"
  proof -
    obtain r b where rb: "consume_fill (st_reservations st) f market now = (r, b)" by (cases rule: prod.exhaust)
    from assms(2) obtain cf where "r = Inr cf" "st_reservations st' = b"
      unfolding local_fill_def rb prod.case Let_def andThen_eq_Inr split_def by auto
    with rb that show thesis by simp
  qed
  from consume_fill_open [OF assms(1) cf] show "ledger_ok (st_reservations st')"
    "active_open (st_reservations st') = spend (commitment_bytes (taker_order f)) (fill_quantity f)
       (spend (commitment_bytes (maker_order f)) (fill_quantity f) (active_open (st_reservations st)))"
    "has_terms (st_reservations st) v \<Longrightarrow> has_terms (st_reservations st') v"
    by blast+
qed

lemma local_fills_open:
  "ledger_ok (st_reservations st) \<Longrightarrow> has_terms (st_reservations st) v \<Longrightarrow>
   local_fills E D K market d now rnd index fs st = Inr st' \<Longrightarrow>
     ledger_ok (st_reservations st') \<and> has_terms (st_reservations st') v
     \<and> active_open (st_reservations st') = spend_all fs (active_open (st_reservations st))"
proof (induction fs arbitrary: index st)
  case (Cons f fs)
  then obtain st1 where 1: "local_fill E D K market d now index f (rnd index) st = Inr st1"
    and 2: "local_fills E D K market d now rnd (Suc index) fs st1 = Inr st'"
    by (auto simp: andThen_eq_Inr)
  note o = local_fill_open [OF Cons.prems(1) 1]
  from Cons.IH [OF o(1) o(3) [OF Cons.prems(2)] 2] show ?case by (simp add: o(2))
qed simp

lemma reconcile_open:
  assumes ok: "ledger_ok b" and terms: "has_terms b v" "0 < settlement_limit_price v"
    and c: "reconcile_arriving b v left = (Inr u, b')"
  shows "ledger_ok b' \<and> active_open b' = (active_open b)(commitment_bytes (settlement_commitment v) :=
    (if left = 0 \<or> settlement_time_in_force v = ImmediateOrCancel then None else Some left))"
proof -
  let ?c = "commitment_bytes (settlement_commitment v)"
  let ?closed = "left = 0 \<or> settlement_time_in_force v = ImmediateOrCancel"
  from terms(1) obtain r where r: "btree_get (records b) (settlement_reservation_id v) = Some r"
    and rc: "rr_order_commitment r = ?c" and k: "rr_kind r = side_kind (settlement_side v)"
    and pr: "rr_limit_price r = settlement_limit_price v" and fee: "rr_max_fee r = settlement_max_fee v"
    unfolding has_terms_def by blast
  have i: "record_id_for b ?c = Some (settlement_reservation_id v)"
    using record_id_for_iff [OF ok] r rc by blast
  have okr: "Reservation_Ledger.record_ok r" using ledger_okD(5) [OF ok r] by blast
  from c obtain required where q: "left = rr_remaining_quantity r" "required \<le> rr_remaining r"
    and req: "(if ?closed then Inr 0 else case settlement_side v of
        Buy \<Rightarrow> ok_or (Option.bind (checked_mul (settlement_limit_price v) left)
                   (\<lambda>x. checked_add x (settlement_max_fee v))) (Reservation ''remaining cash reservation overflowed'')
      | Sell \<Rightarrow> Inr left) = Inr required"
    and b': "b' = set_record b (settlement_reservation_id v) (r\<lparr>rr_remaining := required,
        rr_remaining_quantity := (if 0 < required then left else 0),
        rr_status := (if 0 < required then Active
          else if 0 < saturating_sub (rr_remaining r) required then Released else Consumed)\<rparr>)"
      (is "_ = set_record b _ ?s")
    by (auto simp: reconcile_arriving_def i r guarded_ok fail_if_eq_Inr not_less Let_def ok_or_eq_Inr)
  have pos: "unat required = cover r (unat left) \<and> 0 < required" if "\<not> ?closed"
  proof -
    have "remaining_required (rr_kind r) (rr_limit_price r) (rr_max_fee r) left = Some required"
      using that req k pr fee
      by (cases "settlement_side v") (simp_all add: remaining_required_def side_kind_def ok_or_eq_Inr)
    from remaining_required_Some [OF this] that terms(2) pr show ?thesis
      by (auto simp: cover_def word_zero_unat word_gt_0 split: ReservationKind.splits if_splits)
  qed
  have z: "required = 0" if ?closed using req that by (simp split: if_splits)
  have st: "same_terms r ?s" by (simp add: same_terms_def)
  have oks: "Reservation_Ledger.record_ok ?s"
    using okr q pos z cover_same_terms [OF st]
    by (cases ?closed) (auto simp: Reservation_Ledger.record_ok_def)
  have ok': "ledger_ok b'" unfolding b' by (rule ledger_ok_set_record [OF ok r st oks])
  have n: "\<exists>x. btree_get (records b) (settlement_reservation_id v) = Some x \<and> rr_order_commitment x = rr_order_commitment ?s"
    using r by (intro exI [of _ r]) simp
  have "active_open b' = (active_open b)(rr_order_commitment ?s :=
      (if rr_status ?s = Active then Some (rr_remaining_quantity ?s) else None))"
    unfolding b' by (rule active_open_set_record [OF ok ok' [unfolded b'] disjI2 [OF n]])
  then show ?thesis
    using pos z ok' rc by (cases ?closed) auto
qed

lemma local_staged_open:
  assumes "ledger_ok (reservations g)" "has_terms (reservations g) v" "0 < settlement_limit_price v"
    "local_staged E D K rnd g fills a v left now = Inr st"
    and nz: "\<And>x. x \<noteq> commitment_bytes (settlement_commitment v) \<Longrightarrow> active_open (reservations g) x \<noteq> Some 0"
  shows "ledger_ok (st_reservations st) \<and> active_open (st_reservations st) =
    (after_trades (traded_bytes fills) (active_open (reservations g)))(commitment_bytes (settlement_commitment v) :=
      (if left = 0 \<or> settlement_time_in_force v = ImmediateOrCancel then None else Some left))"
proof -
  let ?c = "commitment_bytes (settlement_commitment v)"
  let ?new = "if left = 0 \<or> settlement_time_in_force v = ImmediateOrCancel then None else Some left"
  let ?st0 = "\<lparr>st_reservations = reservations g, st_participants = participants g,
      st_spent = spent_instructions g, st_members = []\<rparr>"
  from assms(4) obtain st1 u b' where pre: "local_precheck E g fills a v left now = Inr ()"
    and 1: "local_fills E D K (settlement_market_id v) (auth_digest E a) now rnd 0 fills ?st0 = Inr st1"
    and 2: "fst (reconcile_arriving (st_reservations st1) v left) = Inr u"
    and 3: "refresh_all (snd (reconcile_arriving (st_reservations st1) v left)) (st_participants st1) = Inr b'"
    and st: "st_reservations st = b'"
    unfolding local_staged_def Let_def split_def andThen_eq_Inr by auto
  obtain b1 where b1: "reconcile_arriving (st_reservations st1) v left = (Inr u, b1)"
    using 2 by (cases "reconcile_arriving (st_reservations st1) v left") simp
  have fs: "ledger_ok (st_reservations st1) \<and> has_terms (st_reservations st1) v
      \<and> active_open (st_reservations st1) = spend_all fills (active_open (reservations g))"
    using local_fills_open [OF _ _ 1] assms(1,2) by simp
  have rc: "ledger_ok b1 \<and> active_open b1 = (active_open (st_reservations st1))(?c := ?new)"
    using reconcile_open [OF _ _ assms(3) b1] fs by blast
  have ok: "ledger_ok b' \<and> active_open b' = active_open b1"
    using refresh_all_open [OF _ 3] b1 rc by simp
  have tk: "\<forall>f\<in>set fills. commitment_bytes (taker_order f) = ?c" and mk: "distinct (map maker_order fills)"
    using pre by (auto simp: local_precheck_def andThen_eq_Inr fail_if_eq_Inr list_ex_iff)
  have "active_open b' x = ((after_trades (traded_bytes fills) (active_open (reservations g)))(?c := ?new)) x" for x
    using spend_all_trades [OF tk mk, of x "active_open (reservations g)"] nz [of x] ok rc fs
    by (cases "x = ?c") simp_all
  with ok st show ?thesis by (simp add: fun_eq_iff)
qed

lemma settle_batch_staged:
  assumes "settle_batch E D K rnd g fills a v left now = (Inr receipt, g')"
  obtains st where "local_staged E D K rnd g fills a v left now = Inr st" "reservations g' = st_reservations st"
proof -
  from assms obtain st where st: "local_staged E D K rnd g fills a v left now = Inr st"
    and cm: "commit_staged E D g (auth_digest E a) st = (Inr receipt, g')"
    by (auto simp: settle_batch_def guarded_ok)
  from cm have "reservations g' = st_reservations st"
    by (rule commit_staged_cases) simp_all
  with st show thesis by (rule that)
qed

section \<open>The book\<close>

lemma book_open_iff:
  assumes "sides_ok b"
  shows "book_open b x = Some q \<longleftrightarrow> (\<exists>r\<in>set (orders b). rc r = OrderCommitment x \<and> remaining r = q)"
proof -
  have d: "distinct (map rc (orders b))" using assms by (simp add: sides_ok_def)
  show ?thesis by (auto simp: book_open_def find_record_iff [OF d])
qed

lemma book_open_nonzero: "book_ok E b \<Longrightarrow> book_open b x \<noteq> Some 0"
  using book_open_iff [OF book_ok_sides, of E b x 0] book_ok_nonzero [of E b] by blast

lemma book_open_none: "book_open b x = None \<longleftrightarrow> OrderCommitment x \<notin> rc ` set (orders b)"
  by (simp add: book_open_def find_record_None)

lemma option_extI: "(\<And>q. m = Some q \<longleftrightarrow> m' = Some q) \<Longrightarrow> m = m'"
  by (cases m; cases m') auto

lemma book_open_orders:
  assumes "sides_ok b" "sides_ok b'" "set (orders b') = set (orders b)"
  shows "book_open b' = book_open b"
  by (intro ext option_extI) (simp add: book_open_iff assms)

lemma book_open_removed:
  assumes "sides_ok b" "orders_removed b C b1"
  shows "book_open b1 = (\<lambda>x. if OrderCommitment x \<in> C then None else book_open b x)"
proof (intro ext option_extI)
  fix x q
  have s: "sides_ok b1" using assms(2) by (simp add: orders_removed_def)
  show "(book_open b1 x = Some q) = ((if OrderCommitment x \<in> C then None else book_open b x) = Some q)"
    unfolding book_open_iff [OF s] orders_removed_orders [OF assms(2)]
    using book_open_iff [OF assms(1), of x q] by auto
qed

lemma book_open_fills:
  assumes ok: "book_ok E b" and fa: "fills_applied b fs b1"
  shows "book_open b1 = after_trades (traded_bytes fs) (book_open b)"
proof (intro ext option_extI)
  fix x q
  have s: "sides_ok b" "sides_ok b1" using book_ok_sides [OF ok] fa by (simp_all add: fills_applied_def)
  show "(book_open b1 x = Some q) = (after_trades (traded_bytes fs) (book_open b) x = Some q)"
  proof
    assume "book_open b1 x = Some q"
    then obtain r where r: "r \<in> set (orders b)" "rc r = OrderCommitment x"
      "q = remaining r - traded fs (OrderCommitment x)" "q \<noteq> 0"
      unfolding book_open_iff [OF s(2)] fills_applied_orders [OF fa] set_settle by auto
    then have "book_open b x = Some (remaining r)" using book_open_iff [OF s(1)] by blast
    with r show "after_trades (traded_bytes fs) (book_open b) x = Some q"
      by (auto simp: after_trades_def traded_bytes_def)
  next
    assume "after_trades (traded_bytes fs) (book_open b) x = Some q"
    then obtain y where y: "book_open b x = Some y" "y \<noteq> traded fs (OrderCommitment x)"
      "q = y - traded fs (OrderCommitment x)"
      by (auto simp: after_trades_def traded_bytes_def split: option.splits if_splits)
    then obtain r where r: "r \<in> set (orders b)" "rc r = OrderCommitment x" "remaining r = y"
      using book_open_iff [OF s(1)] by blast
    then have "r\<lparr>remaining := q\<rparr> \<in> set (orders b1)"
      unfolding fills_applied_orders [OF fa] set_settle using y by (auto intro!: exI [of _ r])
    with r(2) show "book_open b1 x = Some q"
      unfolding book_open_iff [OF s(2)] by (intro bexI [of _ "r\<lparr>remaining := q\<rparr>"]) simp_all
  qed
qed

lemma book_open_rest:
  assumes ok: "book_ok E b1" and ad: "admissible E b1 ord a seq" and left: "left \<le> quantity ord"
  defines "b2 \<equiv> admit (oa_commitment a) seq (rest_arriving ord a seq left b1)"
  shows "book_ok E b2" "book_open b2 = (book_open b1)(commitment_bytes (oa_commitment a) :=
    (if 0 < left \<and> time_in_force ord = GoodTilCancelled then Some left else None))"
proof -
  show b2: "book_ok E b2" unfolding b2_def by (rule book_ok_rest_arriving(1) [OF ok ad left])
  have "set_mset (mset (orders b2)) = set_mset (mset (orders b1) + mset (rest_of ord a seq left))"
    unfolding b2_def orders_admit book_ok_rest_arriving(2) [OF ok ad left] ..
  then have o: "set (orders b2) = set (orders b1) \<union> set (rest_of ord a seq left)" by simp
  have fresh: "rc r \<noteq> oa_commitment a" if "r \<in> set (orders b1)" for r
    using ok ad that by (auto simp: book_ok_def admissible_def)
  show "book_open b2 = (book_open b1)(commitment_bytes (oa_commitment a) :=
    (if 0 < left \<and> time_in_force ord = GoodTilCancelled then Some left else None))"
  proof (intro ext option_extI)
    fix x q
    show "(book_open b2 x = Some q) = (((book_open b1)(commitment_bytes (oa_commitment a) :=
      (if 0 < left \<and> time_in_force ord = GoodTilCancelled then Some left else None))) x = Some q)"
    proof (cases "OrderCommitment x = oa_commitment a")
      case True
      then have x: "x = commitment_bytes (oa_commitment a)" by (cases "oa_commitment a") simp
      show ?thesis
        unfolding book_open_iff [OF book_ok_sides [OF b2]] o using fresh True
        by (auto simp: x rest_of_def)
    next
      case False
      then have x: "x \<noteq> commitment_bytes (oa_commitment a)" by (cases "oa_commitment a") simp
      show ?thesis
        unfolding book_open_iff [OF book_ok_sides [OF b2]] o
        using x False book_open_iff [OF book_ok_sides [OF ok], of x q] by (auto simp: rest_of_def)
    qed
  qed
qed

text \<open>The book after an accepted batch.\<close>

lemma batch_book_open:
  assumes ok: "book_ok E b" and o1: "order_ok ord" "pb_sequence b \<noteq> u64_max"
    and r: "apply_mpc_batch_result E b ord a seq now result = (Inr tr, b')"
  shows "book_ok E b'" "oa_commitment a = commitment E ord" "oa_commitment a \<notin> admitted b"
    "pb_sequence b' = pb_sequence b + 1" "seq = pb_sequence b + 1" "pb_market_id b' = pb_market_id b"
    "admitted b' = insert (oa_commitment a) (admitted b)"
    "result = expected_batch (batch_of b ord now)" "bx_fills tr = batch_fills b ord a now"
    "bx_arriving_remaining tr = arriving_remaining result"
    "book_open b' = (after_trades (traded_bytes (bx_fills tr)) (book_open b))(commitment_bytes (commitment E ord) :=
       (if 0 < bx_arriving_remaining tr \<and> time_in_force ord = GoodTilCancelled
        then Some (bx_arriving_remaining tr) else None))"
proof -
  obtain b1 where acc: "accepted E b ord a seq now" and res: "result = expected_batch (batch_of b ord now)"
    and fa: "fills_applied b (batch_fills b ord a now) b1" and f: "bx_fills tr = batch_fills b ord a now"
    and l: "bx_arriving_remaining tr = arriving_remaining result"
    and b': "b' = admit (oa_commitment a) seq (rest_arriving ord a seq (arriving_remaining result) b1)"
    using apply_mpc_batch_result_cases [OF ok, of ord a seq now result] r by (metis Inl_Inr_False Pair_inject Inr_inject)
  have ad: "admissible E b ord a seq" by (rule accepted_admissible [OF acc o1])
  have ad1: "admissible E b1 ord a seq" using fills_applied_admissible [OF fa] ad by simp
  have le: "arriving_remaining result \<le> quantity ord" unfolding res by (rule arriving_remaining_le_quantity)
  note rest = book_open_rest [OF book_ok_fills_applied [OF ok fa] ad1 le]
  show "book_ok E b'" unfolding b' by (rule rest(1))
  show c: "oa_commitment a = commitment E ord" "oa_commitment a \<notin> admitted b"
    using ad unfolding admissible_def by blast+
  show "seq = pb_sequence b + 1" using acc by (simp add: accepted_def check_admission_ok)
  then show "pb_sequence b' = pb_sequence b + 1" by (simp add: b')
  have h: "header b1 = header b" using fa by (simp add: fills_applied_def)
  show "pb_market_id b' = pb_market_id b" "admitted b' = insert (oa_commitment a) (admitted b)"
    using headerD [OF h] by (cases "side ord"; simp add: b' rest_arriving_def insert_record_def Let_def)+
  show "result = expected_batch (batch_of b ord now)" "bx_fills tr = batch_fills b ord a now"
    "bx_arriving_remaining tr = arriving_remaining result" by fact+
  show "book_open b' = (after_trades (traded_bytes (bx_fills tr)) (book_open b))(commitment_bytes (commitment E ord) :=
       (if 0 < bx_arriving_remaining tr \<and> time_in_force ord = GoodTilCancelled
        then Some (bx_arriving_remaining tr) else None))"
    unfolding b' rest(2) book_open_fills [OF ok fa] f l by (simp only: c(1))
qed

end
