(* ===== verification/Book_Properties.thy ===== *)
theory Book_Properties
  imports Book_Machine Sequenced
begin

text \<open>
  The properties of the private book: the invariant, atomicity, conservation of quantity, exact
  effects of cancellation and expiry, and that the book is a sequenced ledger.
\<close>

lemma reachable_step_ok:
  "book_reachable E b \<Longrightarrow> command_ok cmd \<Longrightarrow> pb_sequence b \<noteq> u64_max \<Longrightarrow>
     run_command E b seq cmd = (res, b') \<Longrightarrow> book_reachable E b'"
  using book_step [of E b cmd seq] by simp

section \<open>A concrete book\<close>

text \<open>One ask of 3 at 10, and an arriving bid of 5 at 12, in the market named \<open>A\<close>.\<close>

definition sample_ask :: SecretOrder where
  "sample_ask = sample_order Sell 10 3 GoodTilCancelled 5"

definition sample_bid :: SecretOrder where
  "sample_bid = sample_order Buy 12 5 GoodTilCancelled 6"

definition sample_empty :: PrivateBook where
  "sample_empty = \<lparr>pb_market_id = [65], pb_sequence = 0, bids = [], asks = [], admitted = {}\<rparr>"

definition sample_record :: RestingOrder where
  "sample_record = \<lparr>secret = sample_ask, authority = sample_authority sample_ask, remaining = 3, ro_sequence = 1\<rparr>"

definition sample_book :: PrivateBook where
  "sample_book = \<lparr>pb_market_id = [65], pb_sequence = 1, bids = [], asks = [(10, [sample_record])],
     admitted = {OrderCommitment 2546}\<rparr>"

lemma sample_orders_ok: "order_ok sample_ask" "order_ok sample_bid"
  by (simp_all add: sample_ask_def sample_bid_def sample_order_ok)

lemma sample_fields:
  "market_id sample_ask = [65]" "side sample_ask = Sell" "limit_price sample_ask = 10"
  "quantity sample_ask = 3" "time_in_force sample_ask = GoodTilCancelled" "expires_at sample_ask = 99"
  "cancellation_secret_digest sample_ask = 1533"
  "market_id sample_bid = [65]" "side sample_bid = Buy" "limit_price sample_bid = 12"
  "quantity sample_bid = 5" "time_in_force sample_bid = GoodTilCancelled" "expires_at sample_bid = 99"
  by (simp_all add: sample_ask_def sample_bid_def sample_order_def)

lemma sample_commitments:
  "oa_commitment (sample_authority sample_ask) = OrderCommitment 2546"
  "oa_commitment (sample_authority sample_bid) = OrderCommitment 2554"
proof -
  have "commitment sample_crypto sample_ask = OrderCommitment 2546"
    by (simp add: sample_ask_def sample_commitment_simps)
  then show "oa_commitment (sample_authority sample_ask) = OrderCommitment 2546"
    by (simp add: sample_authority_ok(2) sample_fields)
  have "commitment sample_crypto sample_bid = OrderCommitment 2554"
    by (simp add: sample_bid_def sample_commitment_simps)
  then show "oa_commitment (sample_authority sample_bid) = OrderCommitment 2554"
    by (simp add: sample_authority_ok(2) sample_fields)
qed

lemma sample_insert:
  "run_command sample_crypto sample_empty 1 (InsertResting sample_ask (sample_authority sample_ask) 50)
     = (Inr (), sample_book)"
  by (simp add: run_command_def insert_resting_def sample_authority_ok(3) sample_fields check_admission_def
      sample_empty_def sample_book_def sample_record_def admit_def insert_record_def btree_upsert_def
      btree_get_def sample_commitments)

lemma sample_empty_reachable: "book_reachable sample_crypto sample_empty"
  by (rule book_init [of "[65]"]) (simp add: PrivateBook_new_def sample_empty_def)

lemma sample_book_reachable: "book_reachable sample_crypto sample_book"
  by (rule reachable_step_ok [OF sample_empty_reachable _ _ sample_insert])
     (simp_all add: command_ok_def sample_orders_ok sample_empty_def u64_max_def)

lemma sample_book_fields: "orders sample_book = [sample_record]" "pb_sequence sample_book = 1"
  "admitted sample_book = {OrderCommitment 2546}" "pb_market_id sample_book = [65]"
  "rc sample_record = OrderCommitment 2546" "remaining sample_record = 3" "secret sample_record = sample_ask"
  by (simp_all add: sample_book_def orders_def sample_record_def sample_commitments)

lemma sample_accepted: "accepted sample_crypto sample_book sample_bid (sample_authority sample_bid) 2 50"
  by (simp add: accepted_def sample_authority_ok(3) sample_fields check_admission_def sample_book_fields
      sample_commitments)

section \<open>Properties of every command\<close>

text \<open>C2. Every state of the book is well formed: after any sequence of commands, accepted or refused,
  both sides are strictly sorted by price with non-empty queues of orders of that side and price in
  strictly increasing sequence, no commitment occurs twice, every resting order was admitted, belongs
  to the market, is good till cancelled, satisfies the rules of its constructor and has a positive
  remainder of at most its quantity.\<close>

theorem reachable_book_invariant:
  assumes "book_reachable E b"
  shows "book_ok E b"
  using assms by (rule reachable_book_ok)

theorem reachable_book_invariant_witness: "book_ok sample_crypto sample_book \<and> orders sample_book \<noteq> []"
  using reachable_book_invariant [OF sample_book_reachable] by (simp add: sample_book_fields)

lemma run_command_err:
  assumes ok: "book_ok E b" and r: "run_command E b seq cmd = (Inl e, b')"
    and e: "e \<noteq> Invalid ''expired quantity overflowed''"
  shows "b' = b"
proof (cases cmd)
  case (InsertResting ord a now)
  then show ?thesis using r
    by (cases rule: insert_resting_cases [of E b ord a seq now]) (auto simp: run_command_def)
next
  case (MatchOne ord a now res)
  with ok r show ?thesis
    by (cases rule: apply_mpc_result_cases [of E b ord a seq now res]) (auto simp: run_command_def)
next
  case (MatchBatch ord a now res)
  with ok r show ?thesis
    by (cases rule: apply_mpc_batch_result_cases [of E b ord a seq now res]) (auto simp: run_command_def)
next
  case (Cancel k)
  with ok r show ?thesis
    by (cases rule: apply_cancellation_cases [of E b k seq]) (auto simp: run_command_def)
next
  case (Expire cutoff c)
  with ok r e show ?thesis
    by (cases rule: apply_expiry_cases [of E b cutoff c seq]) (auto simp: run_command_def)
qed

text \<open>C13. A refused command changes nothing: whatever command fails on a state of the book, with
  whatever error except the overflow of the expiry total, the book is the one before the call, although
  several commands mutate the book before their last check.\<close>

theorem failed_command_unchanged:
  assumes "book_reachable E b" "run_command E b seq cmd = (Inl e, b')"
    and "e \<noteq> Invalid ''expired quantity overflowed''"
  shows "b' = b"
  using run_command_err [OF reachable_book_ok [OF assms(1)] assms(2,3)] .

theorem failed_command_unchanged_witness:
  "run_command sample_crypto sample_book 7 (InsertResting sample_bid (sample_authority sample_bid) 50)
     = (Inl (Invalid ''certificate sequence is not next''), sample_book)"
proof -
  obtain b' where r: "run_command sample_crypto sample_book 7
      (InsertResting sample_bid (sample_authority sample_bid) 50)
        = (Inl (Invalid ''certificate sequence is not next''), b')"
    by (simp add: run_command_def insert_resting_def sample_authority_ok(3) sample_fields check_admission_def
        sample_book_fields sample_commitments)
  have "b' = sample_book" by (rule failed_command_unchanged [OF sample_book_reachable r]) simp
  with r show ?thesis by simp
qed

section \<open>Matching\<close>

text \<open>C16. Only the canonical transition is applied: a batch result changes the book exactly when the
  authority verifies, the order belongs to the market, is not a replay, carries the next sequence and
  the result equals the reference transition of the book's own price-time ordered slots in every slot,
  the remainder and the public levels.\<close>

theorem batch_result_canonical:
  assumes "book_reachable E b"
  shows "(\<exists>tr. fst (apply_mpc_batch_result E b ord a seq now result) = Inr tr) \<longleftrightarrow>
    OrderAuthority_verify E a ord now = Inr () \<and> market_id ord = pb_market_id b
    \<and> oa_commitment a \<notin> admitted b \<and> seq = pb_sequence b + 1
    \<and> Inr result = map_sum id expected_batch (private_match_batch b ord now)"
proof -
  have ok: "book_ok E b" by (rule reachable_book_ok [OF assms])
  have eq: "Inr result = map_sum id expected_batch (private_match_batch b ord now) \<longleftrightarrow>
      result = expected_batch (batch_of b ord now)" if "market_id ord = pb_market_id b"
    using that by (simp add: private_match_batch_def batch_of_def)
  from ok have "(\<exists>tr. fst (apply_mpc_batch_result E b ord a seq now result) = Inr tr) \<longleftrightarrow>
      accepted E b ord a seq now \<and> result = expected_batch (batch_of b ord now)"
    by (cases rule: apply_mpc_batch_result_cases [of E b ord a seq now result]) simp_all
  with eq show ?thesis unfolding accepted_def check_admission_ok by blast
qed

definition sample_result :: MpcBatchResult where
  "sample_result = expected_batch (batch_of sample_book sample_bid 50)"

lemma sample_batch_of:
  "batch_of sample_book sample_bid 50 =
     \<lparr>resting = [\<lparr>ri_commitment = OrderCommitment 2546, ri_side = Sell, ri_price = 10, ri_quantity = 3\<rparr>],
      arriving_side = Buy, arriving_price = 12, arriving_quantity = 5, arriving_can_rest = True\<rparr>"
  by (simp add: batch_of_def live_opposite_def ordered_opposite_def sample_fields resting_input_def
      MAX_MATCH_SLOTS_def sample_book_def sample_record_def sample_commitments)

lemma sample_result_fields:
  "slots sample_result = [\<lparr>matched = True, trade_price = 10, trade_quantity = 3\<rparr>]"
  "arriving_remaining sample_result = 2"
  by (simp_all add: sample_result_def sample_batch_of expected_batch_def match_slot_def crosses_def)

theorem batch_result_canonical_witness:
  "\<exists>tr. fst (apply_mpc_batch_result sample_crypto sample_book sample_bid (sample_authority sample_bid) 2 50
     sample_result) = Inr tr"
  using batch_result_canonical [OF sample_book_reachable, of sample_bid "sample_authority sample_bid" 2 50
      sample_result]
  by (simp add: sample_authority_ok(3) sample_fields sample_book_fields sample_commitments
      private_match_batch_def sample_result_def batch_of_def)

lemma sample_apply:
  obtains tr b' where "apply_mpc_batch_result sample_crypto sample_book sample_bid
      (sample_authority sample_bid) 2 50 sample_result = (Inr tr, b')"
proof -
  have "book_ok sample_crypto sample_book" by (rule reachable_book_ok [OF sample_book_reachable])
  then show thesis
  proof (cases rule: apply_mpc_batch_result_cases [of sample_crypto sample_book sample_bid
        "sample_authority sample_bid" 2 50 sample_result])
    case (Err e)
    with sample_accepted sample_result_def show thesis by blast
  next
    case (Ok b1 tr)
    from that [OF Ok(7)] show thesis .
  qed
qed

subsection \<open>Conservation\<close>

lemma total_filled_fills_of:
  assumes "\<And>r sl. (r, sl) \<in> set zs \<Longrightarrow> \<not> matched sl \<Longrightarrow> trade_quantity sl = 0"
  shows "total_filled (fills_of taker zs) = (\<Sum>(r, sl)\<leftarrow>zs. unat (trade_quantity sl))"
  using assms
proof (induction zs)
  case (Cons z zs)
  obtain r sl where z: "z = (r, sl)" by (cases z)
  have "total_filled (fills_of taker zs) = (\<Sum>(r, sl)\<leftarrow>zs. unat (trade_quantity sl))"
    by (rule Cons.IH) (rule Cons.prems, auto)
  moreover have "\<not> matched sl \<Longrightarrow> trade_quantity sl = 0" by (rule Cons.prems [of r]) (simp add: z)
  ultimately show ?case by (auto simp: z total_filled_def)
qed (simp add: total_filled_def)

lemma unmatched_slot:
  assumes "(r, sl) \<in> set (zip (resting batch) (slots (expected_batch batch)))" "\<not> matched sl"
  shows "trade_quantity sl = 0"
proof -
  from assms(1) obtain i where "i < length (resting batch)" "sl = slots (expected_batch batch) ! i"
    by (auto simp: in_set_conv_nth)
  with assms(2) show ?thesis
    by (auto simp: slots_expected_batch match_slots_nth matched_match_slot word_gt_0)
qed

lemma total_batch_fills:
  "total_filled (batch_fills b ord a now)
     + unat (snd (match_slots (batch_of b ord now) (quantity ord) (resting (batch_of b ord now))))
   = unat (quantity ord)"
proof -
  let ?B = "batch_of b ord now"
  have q: "arriving_quantity ?B = quantity ord" by (simp add: batch_of_def)
  have "total_filled (batch_fills b ord a now)
      = (\<Sum>(r, sl)\<leftarrow>zip (resting ?B) (slots (expected_batch ?B)). unat (trade_quantity sl))"
    unfolding batch_fills_def by (rule total_filled_fills_of) (rule unmatched_slot)
  also have "\<dots> = (\<Sum>sl\<leftarrow>map snd (zip (resting ?B) (slots (expected_batch ?B))). unat (trade_quantity sl))"
    by (simp only: map_map comp_def split_def)
  also have "map snd (zip (resting ?B) (slots (expected_batch ?B))) = slots (expected_batch ?B)" by simp
  finally show ?thesis
    using match_slots_sum [of ?B "quantity ord" "resting ?B"] by (simp add: slots_expected_batch q)
qed

text \<open>C4. Quantity is conserved by an accepted batch: what leaves the resting orders is exactly what is
  filled, the fills take no more than the arriving quantity, and the unfilled rest of the arriving order
  enters the book when it is good till cancelled and vanishes when it is immediate or cancel.\<close>

theorem batch_conserves_quantity:
  assumes "book_reachable E b" "order_ok ord" "pb_sequence b \<noteq> u64_max"
    and "apply_mpc_batch_result E b ord a seq now result = (Inr tr, b')"
  shows "total_resting b' + total_filled (bx_fills tr) =
      total_resting b + (if time_in_force ord = GoodTilCancelled
        then unat (quantity ord) - total_filled (bx_fills tr) else 0)
    \<and> total_filled (bx_fills tr) \<le> unat (quantity ord)"
proof -
  have ok: "book_ok E b" by (rule reachable_book_ok [OF assms(1)])
  then show ?thesis
  proof (cases rule: apply_mpc_batch_result_cases [of E b ord a seq now result])
    case (Err e)
    with assms(4) show ?thesis by simp
  next
    case (Ok b1 t)
    let ?left = "arriving_remaining result"
    have t: "tr = t" and b': "b' = admit (oa_commitment a) seq (rest_arriving ord a seq ?left b1)"
      using assms(4) Ok(7) by simp_all
    have ad: "admissible E b1 ord a seq"
      using fills_applied_admissible [OF Ok(3)] accepted_admissible [OF Ok(1) assms(2,3)] by simp
    have "?left \<le> quantity ord" unfolding Ok(2) by (rule arriving_remaining_le_quantity)
    from book_ok_rest_arriving(2) [OF book_ok_fills_applied [OF ok Ok(3)] ad this]
    have "mset (orders b') = mset (orders b1) + mset (rest_of ord a seq ?left)" by (simp add: b')
    then have "mset (map (unat \<circ> remaining) (orders b')) =
        mset (map (unat \<circ> remaining) (orders b1 @ rest_of ord a seq ?left))" by simp
    from arg_cong [OF this, of sum_mset]
    have "total_resting b' = total_resting b1 + (\<Sum>r\<leftarrow>rest_of ord a seq ?left. unat (remaining r))"
      unfolding sum_mset_sum_list total_resting_def by (simp add: comp_def)
    moreover have "total_resting b1 + total_filled (bx_fills tr) = total_resting b"
      using total_fills_applied [OF book_ok_sides [OF ok] Ok(3)] by (simp add: t Ok(4))
    moreover have "arriving_quantity (batch_of b ord now) = quantity ord"
      "arriving_can_rest (batch_of b ord now) = (time_in_force ord = GoodTilCancelled)"
      by (simp_all add: batch_of_def)
    ultimately show ?thesis
      using total_batch_fills [of b ord a now]
      by (auto simp: t Ok(2,4) rest_of_def arriving_remaining_expected_batch word_gt_0_unat)
  qed
qed

theorem batch_conserves_quantity_witness:
  "\<exists>tr b'. apply_mpc_batch_result sample_crypto sample_book sample_bid (sample_authority sample_bid) 2 50
       sample_result = (Inr tr, b')
     \<and> total_resting b' + total_filled (bx_fills tr) = 3 + (5 - total_filled (bx_fills tr))"
proof -
  obtain tr b' where r: "apply_mpc_batch_result sample_crypto sample_book sample_bid
      (sample_authority sample_bid) 2 50 sample_result = (Inr tr, b')"
    by (rule sample_apply)
  have "total_resting sample_book = 3" by (simp add: total_resting_def sample_book_fields)
  with batch_conserves_quantity [OF sample_book_reachable sample_orders_ok(2) _ r] r show ?thesis
    by (simp add: sample_book_fields u64_max_def sample_fields)
qed

section \<open>Cancellation and expiry\<close>

lemma cancellation_accepted:
  assumes "book_ok E b" "r \<in> set (orders b)" "sc_target k = rc r"
    and "cancellation_secret_digest (secret r) = cancellation_digest E (sc_secret k)"
    and "SecretCancellation_commitment E k \<notin> admitted b"
  shows "\<exists>tr b'. apply_cancellation E b k (pb_sequence b + 1) = (Inr tr, b') \<and> rc r \<notin> rc ` set (orders b')"
proof -
  from assms(1) show ?thesis
  proof (cases rule: apply_cancellation_cases [of E b k "pb_sequence b + 1"])
    case (Err e)
    from Err(2) assms(2-5) show ?thesis by (metis (no_types))
  next
    case (Ok x b1 tr)
    with assms(3) show ?thesis by (auto simp: orders_removed_orders [OF Ok(6)])
  qed
qed

text \<open>C21. A cancellation removes exactly its target: when it is accepted, the target rested in the book,
  the command opens the order's cancellation digest, the released quantity is what remained of the
  order, every other order of both sides stays as it was in the same place, and the command is recorded
  under the next sequence.\<close>

theorem cancellation_exact:
  assumes "book_reachable E b" "apply_cancellation E b k seq = (Inr tr, b')"
  shows "\<exists>r\<in>set (orders b). rc r = sc_target k
      \<and> cancellation_secret_digest (secret r) = cancellation_digest E (sc_secret k)
      \<and> cx_released_quantity tr = remaining r
      \<and> total_resting b' + unat (remaining r) = total_resting b
    \<and> flat (bids b') = filter (\<lambda>r. rc r \<noteq> sc_target k) (flat (bids b))
    \<and> flat (asks b') = filter (\<lambda>r. rc r \<noteq> sc_target k) (flat (asks b))
    \<and> seq = pb_sequence b + 1 \<and> pb_sequence b' = seq
    \<and> SecretCancellation_commitment E k \<notin> admitted b
    \<and> admitted b' = insert (SecretCancellation_commitment E k) (admitted b)"
proof -
  have ok: "book_ok E b" by (rule reachable_book_ok [OF assms(1)])
  then show ?thesis
  proof (cases rule: apply_cancellation_cases [of E b k seq])
    case (Err e)
    with assms(2) show ?thesis by simp
  next
    case (Ok r b1 t)
    have t: "tr = t" and b': "b' = admit (SecretCancellation_commitment E k) seq b1"
      using assms(2) Ok(10) by simp_all
    have h: "admitted b1 = admitted b" using Ok(6) headerD [of b1 b] by (simp add: orders_removed_def)
    have "expired_total b {sc_target k} = unat (remaining r)"
      using filter_rc_single [of "orders b" r] ok Ok(3,4) by (simp add: expired_total_def book_ok_def)
    moreover have "total_resting b1 + expired_total b {sc_target k} = total_resting b"
      using orders_removed_orders [OF Ok(6)]
        sum_list_filter_split [of "\<lambda>r. unat (remaining r)" "\<lambda>_. True" "orders b" "\<lambda>r. rc r \<in> {sc_target k}"]
      by (simp add: total_resting_def expired_total_def)
    moreover have "total_resting b' = total_resting b1" by (simp add: b' total_resting_def)
    ultimately show ?thesis using Ok h by (intro bexI [of _ r]) (simp_all add: b' t orders_removed_def)
  qed
qed

definition sample_cancellation :: SecretCancellation where
  "sample_cancellation = \<lparr>sc_target = OrderCommitment 2546, sc_secret = 4, sc_nonce = 1, sc_salt = 1\<rparr>"

lemma sample_cancellation_fresh:
  "SecretCancellation_commitment sample_crypto sample_cancellation \<noteq> OrderCommitment 2546"
  by (simp add: SecretCancellation_commitment_def sample_cancellation_def sample_sha256 to_be_bytes_def
      be_bytes_numeral bytes_of_def)

lemma sample_cancel_premises:
  "sc_target sample_cancellation = rc sample_record"
  "cancellation_secret_digest (secret sample_record) = cancellation_digest sample_crypto (sc_secret sample_cancellation)"
  "SecretCancellation_commitment sample_crypto sample_cancellation \<notin> admitted sample_book"
  using sample_cancellation_fresh
  by (simp_all add: sample_cancellation_def sample_book_fields sample_fields sample_cancellation_digest)

theorem cancellation_exact_witness:
  "\<exists>tr b'. apply_cancellation sample_crypto sample_book sample_cancellation 2 = (Inr tr, b')
     \<and> cx_released_quantity tr = 3 \<and> total_resting b' + 3 = total_resting sample_book"
proof -
  obtain tr b' where r: "apply_cancellation sample_crypto sample_book sample_cancellation 2 = (Inr tr, b')"
    using cancellation_accepted [OF reachable_book_ok [OF sample_book_reachable] _ sample_cancel_premises]
    by (auto simp: sample_book_fields)
  from cancellation_exact [OF sample_book_reachable r] r show ?thesis by (auto simp: sample_book_fields)
qed

text \<open>C22. An expiry removes exactly the expired orders: when it is accepted, the command is the canonical
  commitment to the sorted commitments of the orders that expired before the cutoff, none of those
  remains, every other order stays as it was, and the released quantity is the exact sum of what
  remained of the expired ones, without overflow.\<close>

theorem expiry_exact:
  assumes "book_reachable E b" "apply_expiry E b cutoff c seq = (Inr tr, b')"
  shows "flat (bids b') = filter (\<lambda>r. cutoff \<le> expires_at (secret r)) (flat (bids b))
    \<and> flat (asks b') = filter (\<lambda>r. cutoff \<le> expires_at (secret r)) (flat (asks b))
    \<and> unat (ex_released_quantity tr) =
        (\<Sum>r\<leftarrow>filter (\<lambda>r. expires_at (secret r) < cutoff) (orders b). unat (remaining r))
    \<and> sorted (ex_expired_orders tr) \<and> distinct (ex_expired_orders tr)
    \<and> c = expiry_commitment E (pb_market_id b) cutoff (ex_expired_orders tr)
    \<and> c \<notin> admitted b \<and> admitted b' = insert c (admitted b)
    \<and> seq = pb_sequence b + 1 \<and> pb_sequence b' = seq"
proof -
  have ok: "book_ok E b" by (rule reachable_book_ok [OF assms(1)])
  have inj: "inj_on rc (set (orders b))" using ok by (simp add: book_ok_def distinct_map)
  have mem: "rc r \<in> expired_set b cutoff \<longleftrightarrow> expires_at (secret r) < cutoff" if "r \<in> set (orders b)" for r
    using that inj by (auto simp: expired_set_def dest: inj_onD)
  from ok show ?thesis
  proof (cases rule: apply_expiry_cases [of E b cutoff c seq])
    case (Ok b1 t)
    have t: "tr = t" and b': "b' = admit c seq b1" using assms(2) Ok(7) by simp_all
    have h: "admitted b1 = admitted b" using Ok(3) headerD [of b1 b] by (simp add: orders_removed_def)
    have "filter (\<lambda>r. rc r \<notin> expired_set b cutoff) m = filter (\<lambda>r. cutoff \<le> expires_at (secret r)) m"
      if "set m \<subseteq> set (orders b)" for m
      using that mem by (intro filter_cong) (auto simp: not_less)
    moreover have "filter (\<lambda>r. rc r \<in> expired_set b cutoff) (orders b)
        = filter (\<lambda>r. expires_at (secret r) < cutoff) (orders b)"
      using mem by (intro filter_cong) auto
    moreover have "sorted (ex_expired_orders tr)" "distinct (ex_expired_orders tr)"
      using distinct_expired_commitments [OF book_ok_sides [OF ok]]
      by (simp_all add: t Ok(5)) (simp add: expired_commitments_def)
    ultimately show ?thesis
      using Ok h by (auto simp: t b' orders_removed_def orders_def expiry_ready_def expired_total_def)
  qed (use assms(2) in simp_all)
qed

lemma sample_expiry_ready:
  "expiry_ready sample_crypto sample_book 100 (OrderCommitment 2361) 2"
proof -
  have "expired_commitments sample_book 100 = [OrderCommitment 2546]"
    by (simp add: expired_commitments_def sample_book_def sample_record_def sample_commitments sample_fields)
  moreover have "expiry_commitment sample_crypto [65] 100 [OrderCommitment 2546] = OrderCommitment 2361"
    by (simp add: expiry_commitment_def expiry_preimage_def sample_sha256 to_be_bytes_def be_bytes_numeral
        bytes_of_def put_bytes_def)
  ultimately show ?thesis by (simp add: expiry_ready_def sample_book_fields)
qed

lemma sample_expired_total: "expired_total sample_book C \<le> 3"
  by (simp add: expired_total_def sample_book_fields)

lemma sample_expiry:
  obtains tr b' where "apply_expiry sample_crypto sample_book 100 (OrderCommitment 2361) 2 = (Inr tr, b')"
proof -
  have "book_ok sample_crypto sample_book" by (rule reachable_book_ok [OF sample_book_reachable])
  then show thesis
  proof (cases rule: apply_expiry_cases [of sample_crypto sample_book 100 "OrderCommitment 2361" 2])
    case (Err e)
    with sample_expiry_ready show thesis by blast
  next
    case (Overflow b1 ds es)
    with sample_expired_total [of "expired_set sample_book 100"] show thesis by simp
  next
    case (Ok b1 tr)
    from that [OF Ok(7)] show thesis .
  qed
qed

theorem expiry_exact_witness:
  "\<exists>tr b'. apply_expiry sample_crypto sample_book 100 (OrderCommitment 2361) 2 = (Inr tr, b')
     \<and> unat (ex_released_quantity tr) = 3"
proof -
  obtain tr b' where r: "apply_expiry sample_crypto sample_book 100 (OrderCommitment 2361) 2 = (Inr tr, b')"
    by (rule sample_expiry)
  have "unat (ex_released_quantity tr) = 3"
    using expiry_exact [OF sample_book_reachable r] by (simp add: sample_book_fields sample_fields)
  with r show ?thesis by blast
qed

subsection \<open>The overflow of the expiry total\<close>

text \<open>C23. The one command that is not atomic: when the quantities of the expired orders sum to at least
  \<open>2 ^ 64\<close>, the expiry command returns the overflow error, but the orders before the overflowing
  addition are already gone from the book, while the sequence and the admitted set are unchanged.\<close>

theorem expiry_overflow_not_atomic:
  assumes "book_reachable E b" "seq = pb_sequence b + 1"
    and "c = expiry_commitment E (pb_market_id b) cutoff (expired_commitments b cutoff)" "c \<notin> admitted b"
    and "2 ^ 64 \<le> (\<Sum>r\<leftarrow>filter (\<lambda>r. rc r \<in> expired_set b cutoff) (orders b). unat (remaining r))"
  shows "\<exists>b1. apply_expiry E b cutoff c seq = (Inl (Invalid ''expired quantity overflowed''), b1)
    \<and> length (orders b1) < length (orders b) \<and> header b1 = header b"
proof -
  have ok: "book_ok E b" by (rule reachable_book_ok [OF assms(1)])
  have tot: "2 ^ 64 \<le> expired_total b (expired_set b cutoff)"
    using assms(5) unfolding expired_total_def .
  have "expired_commitments b cutoff \<noteq> []"
  proof
    assume "expired_commitments b cutoff = []"
    then have "expired_set b cutoff = {}" by (simp flip: set_expired_commitments)
    with tot show False by (simp add: expired_total_def)
  qed
  with assms(2-4) have rdy: "expiry_ready E b cutoff c seq" unfolding expiry_ready_def by blast
  from ok show ?thesis
  proof (cases rule: apply_expiry_cases [of E b cutoff c seq])
    case (Overflow b1 ds es)
    have "hd ds \<in> set ds" using Overflow(6) by simp
    moreover from this have "hd ds \<in> expired_set b cutoff"
      unfolding set_expired_commitments [symmetric] Overflow(3) by simp
    then obtain r where "hd ds = rc r" "r \<in> {r \<in> set (orders b). expires_at (secret r) < cutoff}"
      unfolding expired_set_def by (rule imageE)
    ultimately have "r \<in> set (orders b)" "rc r \<in> set ds" by simp_all
    then have "length (orders b1) < length (orders b)"
      unfolding orders_removed_orders [OF Overflow(5)] by (intro length_filter_less) simp_all
    with Overflow(5,7) show ?thesis by (simp add: orders_removed_def)
  next
    case (Err e)
    with rdy show ?thesis by blast
  next
    case (Ok b1 tr)
    with tot show ?thesis by linarith
  qed
qed

definition big_ask :: "Digest32 \<Rightarrow> SecretOrder" where
  "big_ask n = (sample_order Sell 10 3 GoodTilCancelled n)\<lparr>quantity := 2 ^ 63, reservation_limit := 2 ^ 63\<rparr>"

definition big_record :: "Digest32 \<Rightarrow> u64 \<Rightarrow> RestingOrder" where
  "big_record n seq = \<lparr>secret = big_ask n, authority = sample_authority (big_ask n), remaining = 2 ^ 63,
     ro_sequence = seq\<rparr>"

definition big_book :: PrivateBook where
  "big_book = \<lparr>pb_market_id = [65], pb_sequence = 2, bids = [], asks = [(10, [big_record 5 1, big_record 6 2])],
     admitted = {OrderCommitment 2564, OrderCommitment 2569}\<rparr>"

lemma big_fields:
  "market_id (big_ask n) = [65]" "side (big_ask n) = Sell" "limit_price (big_ask n) = 10"
  "quantity (big_ask n) = 2 ^ 63" "time_in_force (big_ask n) = GoodTilCancelled" "expires_at (big_ask n) = 99"
  by (simp_all add: big_ask_def sample_order_def)

lemma big_commitments:
  "oa_commitment (sample_authority (big_ask 5)) = OrderCommitment 2564"
  "oa_commitment (sample_authority (big_ask 6)) = OrderCommitment 2569"
  by (simp_all add: sample_authority_ok(2) big_fields)
     (simp_all add: big_ask_def sample_commitment_simps)

lemma big_ask_ok: "n \<noteq> 0 \<Longrightarrow> order_ok (big_ask n)"
  by (simp add: order_ok_def big_ask_def sample_order_def is_multiple_of_def)

lemma big_book_reachable: "book_reachable sample_crypto big_book"
proof -
  let ?b = "\<lparr>pb_market_id = [65], pb_sequence = 1, bids = [], asks = [(10, [big_record 5 1])],
     admitted = {OrderCommitment 2564}\<rparr>"
  note ev = run_command_def insert_resting_def sample_authority_ok(3) big_fields check_admission_def
    admit_def insert_record_def btree_upsert_def btree_get_def big_commitments big_record_def
  have "run_command sample_crypto sample_empty 1 (InsertResting (big_ask 5) (sample_authority (big_ask 5)) 50)
      = (Inr (), ?b)"
    by (simp add: ev sample_empty_def)
  from reachable_step_ok [OF sample_empty_reachable _ _ this] have b: "book_reachable sample_crypto ?b"
    by (simp add: command_ok_def big_ask_ok sample_empty_def u64_max_def)
  have "run_command sample_crypto ?b 2 (InsertResting (big_ask 6) (sample_authority (big_ask 6)) 50)
      = (Inr (), big_book)"
    by (simp add: ev big_book_def insert_commute)
  from reachable_step_ok [OF b _ _ this] show ?thesis
    by (simp add: command_ok_def big_ask_ok u64_max_def)
qed

theorem expiry_overflow_not_atomic_witness:
  "\<exists>b1. apply_expiry sample_crypto big_book 100
      (expiry_commitment sample_crypto [65] 100 (expired_commitments big_book 100)) 3
        = (Inl (Invalid ''expired quantity overflowed''), b1)
    \<and> length (orders b1) < 2"
proof -
  have o2: "orders big_book = [big_record 5 1, big_record 6 2]" "pb_market_id big_book = [65]"
    "pb_sequence big_book = 2" "admitted big_book = {OrderCommitment 2564, OrderCommitment 2569}"
    by (simp_all add: big_book_def orders_def)
  have r: "rc (big_record 5 1) = OrderCommitment 2564" "rc (big_record 6 2) = OrderCommitment 2569"
    "remaining (big_record n s) = 2 ^ 63" "expires_at (secret (big_record n s)) = 99" for n s
    by (simp_all add: big_record_def big_commitments big_fields)
  have e: "expired_set big_book 100 = {OrderCommitment 2564, OrderCommitment 2569}"
  proof -
    have "{x \<in> set (orders big_book). expires_at (secret x) < 100} = {big_record 5 1, big_record 6 2}"
      by (auto simp: o2 r)
    then show ?thesis by (simp add: expired_set_def r)
  qed
  have "expired_commitments big_book 100 = [OrderCommitment 2564, OrderCommitment 2569]"
    by (simp add: expired_commitments_def o2(1) [unfolded orders_def] r less_eq_OrderCommitment_def)
  then have "expiry_commitment sample_crypto [65] 100 (expired_commitments big_book 100) = OrderCommitment 2144"
    by (simp add: expiry_commitment_def expiry_preimage_def sample_sha256 to_be_bytes_def be_bytes_numeral
        bytes_of_def put_bytes_def less_eq_OrderCommitment_def)
  then show ?thesis
    using expiry_overflow_not_atomic [OF big_book_reachable, of 3
        "expiry_commitment sample_crypto [65] 100 (expired_commitments big_book 100)" 100]
    by (auto simp: o2 e r)
qed

section \<open>The book is a sequenced ledger\<close>

definition book_accepts :: "crypto \<Rightarrow> PrivateBook \<Rightarrow> OrderCommitment \<Rightarrow> PrivateBook \<Rightarrow> bool" where
  "book_accepts E b c b' \<longleftrightarrow>
     (\<exists>seq cmd. command_ok cmd \<and> pb_sequence b \<noteq> u64_max \<and> command_id E cmd = c
        \<and> run_command E b seq cmd = (Inr (), b'))"

lemma rest_arriving_header [simp]:
  "pb_sequence (rest_arriving ord a seq left b) = pb_sequence b"
  "admitted (rest_arriving ord a seq left b) = admitted b"
  by (cases "side ord"; simp add: rest_arriving_def insert_record_def Let_def)+

lemma insert_record_header [simp]:
  "pb_sequence (insert_record r b) = pb_sequence b" "admitted (insert_record r b) = admitted b"
  by (cases "side (secret r)"; simp add: insert_record_def Let_def)+

lemma accepted_id:
  assumes "accepted E b ord a seq now" "b' = admit (oa_commitment a) seq b2" "admitted b2 = admitted b"
  shows "oa_commitment a \<notin> admitted b \<and> admitted b' = insert (oa_commitment a) (admitted b)
    \<and> seq = pb_sequence b + 1 \<and> pb_sequence b' = seq"
  using assms by (simp add: accepted_def check_admission_ok)

lemma run_command_accepted:
  assumes ok: "book_ok E b" and r: "run_command E b seq cmd = (Inr (), b')"
  shows "command_id E cmd \<notin> admitted b \<and> admitted b' = insert (command_id E cmd) (admitted b)
    \<and> seq = pb_sequence b + 1 \<and> pb_sequence b' = seq"
proof (cases cmd)
  case (InsertResting ord a now)
  show ?thesis
  proof (cases rule: insert_resting_cases [of E b ord a seq now])
    case Ok
    have "b' = admit (oa_commitment a) seq
        (insert_record \<lparr>secret = ord, authority = a, remaining = quantity ord, ro_sequence = seq\<rparr> b)"
      using r InsertResting Ok(3) by (simp add: run_command_def)
    from accepted_id [OF Ok(1) this insert_record_header(2)]
    have "oa_commitment a \<notin> admitted b \<and> admitted b' = insert (oa_commitment a) (admitted b)
        \<and> seq = pb_sequence b + 1 \<and> pb_sequence b' = seq" .
    then show ?thesis by (simp add: InsertResting command_id_def)
  qed (use InsertResting r in \<open>simp add: run_command_def\<close>)
next
  case (MatchOne ord a now res)
  from ok show ?thesis
  proof (cases rule: apply_mpc_result_cases [of E b ord a seq now res])
    case (Ok b1 tr)
    have h: "admitted b1 = admitted b" using Ok(3) headerD [of b1 b] by (simp add: fills_applied_def)
    have "b' = admit (oa_commitment a) seq (rest_arriving ord a seq (mm_arriving_remaining res) b1)"
      using r MatchOne Ok(6) by (simp add: run_command_def)
    from accepted_id [OF Ok(1) this] show ?thesis by (simp add: MatchOne command_id_def h)
  qed (use MatchOne r in \<open>simp add: run_command_def\<close>)
next
  case (MatchBatch ord a now res)
  from ok show ?thesis
  proof (cases rule: apply_mpc_batch_result_cases [of E b ord a seq now res])
    case (Ok b1 tr)
    have h: "admitted b1 = admitted b" using Ok(3) headerD [of b1 b] by (simp add: fills_applied_def)
    have "b' = admit (oa_commitment a) seq (rest_arriving ord a seq (arriving_remaining res) b1)"
      using r MatchBatch Ok(7) by (simp add: run_command_def)
    from accepted_id [OF Ok(1) this] show ?thesis by (simp add: MatchBatch command_id_def h)
  qed (use MatchBatch r in \<open>simp add: run_command_def\<close>)
next
  case (Cancel k)
  from ok show ?thesis
  proof (cases rule: apply_cancellation_cases [of E b k seq])
    case (Ok x b1 tr)
    have h: "admitted b1 = admitted b" using Ok(6) headerD [of b1 b] by (simp add: orders_removed_def)
    have b': "b' = admit (SecretCancellation_commitment E k) seq b1"
      using r Cancel Ok(10) by (simp add: run_command_def)
    show ?thesis using Ok(1,2) by (simp add: Cancel command_id_def b' h)
  qed (use Cancel r in \<open>simp add: run_command_def\<close>)
next
  case (Expire cutoff c)
  from ok show ?thesis
  proof (cases rule: apply_expiry_cases [of E b cutoff c seq])
    case (Ok b1 tr)
    have h: "admitted b1 = admitted b" using Ok(3) headerD [of b1 b] by (simp add: orders_removed_def)
    have b': "b' = admit c seq b1" using r Expire Ok(7) by (simp add: run_command_def)
    have "seq = pb_sequence b + 1" "c \<notin> admitted b" using Ok(1) unfolding expiry_ready_def by blast+
    then show ?thesis by (simp add: Expire command_id_def b' h)
  qed (use Expire r in \<open>simp_all add: run_command_def\<close>)
qed

lemma book_acceptsD:
  assumes "book_ok E b" "book_accepts E b c b'"
  shows "c \<notin> admitted b" "admitted b' = insert c (admitted b)" "pb_sequence b' = pb_sequence b + 1" "book_ok E b'"
proof -
  from assms(2) obtain seq cmd where cmd: "command_ok cmd" "pb_sequence b \<noteq> u64_max" "command_id E cmd = c"
    and r: "run_command E b seq cmd = (Inr (), b')" unfolding book_accepts_def by blast
  from run_command_accepted [OF assms(1) r] cmd(3)
  show "c \<notin> admitted b" "admitted b' = insert c (admitted b)" "pb_sequence b' = pb_sequence b + 1"
    by simp_all
  from run_command_ok [OF assms(1) cmd(1,2), of seq] show "book_ok E b'" by (simp add: r)
qed

interpretation ledger: sequenced_ledger "book_accepts E" admitted pb_sequence "book_ok E" for E
  by unfold_locales (rule book_acceptsD, assumption+)+

text \<open>C20. No command is ever accepted twice: once a command is accepted, every command with the same
  commitment is refused in every later state; and along any run of accepted commands the commitments are
  pairwise different and the sequence grows by exactly the number of commands.\<close>

theorem book_never_replays:
  assumes "book_reachable E b" "book_accepts E b c b1" "sequenced_ledger.run (book_accepts E) b1 cs b2"
  shows "\<not> book_accepts E b2 c b3 \<and> distinct (c # cs) \<and> set (c # cs) \<inter> admitted b = {}
    \<and> pb_sequence b2 = pb_sequence b + 1 + of_nat (length cs)"
proof -
  have ok: "book_ok E b" by (rule reachable_book_ok [OF assms(1)])
  have run: "sequenced_ledger.run (book_accepts E) b (c # cs) b2"
    by (rule ledger.run_cons [OF assms(2,3)])
  show ?thesis
    using ledger.no_replay [OF ok assms(2,3)] ledger.run_fresh [OF run ok] ledger.run_seqno [OF run ok]
    by (simp add: add.assoc)
qed

theorem book_never_replays_witness:
  "\<nexists>b3. book_accepts sample_crypto sample_book (OrderCommitment 2546) b3"
proof -
  have "pb_sequence sample_empty \<noteq> u64_max" by (simp add: sample_empty_def u64_max_def)
  then
  have "book_accepts sample_crypto sample_empty (OrderCommitment 2546) sample_book"
    unfolding book_accepts_def
    by (intro exI [of _ 1] exI [of _ "InsertResting sample_ask (sample_authority sample_ask) 50"])
       (simp add: sample_insert command_ok_def sample_orders_ok command_id_def sample_commitments)
  from book_never_replays [OF sample_empty_reachable this ledger.run_nil] show ?thesis by blast
qed

end
