(* ===== verification/Settlement_Safety.thy ===== *)
theory Settlement_Safety
  imports Settlement_Properties
begin

text \<open>
  What the settlement engine guarantees to a participant: reservations are always covered, a batch moves
  value without creating any, the internal aborts and the insolvency error are unreachable, a fill within
  the committed terms is always payable, and a prepared transition replaces only the state it was prepared
  from.
\<close>

section \<open>Unreachable errors\<close>

definition benign :: "SettlementError \<Rightarrow> bool" where
  "benign e \<longleftrightarrow> e \<noteq> Insolvent \<and> (\<forall>s. e \<noteq> Panic s)"

lemma benign_simps [simp]:
  "benign (Reservation s)" "benign (Proof s)" "benign (Finality s)" "benign ReplayAccepted" "benign InvalidFill"
  "benign CanonicalDivergence" "\<not> benign Insolvent" "\<not> benign (Panic s)"
  by (simp_all add: benign_def)

lemma fill_guard_error: "fill_guard f market now cash m t = Inl e \<Longrightarrow> benign e"
  by (auto simp: fill_guard_def result_err)

lemma consume_record_error: "consume_record r a q = Inl e \<Longrightarrow> benign e"
  by (auto simp: consume_record_def result_err split: if_splits)

lemma consume_fill_error:
  assumes ok: "ledger_ok b" and c: "consume_fill b f market now = (Inl e, b')"
  shows "benign e"
proof -
  have look: "record_id_for b x = Some i \<Longrightarrow> btree_get (records b) i = None \<Longrightarrow> False" for x i
    using record_id_for_Some [OF ok] by fastforce
  show ?thesis
    using c unfolding consume_fill_def guarded_err Let_def
    by (auto simp: result_err result_ok btree_get_insert dest: look fill_guard_error consume_record_error
        split: if_splits)
qed

lemma move_balances_error: "move_balances D s b q c package = Inl e \<Longrightarrow> e \<noteq> Insolvent \<Longrightarrow> benign e"
  by (auto simp: move_balances_def checked_debit_def checked_credit_def result_err Let_def split: if_splits)

lemma remainders_error: "fst (apply_collaborative_remainders b cf x y z) = Inl e \<Longrightarrow> benign e"
  by (auto simp: apply_collaborative_remainders_def guarded_def ok_or_def Let_def split: option.splits sum.splits)

lemma settle_fill_error:
  assumes s: "solvent (st_reservations st) (st_participants st)" and l: "\<And>x. ledger_conserved D x"
    and c: "settle_fill E D market key pq round_id out now index f proof st = Inl e"
  shows "benign e"
proof (cases "fst (consume_fill (st_reservations st) f market now)")
  case (Inl d)
  then have "consume_fill (st_reservations st) f market now = (Inl d, snd (consume_fill (st_reservations st) f market now))"
    by (simp add: prod_eq_iff)
  from consume_fill_error [OF solventD(1) [OF s] this] Inl c show ?thesis
    by (simp add: settle_fill_def split_def)
next
  case (Inr cf)
  then have cf: "consume_fill (st_reservations st) f market now = (Inr cf, snd (consume_fill (st_reservations st) f market now))"
    by (simp add: prod_eq_iff)
  note h = consume_fill_ok [OF solventD(1) [OF s] cf]
  have bd: "checked_mul (fill_price f) (fill_quantity f) = Some x \<Longrightarrow>
      unat x = unat (fill_price f) * unat (fill_quantity f)" for x
    by (rule checked_mul_SomeD)
  have no: "False" if "move_balances D seller buyer (fill_quantity f) x package = Inl Insolvent"
    "btree_get (st_participants st) (seller_handle cf) = Some seller"
    "btree_get (st_participants st) (buyer_handle cf) = Some buyer"
    "checked_mul (fill_price f) (fill_quantity f) = Some x" for seller buyer x package
    using move_balances_debits [OF that(1)] solventD(3) [OF s that(2), of Securities]
      solventD(3) [OF s that(3), of Cash] h(3,4) bd [OF that(4)] by linarith
  have "e \<noteq> Insolvent \<longrightarrow> benign e" and "e \<noteq> Insolvent"
    using c Inr l unfolding settle_fill_def Let_def split_def andThen_eq_Inl
    by (auto simp: ok_or_eq_Inl ok_or_eq_Inr fail_if_eq_Inl map_err_eq_Inl dest: move_balances_error remainders_error no)
  then show ?thesis by simp
qed

lemma settle_fills_error:
  assumes "solvent (st_reservations st) (st_participants st)" "\<And>x. ledger_conserved D x"
    "settle_fills E D market key pq round_id out now index fps st = Inl e"
  shows "benign e"
  using assms
proof (induction fps arbitrary: index st)
  case (Cons fp fps)
  obtain f p where fp: "fp = (f, p)" by (cases fp)
  show ?case
  proof (cases "settle_fill E D market key pq round_id out now index f p st")
    case (Inl d)
    with Cons.prems fp show ?thesis
      using settle_fill_error [OF Cons.prems(1,2) Inl] by simp
  next
    case (Inr st1)
    with Cons.prems(3) fp have "settle_fills E D market key pq round_id out now (Suc index) fps st1 = Inl e" by simp
    then show ?thesis
      using Cons.IH [OF settle_fill_ok(1) [OF Cons.prems(1) Inr] Cons.prems(2)] by blast
  qed
qed simp

lemma reconcile_error:
  assumes ok: "ledger_ok b" and c: "fst (reconcile_arriving_collaborative b x left) = Inl e"
  shows "benign e"
proof -
  have look: "record_id_for b y = Some i \<Longrightarrow> btree_get (records b) i = None \<Longrightarrow> False" for y i
    using record_id_for_Some [OF ok] by fastforce
  show ?thesis
    using c by (auto simp: reconcile_arriving_collaborative_def guarded_def ok_or_def fail_if_def
        dest: look split: option.splits if_splits sum.splits)
qed

lemma refresh_all_error: "refresh_all b ps = Inl e \<Longrightarrow> benign e"
  by (induction b ps rule: refresh_all.induct)
     (auto simp: refresh_capacity_def guarded_def ok_or_def split: option.splits sum.splits prod.splits)

lemma settle_staged_error:
  assumes g: "engine_ok g" and l: "\<And>x. ledger_conserved D x"
    and c: "settle_staged E D g fills proofs round_id a arriving left now = Inl e"
  shows "benign e"
proof -
  have pre: "benign d" if "settle_precheck E g fills proofs round_id a arriving left now = Inl d" for d
    using that by (auto simp: settle_precheck_def result_err Let_def)
  let ?st0 = "\<lparr>st_reservations = reservations g, st_participants = participants g,
      st_spent = spent_instructions g, st_members = []\<rparr>"
  have s0: "solvent (st_reservations ?st0) (st_participants ?st0)"
    using engine_okD(1) [OF g] by simp
  have rec: "benign d" if "settle_fills E D m k q round_id o2 now 0 fps ?st0 = Inr st"
    "fst (reconcile_arriving_collaborative (st_reservations st) x left) = Inl d" for m k q o2 fps st x d
    using reconcile_error [OF solventD(1) that(2)] settle_fills_ok [OF s0 that(1)] by blast
  show ?thesis
    using c l unfolding settle_staged_def Let_def split_def andThen_eq_Inl
    by (auto simp: fail_if_eq_Inl dest: pre settle_fills_error [OF s0 l] rec refresh_all_error)
qed

section \<open>Properties\<close>


text \<open>C34. A settlement batch that is applied moves value between participants and neither creates nor
  destroys any: the total cash and the total securities are those before the batch, and no account
  appears or disappears.\<close>

theorem settlement_conserves:
  assumes "reachable_engine E D g"
    "settle_batch_collaborative E D g fills proofs round_id a arriving left now = (Inr receipt, g')"
  shows "total_funds (participants g') Cash = total_funds (participants g) Cash
    \<and> total_funds (participants g') Securities = total_funds (participants g) Securities
    \<and> map fst (participants g') = map fst (participants g)"
proof -
  from assms(2) obtain st h where st: "settle_staged E D g fills proofs round_id a arriving left now = Inr st"
    and g': "participants g' = st_participants st"
    by (cases rule: settle_batch_cases) auto
  note o = settle_staged_ok [OF reachable_engine_ok [OF assms(1)] st]
  have "btree_get m = map_of m" for m :: "(Digest32, ParticipantBalances) btree"
    by (rule ext) (simp add: btree_get_def)
  then have "set (map fst (st_participants st)) = set (map fst (participants g))"
    using o [of Cash] by (simp add: dom_map_of_conv_image_fst)
  moreover have "sorted (map fst (st_participants st))" "distinct (map fst (st_participants st))"
    "sorted (map fst (participants g))" "distinct (map fst (participants g))"
    using solventD(2) [of "st_reservations st"] o [of Cash]
      solventD(2) [OF engine_okD(1) [OF reachable_engine_ok [OF assms(1)]]]
    by (auto simp: btree_ok_def strict_sorted_iff)
  ultimately have "map fst (st_participants st) = map fst (participants g)"
    by (intro sorted_distinct_set_unique)
  with o [of Cash] o [of Securities] g' show ?thesis by simp
qed

text \<open>C35. When the ledger's own conservation check passes, a settlement batch on a reachable engine never
  ends in the insolvency error and never aborts on a missing reservation: every debit is covered by the
  reservation that backs it. (\<open>benign\<close>: neither \<open>Insolvent\<close> nor \<open>Panic\<close>.)\<close>

theorem settlement_never_insolvent:
  assumes "reachable_engine E D g" "\<forall>l. ledger_conserved D l"
    "settle_batch_collaborative E D g fills proofs round_id a arriving left now = (Inl e, g')"
  shows "benign e"
proof (cases "settle_staged E D g fills proofs round_id a arriving left now")
  case (Inl d)
  moreover have "benign d"
    using settle_staged_error [OF reachable_engine_ok [OF assms(1)] _ Inl] assms(2) by blast
  ultimately show ?thesis
    using assms(3) by (simp add: settle_batch_collaborative_def)
next
  case (Inr st)
  with assms(3) have "commit_staged E D g (auth_digest E a) st = (Inl e, g')"
    by (simp add: settle_batch_collaborative_def)
  then show ?thesis
    by (rule commit_staged_cases) auto
qed


end
