(* ===== verification/Canonical_Safety.thy ===== *)
theory Canonical_Safety
  imports Settlement_Safety Local_Settlement
begin

text \<open>
  The two-phase protocol around the canonical chain. A prepared transition records the snapshot it was
  prepared from and always changes the reservation root, so accepting one makes every other transition
  prepared from the same snapshot stale.
\<close>

section \<open>Account deltas\<close>

lemma account_delta_changes:
  "canonical_account_deltas xs ys = Inr ds \<Longrightarrow> d \<in> set ds \<Longrightarrow> ad_before_commitment d \<noteq> ad_after_commitment d"
  by (induction xs ys arbitrary: ds rule: canonical_account_deltas.induct)
     (auto simp: andThen_eq_Inr split: if_splits)

section \<open>Prepared transitions\<close>

fun base_of :: "PreparedCanonicalTransition \<Rightarrow> SettlementStateSnapshot" where
  "base_of (PreparedReservation p) = pcr_base_snapshot p"
| "base_of (PreparedSettlement p) = pcb_base_snapshot p"

inductive prepared_from :: "crypto \<Rightarrow> defmi \<Rightarrow> SettlementEngine \<Rightarrow> PreparedCanonicalTransition \<Rightarrow> bool" for E D g where
  reservation: "prepare_canonical_reservation E D issue g candidate receipt v t a now = Inr p \<Longrightarrow> prepared_from E D g p"
| admission: "prepare_canonical_admission_batch_collaborative E D issue g reserved receipt fills proofs round_id a t v
    left now = Inr p \<Longrightarrow> prepared_from E D g p"
| local_admission: "prepare_canonical_admission_batch E D K rnd issue g reserved receipt fills a t v left now = Inr p
    \<Longrightarrow> prepared_from E D g p"

inductive_cases prepared_fromE: "prepared_from E D g p"

definition reservation_root :: "crypto \<Rightarrow> SettlementEngine \<Rightarrow> Digest32" where
  "reservation_root E g = ReservationBook_root E (reservations g)"

lemma snapshot_root: "ss_reservation_root (state_snapshot E D g) = reservation_root E g"
  by (simp add: state_snapshot_def reservation_root_def split_def Let_def)

lemma prepared_reservation:
  assumes "prepare_canonical_reservation E D issue g candidate receipt v t a now = Inr p"
  shows "base_of p = state_snapshot E D g \<and> candidate_of p = candidate
    \<and> reservation_root E candidate \<noteq> reservation_root E g"
proof -
  from assms obtain xs ys ds where ds: "canonical_account_deltas xs ys = Inr ds"
    and b: "map ad_before_commitment ds = [ss_reservation_root (state_snapshot E D g)]"
    and a: "map ad_after_commitment ds = [ss_reservation_root (state_snapshot E D candidate)]"
    and p: "base_of p = state_snapshot E D g" "candidate_of p = candidate"
    by (auto simp: prepare_canonical_reservation_def result_ok Let_def split_def)
  from b obtain d where d: "ds = [d]" by (cases ds; cases "tl ds") auto
  with account_delta_changes [OF ds, of d] a b p show ?thesis
    by (simp add: snapshot_root)
qed

definition records_root :: "crypto \<Rightarrow> (SettlementError + OclobSettlementReceipt) \<times> SettlementEngine \<Rightarrow> bool" where
  "records_root E out \<longleftrightarrow> (\<forall>receipt g'. out = (Inr receipt, g') \<longrightarrow> sr_reservation_after_root receipt = reservation_root E g')"

lemma commit_staged_root: "records_root E (guarded x g (\<lambda>st. commit_staged E D g d st))"
  by (auto simp: records_root_def commit_staged_def guarded_ok settlement_receipt_def reservation_root_def
      Let_def split_def)

lemma settled_root:
  "records_root E (settle_batch_collaborative E D g fills proofs round_id a arriving left now)"
  "records_root E (settle_batch E D K rnd g fills a v left now)"
  unfolding settle_batch_collaborative_def settle_batch_def by (rule commit_staged_root)+

lemma prepared_batch:
  assumes "prepare_settled E D g a v now out = Inr p" "records_root E out"
  shows "sr_reservation_after_root (pcb_receipt p) = reservation_root E (pcb_candidate p)"
proof -
  from assms(1) obtain receipt where r: "fst out = Inr receipt" and p: "pcb_receipt p = receipt" "pcb_candidate p = snd out"
    by (auto simp: prepare_settled_def result_ok Let_def split_def)
  have "out = (Inr receipt, snd out)" using r by (simp add: prod_eq_iff)
  with assms(2) p show ?thesis by (simp add: records_root_def)
qed

lemma rebase_batch_fields:
  "pcb_base_snapshot (rebase_batch E l1 l2 base os ds rz v p) = base"
  "pcb_candidate (rebase_batch E l1 l2 base os ds rz v p) = pcb_candidate p"
  by (simp_all add: rebase_batch_def Let_def split_def)

lemma prepared_admission:
  assumes "prepare_admission E D issue l1 l2 g reserved receipt fills a t v now prepared = Inr p"
    and r: "\<And>p0. prepared = Inr p0 \<Longrightarrow> sr_reservation_after_root (pcb_receipt p0) = reservation_root E (pcb_candidate p0)"
  shows "base_of p = state_snapshot E D g \<and> reservation_root E (candidate_of p) \<noteq> reservation_root E g"
proof -
  from assms(1) obtain p0 xs ys ds os rz where
    p0: "prepared = Inr p0"
    and ds: "canonical_account_deltas xs ys = Inr ds"
    and d: "list_ex (\<lambda>d. ad_handle d = canonical_reservation_state_handle E (settlement_market_id v)
          \<and> ad_asset_id d = canonical_reservation_state_asset_id E (settlement_market_id v)
          \<and> ad_before_commitment d = ss_reservation_root (state_snapshot E D g)
          \<and> ad_after_commitment d = sr_reservation_after_root (pcb_receipt p0)) ds"
    and p: "p = PreparedSettlement (rebase_batch E l1 l2 (state_snapshot E D g) os ds rz v p0)"
    unfolding prepare_admission_def Let_def split_def andThen_eq_Inr
    by (auto simp: fail_if_eq_Inr)
  from d obtain x where "x \<in> set ds" "ad_before_commitment x = ss_reservation_root (state_snapshot E D g)"
    "ad_after_commitment x = sr_reservation_after_root (pcb_receipt p0)"
    by (auto simp: list_ex_iff)
  with account_delta_changes [OF ds, of x] r [OF p0] show ?thesis
    by (simp add: p rebase_batch_fields snapshot_root)
qed

lemma prepared_admission_collaborative:
  assumes "prepare_canonical_admission_batch_collaborative E D issue g reserved receipt fills proofs round_id a t v
    left now = Inr p"
  shows "base_of p = state_snapshot E D g \<and> reservation_root E (candidate_of p) \<noteq> reservation_root E g"
  using assms unfolding prepare_canonical_admission_batch_collaborative_def prepare_canonical_batch_collaborative_def
  by (rule prepared_admission) (rule prepared_batch [OF _ settled_root(1)])

lemma prepared_admission_local:
  assumes "prepare_canonical_admission_batch E D K rnd issue g reserved receipt fills a t v left now = Inr p"
  shows "base_of p = state_snapshot E D g \<and> reservation_root E (candidate_of p) \<noteq> reservation_root E g"
  using assms unfolding prepare_canonical_admission_batch_def prepare_canonical_batch_def
  by (rule prepared_admission) (rule prepared_batch [OF _ settled_root(2)])

lemma prepared_from_changes:
  assumes "prepared_from E D g p"
  shows "base_of p = state_snapshot E D g \<and> reservation_root E (candidate_of p) \<noteq> reservation_root E g"
  using assms
  by (elim prepared_fromE)
     (use prepared_reservation prepared_admission_collaborative prepared_admission_local in metis)+

lemma accept_cases:
  "canonical_accept E D p g x =
     (if state_snapshot E D g \<noteq> base_of p then (Inl CanonicalDivergence, g)
      else case p of
        PreparedReservation q \<Rightarrow> (case verify_acceptance x (pcr_application_binding q) (pcr_binding_digest q) of
            Inl e \<Rightarrow> (Inl e, g)
          | Inr _ \<Rightarrow> (map_sum id AppliedReservation (fst (reservation_accept E D q g x)),
                      (candidate_of p)\<lparr>se_height := sa_height x\<rparr>))
      | PreparedSettlement q \<Rightarrow> (case verify_acceptance x (pcb_application_binding q) (pcb_binding_digest q) of
            Inl e \<Rightarrow> (Inl e, g)
          | Inr _ \<Rightarrow> (map_sum id AppliedSettlement (fst (batch_accept E D q g x)),
                      (candidate_of p)\<lparr>se_height := sa_height x\<rparr>)))"
  by (cases p) (auto simp: canonical_accept_def reservation_accept_def batch_accept_def split: sum.split)


end
