(* ===== verification/Service_Invariant.thy ===== *)
theory Service_Invariant
  imports Service Open_Orders Book_Properties Ordering_Log Canonical_Safety
begin

text \<open>
  The invariant of the service over all its operations, failed ones included. The book and the reservation
  ledger know the same open orders with the same quantities, the book and the ordering log have admitted the
  same commands under the same sequence, and each component keeps its own invariant.
\<close>

section \<open>The invariant\<close>

definition lockstep :: "rust_str \<Rightarrow> PrivateBook \<Rightarrow> OrderingCommittee \<Rightarrow> bool" where
  "lockstep market b oc \<longleftrightarrow> pb_market_id b = market
     \<and> pb_sequence b = of_nat (length (certificates (oc_log oc))) \<and> admitted b = log_commitments (oc_log oc)"

definition service_ok :: "crypto \<Rightarrow> rust_str \<Rightarrow> 'l OclobService \<Rightarrow> bool" where
  "service_ok E market sv \<longleftrightarrow> sv_market_id sv = market \<and> book_ok E (sv_book sv)
     \<and> ledger_ok (reservations (sv_settlement sv)) \<and> lockstep market (sv_book sv) (sv_ordering sv)
     \<and> book_open (sv_book sv) = active_open (reservations (sv_settlement sv))"

lemma service_okD:
  assumes "service_ok E market sv"
  shows "sv_market_id sv = market" "book_ok E (sv_book sv)" "ledger_ok (reservations (sv_settlement sv))"
    "lockstep market (sv_book sv) (sv_ordering sv)"
    "book_open (sv_book sv) = active_open (reservations (sv_settlement sv))"
  using assms unfolding service_ok_def by blast+

lemma service_ok_mpc [simp]: "service_ok E market (sv\<lparr>sv_mpc := rn\<rparr>) = service_ok E market sv"
  by (simp add: service_ok_def)

lemma certify_success:
  assumes "certify E oc market c expires now = (Inr t, oc')"
  shows "ct_sequence t = of_nat (length (certificates (oc_log oc))) + 1" "ct_commitment t = c"
    "ct_market_id t = market"
    "certificates (oc_log oc') = certificates (oc_log oc) @ [t]"
    "log_commitments (oc_log oc') = insert c (log_commitments (oc_log oc))"
    "c \<notin> log_commitments (oc_log oc)" "ct_sequence t \<noteq> 0"
    "oc_keys oc' = oc_keys oc" "oc_policy oc' = oc_policy oc"
  using assms
  by (auto simp: certify_def log_contains_def log_append_def guarded_ok next_sequence_def Let_def
      OrderCertificate_verify_def andThen_eq_Inr statement_malformed_def split: if_splits prod.splits sum.splits)

lemma lockstep_step:
  assumes "lockstep market b oc" "certify E oc market c expires now = (Inr t, oc')"
    and "pb_market_id b' = pb_market_id b" "pb_sequence b' = pb_sequence b + 1" "admitted b' = insert c (admitted b)"
  shows "lockstep market b' oc'"
  using assms(1,3-5) certify_success [OF assms(2)] by (simp add: lockstep_def)

text \<open>The certificate the committee issues always carries the book's next sequence, which has not run out.\<close>

lemma lockstep_next:
  assumes "lockstep market b oc" "certify E oc market c expires now = (Inr t, oc')"
  shows "ct_sequence t = pb_sequence b + 1" "pb_sequence b \<noteq> u64_max" "c \<notin> admitted b"
proof -
  note c = certify_success [OF assms(2)]
  show s: "ct_sequence t = pb_sequence b + 1" and "c \<notin> admitted b"
    using c(1,6) assms(1) by (simp_all add: lockstep_def)
  have "u64_max + 1 = (0::u64)" by (simp add: u64_max_def)
  with s c(7) show "pb_sequence b \<noteq> u64_max" by auto
qed

section \<open>Construction\<close>

lemma service_new_ok:
  assumes "OclobService_new E commit first second scalars market compiled eligibility = Inr sv"
  shows "service_ok E market sv"
proof -
  from assms obtain engine book committee runner where
    e: "SettlementEngine_new E commit first second scalars = Inr engine" and b: "PrivateBook_new market = Inr book"
    and c: "deterministic_for_demo E = Inr committee"
    and sv: "sv_book sv = book" "sv_settlement sv = engine" "sv_ordering sv = committee" "sv_market_id sv = market"
    by (auto simp: OclobService_new_def result_ok)
  from e obtain keys policy where "new_with_transition_committee E commit first second scalars keys policy = Inr engine"
    by (auto simp: SettlementEngine_new_def result_ok)
  then have r: "ledger_ok (reservations engine)" "reservations engine = ReservationBook_default"
    using fresh_engine_ok engine_okD(1) solventD(1)
    by (blast, auto simp: new_with_transition_committee_def result_ok Let_def split_def)
  have "active_open (reservations engine) = (\<lambda>_. None)"
    by (simp add: r(2) active_open_def record_id_for_def ReservationBook_default_def fun_eq_iff)
  moreover have "book_open book = (\<lambda>_. None)" "lockstep market book committee"
    using b c by (auto simp: PrivateBook_new_def book_open_def find_record_def lockstep_def deterministic_for_demo_def
        result_ok log_default_def split: if_splits)
  ultimately show ?thesis
    using r(1) PrivateBook_new_ok [OF b, of E] by (simp add: service_ok_def sv)
qed

section \<open>Cancellation and expiry\<close>

lemma release_order_engine_open:
  assumes "ledger_ok (reservations g)" "release_order E g c = (Inr x, g')"
  shows "ledger_ok (reservations g') \<and> active_open (reservations g') = (active_open (reservations g))(c := None)"
proof -
  from assms(2) obtain u rs where "ReservationBook_release_order (reservations g) c = (Inr u, rs)" "reservations g' = rs"
    by (cases "ReservationBook_release_order (reservations g) c") (auto simp: release_order_def guarded_ok Let_def)
  with release_open [OF assms(1)] show ?thesis by simp
qed

lemma release_batch_engine_open:
  assumes "ledger_ok (reservations g)" "release_orders_atomic E g cs = (Inr x, g')"
  shows "ledger_ok (reservations g') \<and> active_open (reservations g') =
    (\<lambda>c. if c \<in> set cs then None else active_open (reservations g) c)"
proof -
  from assms(2) obtain rs where "release_each (reservations g) cs = Inr rs" "reservations g' = rs"
    by (auto simp: release_orders_atomic_def guarded_ok Let_def)
  with release_each_open [OF assms(1)] show ?thesis by simp
qed

text \<open>A call on a staged copy whose error is returned at once.\<close>

lemma staged_call:
  "(case m of (r, s) \<Rightarrow> guarded (map_err f r) (s0 s) (k s)) = (Inr y, s') \<longleftrightarrow>
     (\<exists>x s. m = (Inr x, s) \<and> k s x = (Inr y, s'))"
  by (cases m) (auto simp: guarded_ok map_err_eq_Inr)

lemmas staged_simps = staged_call guarded_ok map_err_eq_Inr Let_def

lemma cancel_success:
  assumes "cancel E sv k now = (Inr x, sv')"
  obtains t oc tr b rel g where
    "certify E (sv_ordering sv) (sv_market_id sv) (SecretCancellation_commitment E k) (saturating_add now 60) now = (Inr t, oc)"
    "apply_cancellation E (sv_book sv) k (ct_sequence t) = (Inr tr, b)"
    "release_order E (sv_settlement sv) (commitment_bytes (sc_target k)) = (Inr rel, g)"
    "sv' = sv\<lparr>sv_book := b, sv_ordering := oc, sv_settlement := g\<rparr>"
  using assms unfolding cancel_def staged_simps by (elim exE conjE Pair_inject) (rule that, auto)

lemma eq_commit: "OrderCommitment x = c \<longleftrightarrow> x = commitment_bytes c"
  by (cases c) simp

lemma cancel_ok:
  assumes ok: "service_ok E market sv" and c: "cancel E sv k now = (Inr x, sv')"
  shows "service_ok E market sv'"
proof -
  obtain t oc tr b rel g where
    t: "certify E (sv_ordering sv) (sv_market_id sv) (SecretCancellation_commitment E k) (saturating_add now 60) now = (Inr t, oc)"
    and a: "apply_cancellation E (sv_book sv) k (ct_sequence t) = (Inr tr, b)"
    and r: "release_order E (sv_settlement sv) (commitment_bytes (sc_target k)) = (Inr rel, g)"
    and sv': "sv' = sv\<lparr>sv_book := b, sv_ordering := oc, sv_settlement := g\<rparr>"
    by (rule cancel_success [OF c])
  note o = service_okD [OF ok]
  note t' = t [unfolded o(1)]
  note n = lockstep_next [OF o(4) t']
  from o(2) show ?thesis
  proof (cases rule: apply_cancellation_cases [of E "sv_book sv" k "ct_sequence t"])
    case (Err e)
    with a show ?thesis by simp
  next
    case (Ok y b1 tr1)
    then have b: "b = admit (SecretCancellation_commitment E k) (pb_sequence (sv_book sv) + 1) b1"
      using a n(1) by simp
    have h: "header b1 = header (sv_book sv)" using Ok(6) by (simp add: orders_removed_def)
    have bk: "book_ok E b" unfolding b by (rule book_ok_after_removal [OF o(2) Ok(6) n(2)])
    have "lockstep market b oc"
      using lockstep_step [OF o(4) t', of b] headerD [OF h] by (simp add: b)
    moreover have "book_open b = (\<lambda>x. if OrderCommitment x \<in> {sc_target k} then None else book_open (sv_book sv) x)"
      using book_open_orders [of b1 b] book_open_removed [OF book_ok_sides [OF o(2)] Ok(6)] book_ok_sides [OF bk] Ok(6)
      by (simp add: b orders_removed_def)
    ultimately show ?thesis
      using bk release_order_engine_open [OF o(3) r] o(1,5)
      by (auto simp: service_ok_def sv' fun_eq_iff bytes_eq_iff eq_commit)
  qed
qed

lemma expire_success:
  assumes "expire_due E sv now = (Inr x, sv')"
  obtains "sv' = sv" "expired_commitments (sv_book sv) now = []" "x = None"
  | t oc tr b rel g where "expired_commitments (sv_book sv) now \<noteq> []"
    "certify E (sv_ordering sv) (sv_market_id sv)
       (expiry_commitment E (sv_market_id sv) now (expired_commitments (sv_book sv) now)) (saturating_add now 60) now = (Inr t, oc)"
    "apply_expiry E (sv_book sv) now (expiry_commitment E (sv_market_id sv) now (expired_commitments (sv_book sv) now))
       (ct_sequence t) = (Inr tr, b)"
    "release_orders_atomic E (sv_settlement sv) (map commitment_bytes (expired_commitments (sv_book sv) now)) = (Inr rel, g)"
    "sv' = sv\<lparr>sv_book := b, sv_ordering := oc, sv_settlement := g\<rparr>"
proof (cases "expired_commitments (sv_book sv) now = []")
  case True
  with assms that(1) show thesis by (simp add: expire_due_def)
next
  case False
  from assms show thesis
    unfolding expire_due_def Let_def if_not_P [OF False] staged_simps
    by (elim exE conjE Pair_inject) (rule that(2) [OF False], auto)
qed

lemma expire_ok:
  assumes ok: "service_ok E market sv" and c: "expire_due E sv now = (Inr x, sv')"
  shows "service_ok E market sv'"
  using c
proof (rule expire_success)
  assume "sv' = sv" with ok show ?thesis by simp
next
  let ?cs = "expired_commitments (sv_book sv) now"
  let ?c = "expiry_commitment E (sv_market_id sv) now ?cs"
  fix t oc tr b rel g
  assume t: "certify E (sv_ordering sv) (sv_market_id sv) ?c (saturating_add now 60) now = (Inr t, oc)"
    and a: "apply_expiry E (sv_book sv) now ?c (ct_sequence t) = (Inr tr, b)"
    and r: "release_orders_atomic E (sv_settlement sv) (map commitment_bytes ?cs) = (Inr rel, g)"
    and sv': "sv' = sv\<lparr>sv_book := b, sv_ordering := oc, sv_settlement := g\<rparr>"
  note o = service_okD [OF ok]
  note t' = t [unfolded o(1)] and a' = a [unfolded o(1)]
  note n = lockstep_next [OF o(4) t']
  from o(2) show ?thesis
  proof (cases rule: apply_expiry_cases [of E "sv_book sv" now ?c "ct_sequence t"])
    case (Ok b1 tr1)
    then have b: "b = admit ?c (pb_sequence (sv_book sv) + 1) b1" using a n(1) by simp
    have h: "header b1 = header (sv_book sv)" using Ok(3) by (simp add: orders_removed_def)
    have bk: "book_ok E b" unfolding b by (rule book_ok_after_removal [OF o(2) Ok(3) n(2)])
    have l: "lockstep market b oc"
      using lockstep_step [OF o(4) t', of b] headerD [OF h] by (simp add: b o(1))
    have bo: "book_open b = (\<lambda>x. if OrderCommitment x \<in> expired_set (sv_book sv) now then None else book_open (sv_book sv) x)"
      using book_open_orders [of b1 b] book_open_removed [OF book_ok_sides [OF o(2)] Ok(3)] book_ok_sides [OF bk] Ok(3)
      by (simp add: b orders_removed_def)
    have m: "x \<in> set (map commitment_bytes ?cs) \<longleftrightarrow> OrderCommitment x \<in> expired_set (sv_book sv) now" for x
      unfolding set_map set_expired_commitments by (force simp: bytes_eq_iff image_iff)
    show ?thesis
      using bk l release_batch_engine_open [OF o(3) r] o(1,5)
      unfolding service_ok_def sv' m by (simp add: bo cong: if_cong)
  qed (use a in simp_all)
qed

section \<open>A staged submission\<close>

text \<open>What staging has done when it succeeds: the open orders \<open>m\<close> of the live service, the reservation of the
  whole quantity in the staged ledger, the fills and the rest in the staged book.\<close>

definition staged_ok ::
  "crypto \<Rightarrow> rust_str \<Rightarrow> (Digest32 \<Rightarrow> u64 option) \<Rightarrow> ('l, 'p, 'v) StagedSubmission \<Rightarrow> bool" where
  "staged_ok E market m sg \<longleftrightarrow> (let ord = sg_settlement_order sg; c = commitment_bytes (commitment E ord);
       g = sg_settlement sg; tr = sg_book_transition sg in
     order_ok ord \<and> (\<forall>x. m x \<noteq> Some 0) \<and> m c = None
     \<and> ledger_ok (reservations g) \<and> has_terms (reservations g) (secret_order_view E ord)
     \<and> active_open (reservations g) = m(c \<mapsto> quantity ord)
     \<and> book_ok E (sg_book sg) \<and> lockstep market (sg_book sg) (sg_ordering sg)
     \<and> book_open (sg_book sg) = (after_trades (traded_bytes (bx_fills tr)) m)(c :=
         (if 0 < bx_arriving_remaining tr \<and> time_in_force ord = GoodTilCancelled
          then Some (bx_arriving_remaining tr) else None))
     \<and> (bx_fills tr = [] \<longrightarrow> time_in_force ord = GoodTilCancelled \<longrightarrow> bx_arriving_remaining tr = quantity ord))"

lemma stage_success:
  assumes "stage_with_assurance E N sv ord a evidence now assure = (Inr sg, sv')"
  obtains verified g1 receipt rn mpc where
    "OrderAuthority_verify E a ord now = Inr ()"
    "verify_order (en_dekyx N) (sv_eligibility sv) (commitment_bytes (commitment E ord)) (dekyx_nullifier ord)
       (expires_at ord) evidence now = (Inr verified, sg_eligibility_verifier sg)"
    "bind_eligible_participant (sv_settlement sv) (participant_handle ord) (ve_subject_nullifier verified) = (Inr (), g1)"
    "reserve_order E (en_kit N) (en_reserve_blinding N) g1 (secret_order_view E ord) = (Inr receipt, sg_settlement sg)"
    "certify E (sv_ordering sv) (sv_market_id sv) (oa_commitment a) (expires_at ord) now = (Inr (sg_certificate sg), sg_ordering sg)"
    "execute_batch E (en_mpc N) (sv_mpc sv) (batch_of (sv_book sv) ord now) = (Inr mpc, rn)"
    "apply_mpc_batch_result E (sv_book sv) ord a (ct_sequence (sg_certificate sg)) now (mb_result mpc) =
       (Inr (sg_book_transition sg), sg_book sg)"
    "sg_settlement_order sg = ord" "sv' = sv\<lparr>sv_mpc := rn\<rparr>"
    "sg_mpc sg = mpc" "sg_reservation sg = receipt" "sg_eligibility sg = verified"
  using assms unfolding stage_with_assurance_def staged_simps private_match_batch_of
  by (elim exE conjE Pair_inject) (rule that, auto)

lemma reserve_order_open:
  assumes "ledger_ok (reservations g)" "view_ok v" "reserve_order E K bl g v = (Inr receipt, g')"
  shows "ledger_ok (reservations g') \<and> has_terms (reservations g') v \<and> active_open (reservations g') =
    (active_open (reservations g))(commitment_bytes (settlement_commitment v) \<mapsto> settlement_quantity v)"
proof -
  from assms(3) obtain rs x where "ReservationBook_reserve E (reservations g) v
      (commit_u64 K (settlement_reservation_limit v) bl) = (Inr x, rs)" "reservations g' = rs"
    by (cases "ReservationBook_reserve E (reservations g) v (commit_u64 K (settlement_reservation_limit v) bl)")
       (auto simp: reserve_order_def reserve_order_with_commitment_def guarded_ok Let_def)
  with reserve_open [OF assms(1,2)] has_terms_new show ?thesis by blast
qed

lemma bind_engine_open:
  assumes "ledger_ok (reservations g)" "bind_eligible_participant g p e = (Inr (), g')"
  shows "ledger_ok (reservations g') \<and> active_open (reservations g') = active_open (reservations g)"
proof -
  from assms(2) obtain x where x: "btree_get (participants g) p = Some x"
    by (auto simp: bind_eligible_participant_def guarded_ok ok_or_eq_Inr)
  with assms(2) have "bind_participant (reservations g) p e (cb_value (pb_cash x)) (cb_value (pb_securities x))
      = (Inr (), reservations g')"
    by (auto simp: bind_eligible_participant_def Let_def split_def prod_eq_iff)
  from bind_open [OF assms(1) this] show ?thesis .
qed

lemma no_fill_remaining:
  assumes "batch_fills b ord a now = []" "time_in_force ord = GoodTilCancelled"
  shows "arriving_remaining (expected_batch (batch_of b ord now)) = quantity ord"
proof -
  have "unat (snd (match_slots (batch_of b ord now) (quantity ord) (resting (batch_of b ord now)))) = unat (quantity ord)"
    using total_batch_fills [of b ord a now] assms(1) by (simp add: total_filled_def)
  then have "snd (match_slots (batch_of b ord now) (quantity ord) (resting (batch_of b ord now))) = quantity ord"
    by (simp add: word_unat_eq_iff)
  then show ?thesis
    using assms(2) by (simp add: expected_batch_def batch_of_def Let_def split_def)
qed

lemma stage_ok:
  assumes ok: "service_ok E market sv" and o1: "order_ok ord"
    and c: "stage_with_assurance E N sv ord a evidence now assure = (Inr sg, sv')"
  shows "staged_ok E market (book_open (sv_book sv)) sg \<and> service_ok E market sv'"
proof -
  obtain verified g1 receipt rn mpc where
    "OrderAuthority_verify E a ord now = Inr ()"
    "verify_order (en_dekyx N) (sv_eligibility sv) (commitment_bytes (commitment E ord)) (dekyx_nullifier ord)
       (expires_at ord) evidence now = (Inr verified, sg_eligibility_verifier sg)"
    and bi: "bind_eligible_participant (sv_settlement sv) (participant_handle ord) (ve_subject_nullifier verified) = (Inr (), g1)"
    and re: "reserve_order E (en_kit N) (en_reserve_blinding N) g1 (secret_order_view E ord) = (Inr receipt, sg_settlement sg)"
    and t: "certify E (sv_ordering sv) (sv_market_id sv) (oa_commitment a) (expires_at ord) now = (Inr (sg_certificate sg), sg_ordering sg)"
    and "execute_batch E (en_mpc N) (sv_mpc sv) (batch_of (sv_book sv) ord now) = (Inr mpc, rn)"
    and r: "apply_mpc_batch_result E (sv_book sv) ord a (ct_sequence (sg_certificate sg)) now (mb_result mpc) =
       (Inr (sg_book_transition sg), sg_book sg)"
    and so: "sg_settlement_order sg = ord" and sv': "sv' = sv\<lparr>sv_mpc := rn\<rparr>"
    and "sg_mpc sg = mpc" "sg_reservation sg = receipt" "sg_eligibility sg = verified"
    by (rule stage_success [OF c])
  note o = service_okD [OF ok]
  note t' = t [unfolded o(1)]
  note n = lockstep_next [OF o(4) t']
  note bk = batch_book_open [OF o(2) o1 n(2) r]
  note b1 = bind_engine_open [OF o(3) bi]
  have vo: "view_ok (secret_order_view E ord)" unfolding secret_order_view_def by (rule order_view_ok [OF o1])
  note rs = reserve_order_open [OF conjunct1 [OF b1] vo re]
  have vf: "settlement_commitment (secret_order_view E ord) = commitment E ord"
    "settlement_quantity (secret_order_view E ord) = quantity ord"
    by (simp_all add: secret_order_view_def order_view_def)
  have l: "lockstep market (sg_book sg) (sg_ordering sg)" by (rule lockstep_step [OF o(4) t' bk(6,4,7)])
  have "commitment E ord \<notin> rc ` set (orders (sv_book sv))"
    using o(2) bk(2,3) by (auto simp: book_ok_def)
  then have fresh: "book_open (sv_book sv) (commitment_bytes (commitment E ord)) = None"
    by (cases "commitment E ord") (simp add: book_open_none)
  have nf: "bx_arriving_remaining (sg_book_transition sg) = quantity ord"
    if "bx_fills (sg_book_transition sg) = []" "time_in_force ord = GoodTilCancelled"
    using no_fill_remaining [of "sv_book sv" ord a now] that bk(8-10) by simp
  show ?thesis
    using ok o1 book_open_nonzero [OF o(2)] fresh rs bk(1,11) l nf b1 o(5)
    unfolding staged_ok_def so Let_def vf sv' by auto
qed

section \<open>The staged order settled\<close>

lemma after_no_trades: "(\<And>x. m x \<noteq> Some 0) \<Longrightarrow> after_trades (traded_bytes []) m = m"
  by (auto simp: after_trades_def traded_bytes_def fun_eq_iff split: option.split)

lemma staged_no_fill:
  assumes "staged_ok E market m sg" "bx_fills (sg_book_transition sg) = []"
  shows "time_in_force (sg_settlement_order sg) \<noteq> ImmediateOrCancel \<Longrightarrow>
      active_open (reservations (sg_settlement sg)) = book_open (sg_book sg)"
    and "release_order E (sg_settlement sg) (commitment_bytes (commitment E (sg_settlement_order sg))) = (Inr x, g') \<Longrightarrow>
      time_in_force (sg_settlement_order sg) = ImmediateOrCancel \<Longrightarrow>
      ledger_ok (reservations g') \<and> active_open (reservations g') = book_open (sg_book sg)"
proof -
  let ?ord = "sg_settlement_order sg"
  let ?c = "commitment_bytes (commitment E ?ord)"
  have m: "after_trades (traded_bytes []) m = m" "m ?c = None" "ledger_ok (reservations (sg_settlement sg))"
    "active_open (reservations (sg_settlement sg)) = m(?c \<mapsto> quantity ?ord)"
    "book_open (sg_book sg) = m(?c := (if 0 < bx_arriving_remaining (sg_book_transition sg)
       \<and> time_in_force ?ord = GoodTilCancelled then Some (bx_arriving_remaining (sg_book_transition sg)) else None))"
    "time_in_force ?ord = GoodTilCancelled \<Longrightarrow> bx_arriving_remaining (sg_book_transition sg) = quantity ?ord"
    "0 < quantity ?ord"
    using assms after_no_trades [of m] by (auto simp: staged_ok_def Let_def order_ok_def word_gt_0)
  show "active_open (reservations (sg_settlement sg)) = book_open (sg_book sg)"
    if "time_in_force ?ord \<noteq> ImmediateOrCancel"
  proof -
    from that have "time_in_force ?ord = GoodTilCancelled" by (cases "time_in_force ?ord") simp_all
    with m show ?thesis by simp
  qed
  show "ledger_ok (reservations g') \<and> active_open (reservations g') = book_open (sg_book sg)"
    if "release_order E (sg_settlement sg) ?c = (Inr x, g')" "time_in_force ?ord = ImmediateOrCancel"
    using release_order_engine_open [OF m(3) that(1)] m(2,4,5) that(2) by simp
qed

lemma staged_settled:
  assumes st: "staged_ok E market m sg"
    and c: "settle_batch E D K rnd (sg_settlement sg) (bx_fills (sg_book_transition sg)) auth
      (secret_order_view E (sg_settlement_order sg)) (bx_arriving_remaining (sg_book_transition sg)) now = (Inr x, g')"
  shows "ledger_ok (reservations g') \<and> active_open (reservations g') = book_open (sg_book sg)"
proof -
  let ?ord = "sg_settlement_order sg"
  let ?v = "secret_order_view E ?ord"
  let ?c = "commitment_bytes (commitment E ?ord)"
  let ?left = "bx_arriving_remaining (sg_book_transition sg)"
  let ?t = "traded_bytes (bx_fills (sg_book_transition sg))"
  have vf: "settlement_commitment ?v = commitment E ?ord" "settlement_limit_price ?v = limit_price ?ord"
    "settlement_time_in_force ?v = time_in_force ?ord"
    by (simp_all add: secret_order_view_def order_view_def)
  have s: "ledger_ok (reservations (sg_settlement sg))" "has_terms (reservations (sg_settlement sg)) ?v"
    "active_open (reservations (sg_settlement sg)) = m(?c \<mapsto> quantity ?ord)" "\<And>x. m x \<noteq> Some 0"
    "0 < limit_price ?ord"
    "book_open (sg_book sg) = (after_trades ?t m)(?c :=
       (if 0 < ?left \<and> time_in_force ?ord = GoodTilCancelled then Some ?left else None))"
    using st by (auto simp: staged_ok_def Let_def order_ok_def word_gt_0)
  obtain stt where stt: "local_staged E D K rnd (sg_settlement sg) (bx_fills (sg_book_transition sg)) auth ?v ?left now = Inr stt"
    "reservations g' = st_reservations stt" by (rule settle_batch_staged [OF c])
  have nz: "active_open (reservations (sg_settlement sg)) y \<noteq> Some 0" if "y \<noteq> commitment_bytes (settlement_commitment ?v)" for y
    using that s(3,4) by (simp add: vf)
  have a: "(after_trades ?t (m(?c \<mapsto> quantity ?ord)))(?c := z) = (after_trades ?t m)(?c := z)" for z
    by (auto simp: after_trades_def fun_eq_iff)
  from local_staged_open [OF s(1,2) _ stt(1) nz] s(5)
  have "ledger_ok (reservations g') \<and> active_open (reservations g') = (after_trades ?t m)(?c :=
      (if ?left = 0 \<or> time_in_force ?ord = ImmediateOrCancel then None else Some ?left))"
    unfolding vf s(3) a stt(2) by blast
  moreover have "(if ?left = 0 \<or> time_in_force ?ord = ImmediateOrCancel then None else Some ?left)
      = (if 0 < ?left \<and> time_in_force ?ord = GoodTilCancelled then Some ?left else None)"
    by (cases "time_in_force ?ord") (auto simp: word_gt_0)
  ultimately show ?thesis unfolding s(6) by simp
qed

section \<open>What a failed call leaves\<close>

definition keeps :: "('s \<Rightarrow> bool) \<Rightarrow> ('e + 'a) \<times> 's \<Rightarrow> bool" where
  "keeps P m \<longleftrightarrow> (\<forall>e s. m = (Inl e, s) \<longrightarrow> P s)"

lemma keeps_guarded: "P s \<Longrightarrow> (\<And>x. r = Inr x \<Longrightarrow> keeps P (k x)) \<Longrightarrow> keeps P (guarded r s k)"
  by (cases r) (auto simp: keeps_def)

lemma keeps_Inr: "keeps P (Inr x, s)"
  by (simp add: keeps_def)

lemma keeps_pair: "(\<And>r s. keeps P (f r s)) \<Longrightarrow> keeps P (case m of (r, s) \<Rightarrow> f r s)"
  by (cases m) simp

lemma expire_error: "expire_due E sv now = (Inl e, sv') \<Longrightarrow> sv' = sv"
proof -
  have "keeps (\<lambda>s. s = sv) (expire_due E sv now)"
    unfolding expire_due_def Let_def
    by (auto intro!: keeps_guarded keeps_pair keeps_Inr)
  then show "expire_due E sv now = (Inl e, sv') \<Longrightarrow> sv' = sv" by (simp add: keeps_def)
qed

lemma cancel_error: "cancel E sv k now = (Inl e, sv') \<Longrightarrow> sv' = sv"
proof -
  have "keeps (\<lambda>s. s = sv) (cancel E sv k now)"
    unfolding cancel_def Let_def
    by (auto intro!: keeps_guarded keeps_pair keeps_Inr)
  then show "cancel E sv k now = (Inl e, sv') \<Longrightarrow> sv' = sv" by (simp add: keeps_def)
qed

lemma stage_error:
  "stage_with_assurance E N sv ord a evidence now assure = (Inl e, sv') \<Longrightarrow> \<exists>rn. sv' = sv\<lparr>sv_mpc := rn\<rparr>"
proof -
  have r: "\<exists>rn. sv = sv\<lparr>sv_mpc := rn\<rparr>" by (intro exI [of _ "sv_mpc sv"]) simp
  have "keeps (\<lambda>s. \<exists>rn. s = sv\<lparr>sv_mpc := rn\<rparr>) (stage_with_assurance E N sv ord a evidence now assure)"
    unfolding stage_with_assurance_def Let_def
    by (intro keeps_guarded keeps_pair keeps_Inr r) blast+
  then show "stage_with_assurance E N sv ord a evidence now assure = (Inl e, sv') \<Longrightarrow> \<exists>rn. sv' = sv\<lparr>sv_mpc := rn\<rparr>"
    by (simp add: keeps_def)
qed

section \<open>Submission\<close>

lemma then_run_ok: "then_run m k = (Inr y, s') \<longleftrightarrow> (\<exists>x s. m = (Inr x, s) \<and> k x s = (Inr y, s'))"
  by (cases m; cases "fst m") (auto simp: then_run_def)

lemma then_run_err:
  "then_run m k = (Inl e, s') \<longleftrightarrow> m = (Inl e, s') \<or> (\<exists>x s. m = (Inr x, s) \<and> k x s = (Inl e, s'))"
  by (cases m; cases "fst m") (auto simp: then_run_def)

lemma settle_staged_order_ok:
  assumes st: "staged_ok E market m sg" and c: "settle_staged_order E D N sg now = (Inr y, g')"
  shows "ledger_ok (reservations g') \<and> active_open (reservations g') = book_open (sg_book sg)"
proof (cases "bx_fills (sg_book_transition sg) = []")
  case True
  note nf = staged_no_fill [OF st True]
  show ?thesis
  proof (cases "time_in_force (sg_settlement_order sg) = ImmediateOrCancel")
    case ioc: True
    with c True obtain x where
      "release_order E (sg_settlement sg) (commitment_bytes (commitment E (sg_settlement_order sg))) = (Inr x, g')"
      by (auto simp: settle_staged_order_def map_sum_eq_Inr Let_def split: prod.splits)
    from nf(2) [OF this ioc] show ?thesis .
  next
    case False
    with c True have "g' = sg_settlement sg" by (simp add: settle_staged_order_def Let_def)
    with nf(1) [OF False] st show ?thesis by (simp add: staged_ok_def Let_def)
  qed
next
  case False
  with c obtain x where "settle_batch E D (en_kit N) (en_fill_random N) (sg_settlement sg) (bx_fills (sg_book_transition sg))
      (JointProof (sg_verified_transition sg)) (secret_order_view E (sg_settlement_order sg))
      (bx_arriving_remaining (sg_book_transition sg)) now = (Inr x, g')"
    by (auto simp: settle_staged_order_def map_sum_eq_Inr Let_def split: prod.splits)
  from staged_settled [OF st this] show ?thesis .
qed

lemma submit_success:
  assumes "submit E D N sv ord a evidence now = (Inr x, sv')"
  obtains expired sv1 sg sv2 y g where "expire_due E sv now = (Inr expired, sv1)"
    "stage_submission E N sv1 ord a evidence now = (Inr sg, sv2)" "settle_staged_order E D N sg now = (Inr y, g)"
    "sv' = sv2\<lparr>sv_book := sg_book sg, sv_ordering := sg_ordering sg, sv_settlement := g,
       sv_eligibility := sg_eligibility_verifier sg\<rparr>"
    "xe_book_transition x = sg_book_transition sg" "xe_expired_before x = expired" "xe_certificate x = sg_certificate sg"
proof -
  from assms obtain expired sv1 sg sv2 where 1: "expire_due E sv now = (Inr expired, sv1)"
    and 2: "stage_submission E N sv1 ord a evidence now = (Inr sg, sv2)"
    and 3: "(case settle_staged_order E D N sg now of (r, g) \<Rightarrow> guarded r sv2 (\<lambda>(settlement, release).
     (Inr \<lparr>xe_expired_before = expired, xe_certificate = sg_certificate sg,
           xe_reservation = sg_reservation sg, xe_eligibility = sg_eligibility sg, xe_mpc = sg_mpc sg,
           xe_book_transition = sg_book_transition sg, xe_transition_proof = sg_transition_proof sg,
           xe_settlement = settlement, xe_reservation_release = release\<rparr>,
      sv2\<lparr>sv_book := sg_book sg, sv_ordering := sg_ordering sg, sv_settlement := g,
          sv_eligibility := sg_eligibility_verifier sg\<rparr>))) = (Inr x, sv')"
    unfolding submit_def then_run_ok Let_def by blast
  obtain r g where rg: "settle_staged_order E D N sg now = (r, g)" by (cases rule: prod.exhaust)
  from 3 obtain y where "r = Inr y" unfolding rg by (cases r) simp_all
  with 1 2 3 rg that show thesis by (cases y) auto
qed

lemma keeps_then_run:
  "keeps P m \<Longrightarrow> (\<And>x s. m = (Inr x, s) \<Longrightarrow> keeps P (k x s)) \<Longrightarrow> keeps P (then_run m k)"
  by (cases m; cases "fst m") (auto simp: then_run_def keeps_def)

lemma stage_keeps: "keeps (\<lambda>s. \<exists>rn. s = sv\<lparr>sv_mpc := rn\<rparr>) (stage_submission E N sv ord a evidence now)"
  unfolding keeps_def stage_submission_def using stage_error by blast

lemma stage_moves_runner:
  "stage_with_assurance E N sv ord a evidence now assure = (Inr sg, sv') \<Longrightarrow> \<exists>rn. sv' = sv\<lparr>sv_mpc := rn\<rparr>"
  by (elim stage_success) blast

lemma submit_error:
  assumes "submit E D N sv ord a evidence now = (Inl e, sv')"
  obtains "sv' = sv" | x sv1 rn where "expire_due E sv now = (Inr x, sv1)" "sv' = sv1\<lparr>sv_mpc := rn\<rparr>"
proof (cases "expire_due E sv now")
  case (Pair r sv1)
  show thesis
  proof (cases r)
    case (Inl d)
    with assms Pair expire_error [of E sv now d sv1] that(1) show thesis
      by (simp add: submit_def then_run_def)
  next
    case (Inr x)
    have "keeps (\<lambda>s. \<exists>rn. s = sv1\<lparr>sv_mpc := rn\<rparr>) (submit E D N sv ord a evidence now)"
      unfolding submit_def Pair Inr then_run_def [of "(Inr x, sv1)"] prod.case sum.case Let_def
      by (intro keeps_then_run stage_keeps keeps_pair keeps_guarded keeps_Inr)
         (use stage_moves_runner in \<open>auto simp: stage_submission_def\<close>)
    with assms that(2) Pair Inr show thesis unfolding keeps_def by blast
  qed
qed

lemma submit_ok:
  assumes ok: "service_ok E market sv" and o1: "order_ok ord"
    and c: "submit E D N sv ord a evidence now = (r, sv')"
  shows "service_ok E market sv'"
proof (cases r)
  case (Inl e)
  from c [unfolded Inl] show ?thesis
    by (rule submit_error) (use ok expire_ok [OF ok] in auto)
next
  case (Inr x)
  obtain expired sv1 sg sv2 y g where 1: "expire_due E sv now = (Inr expired, sv1)"
    and 2: "stage_submission E N sv1 ord a evidence now = (Inr sg, sv2)"
    and 3: "settle_staged_order E D N sg now = (Inr y, g)"
    and sv': "sv' = sv2\<lparr>sv_book := sg_book sg, sv_ordering := sg_ordering sg, sv_settlement := g,
       sv_eligibility := sg_eligibility_verifier sg\<rparr>"
    and "xe_book_transition x = sg_book_transition sg" "xe_expired_before x = expired" "xe_certificate x = sg_certificate sg"
    by (rule submit_success [OF c [unfolded Inr]])
  from stage_ok [OF expire_ok [OF ok 1] o1 2 [unfolded stage_submission_def]]
  have st: "staged_ok E market (book_open (sv_book sv1)) sg" and sv2: "service_ok E market sv2" by blast+
  from settle_staged_order_ok [OF st 3] st service_okD(1) [OF sv2] show ?thesis
    by (simp add: service_ok_def sv' staged_ok_def Let_def)
qed

end
