(* ===== verification/Service_Machine.thy ===== *)
theory Service_Machine
  imports Service_Invariant
begin

text \<open>
  The service as a state machine: every call, accepted or refused, on the local and on the canonical path, with
  the invariant of \<open>Service_Invariant\<close> over all reachable states, and what it means for one call.
\<close>

section \<open>Prepared submissions\<close>

definition prepared_ok :: "crypto \<Rightarrow> rust_str \<Rightarrow> ('l, 'a) PreparedOclobSubmission \<Rightarrow> bool" where
  "prepared_ok E market p \<longleftrightarrow> book_ok E (ps_book p) \<and> lockstep market (ps_book p) (ps_ordering p)
     \<and> ledger_ok (reservations (candidate_of (ps_canonical p)))
     \<and> active_open (reservations (candidate_of (ps_canonical p))) = book_open (ps_book p)"

lemma prepare_admission_candidate:
  assumes "prepare_admission E D issue l1 l2 g reserved receipt fills a t v now prepared = Inr p"
  shows "\<exists>p0. prepared = Inr p0 \<and> candidate_of p = pcb_candidate p0"
proof -
  from assms obtain p0 base os ds rz where "prepared = Inr p0"
    and "Inr (PreparedSettlement (rebase_batch E l1 l2 base os ds rz v p0)) = (Inr p :: SettlementError + _)"
    unfolding prepare_admission_def Let_def split_def andThen_eq_Inr by (elim exE conjE) (rule that)
  then have "prepared = Inr p0" "p = PreparedSettlement (rebase_batch E l1 l2 base os ds rz v p0)"
    by simp_all
  then show ?thesis by (intro exI [of _ p0]) (simp add: rebase_batch_fields)
qed

lemma prepare_settled_candidate:
  assumes "prepare_settled E D g a v now out = Inr p"
  shows "\<exists>x. out = (Inr x, pcb_candidate p)"
proof -
  from assms obtain x where "fst out = Inr x" "pcb_candidate p = snd out"
    by (auto simp: prepare_settled_def result_ok Let_def split_def)
  then show ?thesis by (intro exI [of _ x]) (simp add: prod_eq_iff)
qed

lemma admission_candidate:
  assumes "prepare_canonical_admission_batch E D K rnd issue g reserved receipt fills a t v left now = Inr p"
  shows "\<exists>x. settle_batch E D K rnd reserved fills a v left now = (Inr x, candidate_of p)"
  using prepare_admission_candidate [OF assms [unfolded prepare_canonical_admission_batch_def prepare_canonical_batch_def]]
    prepare_settled_candidate by metis

lemma prepare_staged_ok:
  assumes st: "staged_ok E market m sg" and c: "prepare_staged E D N authorization sv sg now = Inr p"
  shows "prepared_ok E market p"
proof -
  let ?fills = "bx_fills (sg_book_transition sg)"
  let ?v = "secret_order_view E (sg_settlement_order sg)"
  let ?a = "authorization (sg_verified_transition sg)"
  have b: "book_ok E (sg_book sg)" "lockstep market (sg_book sg) (sg_ordering sg)"
    "ledger_ok (reservations (sg_settlement sg))"
    using st by (simp_all add: staged_ok_def Let_def)
  from c have pb: "ps_book p = sg_book sg" "ps_ordering p = sg_ordering sg"
    and ioc: "\<not> (?fills = [] \<and> time_in_force (sg_settlement_order sg) = ImmediateOrCancel)"
    and cp: "(if ?fills = []
         then prepare_canonical_reservation E D (en_issue N) (sv_settlement sv) (sg_settlement sg) (sg_reservation sg) ?v
                (sg_certificate sg) ?a now
         else prepare_canonical_admission_batch E D (en_kit N) (en_fill_random N) (en_issue N) (sv_settlement sv)
                (sg_settlement sg) (sg_reservation sg) ?fills ?a (sg_certificate sg) ?v
                (bx_arriving_remaining (sg_book_transition sg)) now) = Inr (ps_canonical p)"
    unfolding prepare_staged_def Let_def result_ok by auto
  have "ledger_ok (reservations (candidate_of (ps_canonical p)))
      \<and> active_open (reservations (candidate_of (ps_canonical p))) = book_open (sg_book sg)"
  proof (cases "?fills = []")
    case True
    with cp have "candidate_of (ps_canonical p) = sg_settlement sg"
      using prepared_reservation [of E D "en_issue N" "sv_settlement sv" "sg_settlement sg"] by simp
    with staged_no_fill(1) [OF st True] ioc True b(3) show ?thesis by simp
  next
    case False
    with cp have "prepare_canonical_admission_batch E D (en_kit N) (en_fill_random N) (en_issue N) (sv_settlement sv)
        (sg_settlement sg) (sg_reservation sg) ?fills ?a (sg_certificate sg) ?v
        (bx_arriving_remaining (sg_book_transition sg)) now = Inr (ps_canonical p)" by simp
    from admission_candidate [OF this] staged_settled [OF st] show ?thesis by blast
  qed
  with b pb show ?thesis by (simp add: prepared_ok_def)
qed

lemma canonical_accept_candidate:
  "canonical_accept E D t g x = (Inr y, g') \<Longrightarrow> g' = (candidate_of t)\<lparr>se_height := sa_height x\<rparr> \<and> state_snapshot E D g = base_of t"
  by (cases t) (auto simp: accept_cases split: if_splits sum.splits)

lemma accept_success:
  assumes "accept E D p sv x = (Inr y, sv')"
  shows "state_snapshot E D (sv_settlement sv) = ps_base_settlement p"
    "sv' = sv\<lparr>sv_book := ps_book p, sv_ordering := ps_ordering p,
       sv_settlement := (candidate_of (ps_canonical p))\<lparr>se_height := sa_height x\<rparr>,
       sv_eligibility := ps_eligibility_verifier p\<rparr>"
proof -
  from assms obtain z g where g: "canonical_accept E D (ps_canonical p) (ps_settlement p) x = (Inr z, g)"
    and s: "state_snapshot E D (sv_settlement sv) = ps_base_settlement p"
    and sv': "sv' = sv\<lparr>sv_book := ps_book p, sv_ordering := ps_ordering p, sv_settlement := g,
       sv_eligibility := ps_eligibility_verifier p\<rparr>"
    unfolding accept_def Let_def guarded_ok fail_if_eq_Inr staged_call
    by (auto simp: split_def)
  show "state_snapshot E D (sv_settlement sv) = ps_base_settlement p" by (rule s)
  show "sv' = sv\<lparr>sv_book := ps_book p, sv_ordering := ps_ordering p,
       sv_settlement := (candidate_of (ps_canonical p))\<lparr>se_height := sa_height x\<rparr>,
       sv_eligibility := ps_eligibility_verifier p\<rparr>"
    unfolding sv' using canonical_accept_candidate [OF g] by simp
qed

lemma accept_error: "accept E D p sv x = (Inl e, sv') \<Longrightarrow> sv' = sv"
proof -
  have "keeps (\<lambda>s. s = sv) (accept E D p sv x)"
    unfolding accept_def Let_def by (auto intro!: keeps_guarded keeps_pair keeps_Inr)
  then show "accept E D p sv x = (Inl e, sv') \<Longrightarrow> sv' = sv" by (simp add: keeps_def)
qed

lemma accept_ok:
  assumes ok: "service_ok E market sv" and p: "prepared_ok E market p" and c: "accept E D p sv x = (r, sv')"
  shows "service_ok E market sv'"
proof (cases r)
  case (Inl e)
  with accept_error c ok show ?thesis by blast
next
  case (Inr y)
  from accept_success(2) [OF c [unfolded Inr]] ok p show ?thesis
    by (simp add: service_ok_def prepared_ok_def)
qed

section \<open>Reachable services\<close>

inductive service_reachable :: "crypto \<Rightarrow> defmi \<Rightarrow> rust_str \<Rightarrow> 'l OclobService \<Rightarrow> bool" for E D market where
  start: "OclobService_new E commit first second scalars market compiled eligibility = Inr sv \<Longrightarrow>
    service_reachable E D market sv"
| submits: "service_reachable E D market sv \<Longrightarrow> order_ok ord \<Longrightarrow> submit E D N sv ord a evidence now = (r, sv') \<Longrightarrow>
    service_reachable E D market sv'"
| cancels: "service_reachable E D market sv \<Longrightarrow> cancel E sv k now = (q, sv') \<Longrightarrow> service_reachable E D market sv'"
| expires: "service_reachable E D market sv \<Longrightarrow> expire_due E sv now = (x, sv') \<Longrightarrow> service_reachable E D market sv'"
| prepares: "service_reachable E D market sv \<Longrightarrow> prepare_canonical_submit E D N sv ord a evidence now = (y, sv') \<Longrightarrow>
    service_reachable E D market sv'"
| proposes: "service_reachable E D market sv \<Longrightarrow> prepare_optimistic_submit E D N C sv ord a evidence now = (z, sv') \<Longrightarrow>
    service_reachable E D market sv'"
| accepts: "service_reachable E D market sv \<Longrightarrow> service_reachable E D market sv0 \<Longrightarrow> order_ok ord \<Longrightarrow>
    prepare_canonical_submit E D N sv0 ord a evidence now = (Inr p, sv1) \<Longrightarrow> accept E D p sv xx = (w, sv') \<Longrightarrow>
    service_reachable E D market sv'"
| accepts_final: "service_reachable E D market sv \<Longrightarrow> service_reachable E D market sv0 \<Longrightarrow> order_ok ord \<Longrightarrow>
    prepare_optimistic_submit E D N C sv0 ord a evidence now = (Inr pd, sv1) \<Longrightarrow>
    pending_finalize E D N1 H pd sv2 claim later = Inr pf \<Longrightarrow> accept E D pf sv xx = (u, sv') \<Longrightarrow>
    service_reachable E D market sv'"

text \<open>Preparing a submission moves nothing of the live service but its MPC runner.\<close>

definition runner_only :: "'l OclobService \<Rightarrow> 'l OclobService \<Rightarrow> bool" where
  "runner_only sv s \<longleftrightarrow> (\<exists>rn. s = sv\<lparr>sv_mpc := rn\<rparr>)"

lemma runner_only_refl: "runner_only sv sv"
  unfolding runner_only_def by (intro exI [of _ "sv_mpc sv"]) simp

lemma runner_only_guarded:
  "runner_only sv s \<Longrightarrow> (\<And>x. runner_only sv (snd (k x))) \<Longrightarrow> runner_only sv (snd (guarded r s k))"
  by (cases r) simp_all

lemma runner_only_then:
  "runner_only sv (snd m) \<Longrightarrow> (\<And>x. runner_only sv (snd (k x (snd m)))) \<Longrightarrow> runner_only sv (snd (then_run m k))"
  by (cases m; cases "fst m") (simp_all add: then_run_def)

lemma stage_state: "runner_only sv (snd (stage_with_assurance E N sv ord a evidence now assure))"
proof (cases "stage_with_assurance E N sv ord a evidence now assure")
  case (Pair r sv')
  then show ?thesis
    unfolding runner_only_def by (cases r) (auto dest: stage_error stage_moves_runner)
qed

lemma prepare_state:
  "runner_only sv (snd (prepare_canonical_submit E D N sv ord a evidence now))"
  "runner_only sv (snd (prepare_optimistic_submit E D N C sv ord a evidence now))"
  unfolding prepare_canonical_submit_def prepare_optimistic_submit_def stage_submission_def
  by (intro runner_only_guarded runner_only_then runner_only_refl stage_state; simp add: stage_state)+

lemma prepare_canonical_prepared:
  assumes "service_ok E market sv" "order_ok ord" "prepare_canonical_submit E D N sv ord a evidence now = (Inr p, sv')"
  shows "prepared_ok E market p"
proof -
  from assms(3) obtain sg where "stage_with_assurance E N sv ord a evidence now (joint_assurance E) = (Inr sg, sv')"
    "prepare_staged E D N JointProof sv' sg now = Inr p"
    by (auto simp: prepare_canonical_submit_def guarded_ok then_run_ok stage_submission_def)
  with stage_ok [OF assms(1,2)] prepare_staged_ok show ?thesis by blast
qed

lemma prepare_optimistic_prepared:
  assumes "service_ok E market sv" "order_ok ord"
    "prepare_optimistic_submit E D N C sv ord a evidence now = (Inr pd, sv1)"
    "pending_finalize E D N1 H pd sv2 claim later = Inr p"
  shows "prepared_ok E market p"
proof -
  from assms(3) obtain verifier where
    "stage_with_assurance E N sv ord a evidence now (optimistic_assurance E C verifier) = (Inr (pe_staged pd), sv1)"
    by (auto simp: prepare_optimistic_submit_def guarded_ok then_run_ok)
  then have "staged_ok E market (book_open (sv_book sv)) (pe_staged pd)"
    using stage_ok [OF assms(1,2)] by blast
  then have "staged_ok E market (book_open (sv_book sv)) ((pe_staged pd)\<lparr>sg_transition_proof := x, sg_verified_transition := y\<rparr>)"
    for x y by (simp add: staged_ok_def)
  moreover from assms(4) obtain au sg where "prepare_staged E D N1 OptimisticFinality sv2 sg later = Inr p"
    and "sg = \<lparr>sg_settlement_order = sg_settlement_order (pe_staged pd), sg_book = sg_book (pe_staged pd),
         sg_ordering = sg_ordering (pe_staged pd),
         sg_settlement = sg_settlement (pe_staged pd), sg_eligibility_verifier = sg_eligibility_verifier (pe_staged pd),
         sg_certificate = sg_certificate (pe_staged pd), sg_reservation = sg_reservation (pe_staged pd),
         sg_eligibility = sg_eligibility (pe_staged pd), sg_mpc = sg_mpc (pe_staged pd),
         sg_book_transition = sg_book_transition (pe_staged pd),
         sg_transition_proof = au, sg_verified_transition = au\<rparr>"
    by (auto simp: pending_finalize_def result_ok Let_def)
  ultimately have "staged_ok E market (book_open (sv_book sv)) sg" by (simp add: staged_ok_def)
  then show ?thesis by (rule prepare_staged_ok) fact
qed

lemma reachable_service_ok: "service_reachable E D market sv \<Longrightarrow> service_ok E market sv"
proof (induction rule: service_reachable.induct)
  case (start commit first second scalars compiled eligibility sv)
  then show ?case by (rule service_new_ok)
next
  case (submits sv ord N a evidence now r sv')
  show ?case by (rule submit_ok [OF submits(4,2,3)])
next
  case (cancels sv k now q sv')
  then show ?case by (cases q) (use cancel_error cancel_ok in blast)+
next
  case (expires sv now x sv')
  then show ?case by (cases x) (use expire_error expire_ok in blast)+
next
  case (prepares sv N ord a evidence now y sv')
  with prepare_state(1) [of sv E D N ord a evidence now] show ?case by (auto simp: runner_only_def)
next
  case (proposes sv N C ord a evidence now z sv')
  with prepare_state(2) [of sv E D N C ord a evidence now] show ?case by (auto simp: runner_only_def)
next
  case (accepts sv sv0 ord N a evidence now p sv1 xx w sv')
  show ?case by (rule accept_ok [OF accepts.IH(1) prepare_canonical_prepared [OF accepts.IH(2) accepts.hyps(3,4)] accepts.hyps(5)])
next
  case (accepts_final sv sv0 ord N C a evidence now pd sv1 N1 H sv2 claim later pf xx u sv')
  show ?case
    by (rule accept_ok [OF accepts_final.IH(1) prepare_optimistic_prepared [OF accepts_final.IH(2)
          accepts_final.hyps(3,4,5)] accepts_final.hyps(6)])
qed

end
