(* ===== verification/Mpc_Output.thy ===== *)
theory Mpc_Output
  imports Mpc_Runner
begin

text \<open>
  Printing and parsing the public result are inverse: every value a party prints under a name of its own
  is read back, so that the parsed text of a round is the tuple of wires the circuit computed.
\<close>

section \<open>Decimal numbers\<close>

lemma of_digit_char: "d < 10 \<Longrightarrow> of_char (digit_char d) = 48 + d"
  by (simp add: digit_char_def of_char_of)

lemma parse_digits_append:
  "parse_digits acc (xs @ ys) = andThen (parse_digits acc xs) (\<lambda>a. parse_digits a ys)"
  by (induction xs arbitrary: acc) (auto simp: Let_def split: option.splits)

lemma parse_one_digit:
  assumes "d < 10" "unat acc * 10 + d < 2 ^ 64"
  shows "parse_digits acc [digit_char d] = Inr (acc * 10 + of_nat d)"
proof -
  have m: "checked_mul acc 10 = Some (acc * 10)" using assms(2) by (simp add: checked_mul_def)
  have u: "unat (acc * 10) = unat acc * 10"
    using assms(2) unat_mult_bounded [of acc "10 :: u64"] by simp
  have "checked_add (acc * 10) (of_nat d) = Some (acc * 10 + of_nat d)"
    using assms by (simp add: checked_add_def u unat_of_nat)
  with m show ?thesis using assms(1) by (simp add: of_digit_char)
qed

lemma parse_show_nat: "n < 2 ^ 64 \<Longrightarrow> parse_digits 0 (show_nat n) = Inr (of_nat n)"
proof (induction n rule: show_nat.induct)
  case (1 n)
  show ?case
  proof (cases "n < 10")
    case True
    then show ?thesis using parse_one_digit [of n 0] by (simp add: show_nat.simps)
  next
    case False
    have d: "n div 10 < 2 ^ 64" "10 * (n div 10) + n mod 10 = n" using "1.prems" by simp_all
    have "parse_digits (of_nat (n div 10)) [digit_char (n mod 10)] = Inr (of_nat (n div 10) * 10 + of_nat (n mod 10))"
      by (rule parse_one_digit) (use d "1.prems" in \<open>simp_all add: unat_of_nat\<close>)
    moreover have "(of_nat (n div 10) * 10 + of_nat (n mod 10) :: u64) = of_nat n"
      unfolding arg_cong [OF d(2), of "of_nat :: nat \<Rightarrow> u64", symmetric] of_nat_add of_nat_mult
      by (simp add: mult.commute)
    ultimately show ?thesis
      using False "1.IH" d(1) by (simp add: show_nat.simps [of n] parse_digits_append)
  qed
qed

lemma show_nat_digits: "set (show_nat n) \<subseteq> digit_char ` {..<10}"
proof (induction n rule: show_nat.induct)
  case (1 n)
  show ?case
  proof (cases "n < 10")
    case False
    have "digit_char (n mod 10) \<in> digit_char ` {..<10}" by (rule imageI) simp
    with 1 [OF False] False show ?thesis by (simp add: show_nat.simps [of n])
  qed (simp add: show_nat.simps [of n])
qed

lemma show_nat_not_Nil [simp]: "show_nat n \<noteq> []"
  by (subst show_nat.simps) simp

lemma not_digit_code:
  "is_whitespace c \<Longrightarrow> of_char c < (48::nat) \<or> 57 < (of_char c :: nat)"
  "of_char (CHR ''+'') = (43::nat)" "of_char (CHR ''-'') = (45::nat)" "of_char (CHR ''='') = (61::nat)"
  by (auto simp: is_whitespace_def)

lemma digit_not:
  assumes "d < 10"
  shows "\<not> is_whitespace (digit_char d)" "digit_char d \<noteq> CHR ''+''" "digit_char d \<noteq> CHR ''-''"
    "digit_char d \<noteq> CHR ''=''"
proof -
  have c: "48 \<le> (of_char (digit_char d) :: nat)" "(of_char (digit_char d) :: nat) \<le> 57"
    using assms by (simp_all add: of_digit_char)
  show "\<not> is_whitespace (digit_char d)" using not_digit_code(1) [of "digit_char d"] c by linarith
  show "digit_char d \<noteq> CHR ''+''" "digit_char d \<noteq> CHR ''-''" "digit_char d \<noteq> CHR ''=''"
    using c not_digit_code(2-4) by (metis numeral_le_iff semiring_norm)+
qed

lemma parse_u64_show:
  assumes "n < 2 ^ 64"
  shows "parse_u64 (show_nat n) = Inr (of_nat n)"
proof -
  obtain c cs where e: "show_nat n = c # cs" by (cases "show_nat n") auto
  with show_nat_digits [of n] obtain d where "d < 10" "c = digit_char d" by auto
  with parse_show_nat [OF assms] show ?thesis by (simp add: parse_u64_def e digit_not)
qed

section \<open>Lines\<close>

text \<open>A line without white space, which neither splits nor trims.\<close>

definition solid :: "string \<Rightarrow> bool" where
  "solid l \<longleftrightarrow> l \<noteq> [] \<and> (\<forall>c\<in>set l. \<not> is_whitespace c)"

lemma solid_trim: "solid l \<Longrightarrow> str_trim l = l"
proof -
  assume s: "solid l"
  then have "dropWhile is_whitespace l = l" by (cases l) (auto simp: solid_def)
  moreover have "dropWhile is_whitespace (rev l) = rev l"
    using s by (cases "rev l") (auto simp: solid_def)
  ultimately show ?thesis by (simp add: str_trim_def)
qed

lemma str_lines_from_line:
  "newline \<notin> set l \<Longrightarrow> str_lines_from cur (l @ newline # rest) = strip_cr (rev cur @ l) # str_lines_from [] rest"
  by (induction l arbitrary: cur) auto

lemma solid_strip_cr: "solid l \<Longrightarrow> strip_cr l = l"
  by (auto simp: strip_cr_def solid_def is_whitespace_def)

lemma str_lines_solid:
  "(\<And>l. l \<in> set ls \<Longrightarrow> solid l) \<Longrightarrow> str_lines (concat (map (\<lambda>l. l @ [newline]) ls)) = ls"
proof (induction ls)
  case (Cons l ls)
  have "solid l" using Cons.prems by simp
  then have "newline \<notin> set l" by (auto simp: solid_def is_whitespace_def newline_def)
  then show ?case
    using Cons solid_strip_cr [OF \<open>solid l\<close>] by (simp add: str_lines_def str_lines_from_line)
qed (simp add: str_lines_def)

lemma strip_prefix_name:
  assumes "CHR ''='' \<notin> set n" "CHR ''='' \<notin> set m"
  shows "strip_prefix (m @ ''='') (n @ ''='' @ v) = (if n = m then Some v else None)"
proof (cases "n = m")
  case False
  have "n = m" if "n @ ''='' @ v = (m @ ''='') @ t" for t
  proof -
    let ?stop = "takeWhile (\<lambda>c. c \<noteq> CHR ''='')"
    have "?stop (n @ ''='' @ v) = n" "?stop ((m @ ''='') @ t) = m"
      using assms by (auto simp: takeWhile_append)
    with that show ?thesis by simp
  qed
  then have "\<not> (\<exists>t. n @ ''='' @ v = (m @ ''='') @ t)" using False by blast
  then show ?thesis using False by (metis append_take_drop_id strip_prefix_def)
qed (simp add: strip_prefix_def)

section \<open>Reading a printed value back\<close>

definition tidy :: "string \<Rightarrow> bool" where
  "tidy n \<longleftrightarrow> list_all (\<lambda>c. \<not> is_whitespace c \<and> c \<noteq> CHR ''='') n"

definition in_range :: "int \<Rightarrow> bool" where
  "in_range v \<longleftrightarrow> 0 \<le> v \<and> v < 2 ^ 64"

lemma show_int_range: "in_range v \<Longrightarrow> show_int v = show_nat (nat v)"
  by (simp add: show_int_def in_range_def)

lemma solid_show_nat: "solid (show_nat n)"
  using show_nat_digits [of n] by (auto simp: solid_def digit_not)

lemma solid_line: "tidy n \<Longrightarrow> solid (n @ ''='' @ show_nat v)"
  using solid_show_nat [of v] by (auto simp: solid_def tidy_def list_all_iff is_whitespace_def)

lemma map_filter_key:
  assumes "distinct (map fst kvs)" "(n, v) \<in> set kvs"
  shows "List.map_filter (\<lambda>(m, w). if m = n then Some (f w) else None) kvs = [f v]"
proof -
  have none: "List.map_filter (\<lambda>(m, w). if m = n then Some (f w) else None) xs = []"
    if "n \<notin> fst ` set xs" for xs
    using that by (induction xs) (auto simp: map_filter_simps)
  show ?thesis
    using assms by (induction kvs) (auto simp: map_filter_simps none image_iff)
qed

lemma output_value_print:
  assumes t: "\<And>m w. (m, w) \<in> set kvs \<Longrightarrow> tidy m \<and> in_range w" and d: "distinct (map fst kvs)"
    and n: "(n, v) \<in> set kvs"
  shows "output_value (concat (map print_ln kvs)) n = Inr (word_of_int v)"
proof -
  let ?line = "\<lambda>(m, w). m @ ''='' @ show_nat (nat w)"
  have "map print_ln kvs = map (\<lambda>l. l @ [newline]) (map ?line kvs)"
    using t by (auto simp: print_ln_def show_int_range)
  then have "concat (map print_ln kvs) = concat (map (\<lambda>l. l @ [newline]) (map ?line kvs))" by (rule arg_cong)
  moreover have "str_lines (concat (map (\<lambda>l. l @ [newline]) (map ?line kvs))) = map ?line kvs"
    by (rule str_lines_solid) (use t solid_line in auto)
  ultimately have "str_lines (concat (map print_ln kvs)) = map ?line kvs" by simp
  moreover have "strip_prefix (n @ ''='') (str_trim (?line kv)) =
      (case kv of (m, w) \<Rightarrow> if m = n then Some (show_nat (nat w)) else None)" if "kv \<in> set kvs" for kv
  proof -
    obtain m w where kv: "kv = (m, w)" by (cases kv)
    have m: "tidy m" "tidy n" using t that n by (auto simp: kv)
    have "strip_prefix (n @ ''='') (m @ ''='' @ show_nat (nat w)) = (if m = n then Some (show_nat (nat w)) else None)"
      by (rule strip_prefix_name) (use m in \<open>auto simp: tidy_def list_all_iff\<close>)
    then show ?thesis by (simp add: kv solid_trim [OF solid_line [OF m(1)], simplified])
  qed
  then have "List.map_filter (\<lambda>line. strip_prefix (n @ ''='') (str_trim line)) (map ?line kvs)
      = List.map_filter (\<lambda>(m, w). if m = n then Some (show_nat (nat w)) else None) kvs"
    by (simp add: List.map_filter_def filter_map comp_def) (auto intro!: map_cong filter_cong)
  ultimately have "List.map_filter (\<lambda>line. strip_prefix (n @ ''='') (str_trim line))
      (str_lines (concat (map print_ln kvs))) = [show_nat (nat v)]"
    using map_filter_key [OF d n, of "\<lambda>w. show_nat (nat w)"] by simp
  moreover have "in_range v" using t [OF n] by simp
  then have "nat v < 2 ^ 64" "of_nat (nat v) = (word_of_int v :: u64)" by (auto simp: in_range_def nat_less_iff)
  ultimately show ?thesis
    by (simp add: output_value_def solid_trim [OF solid_show_nat] parse_u64_show)
qed

definition output_names :: "string list" where
  "output_names = concat (map (\<lambda>slot. [slot_name slot ''MATCHED'', slot_name slot ''PRICE'', slot_name slot ''QUANTITY''])
       [0..<MAX_MATCH_SLOTS]) @ [''OCLOB_ARRIVING_REMAINING'']
     @ concat (map (\<lambda>i. [level_name i ''SIDE'', level_name i ''PRICE'', level_name i ''QUANTITY''])
         [0..<MAX_MATCH_SLOTS + 1])"

lemma output_names_distinct: "distinct output_names"
  by code_simp

lemma output_names_tidy: "list_all tidy output_names"
  by code_simp

lemma circuit_outputs_names: "map fst (circuit_outputs sort_rows rnd vs) = output_names"
  by (simp add: circuit_outputs_def output_names_def Let_def map_concat comp_def)

section \<open>Parsing a round of the circuit\<close>

lemma party_value:
  assumes "\<And>m w. (m, w) \<in> set (circuit_outputs sort_rows rnd vs) \<Longrightarrow> in_range w"
    and "(n, v) \<in> set (circuit_outputs sort_rows rnd vs)"
  shows "output_value (party_text sort_rows rnd vs) n = Inr (word_of_int v)"
  unfolding party_text_def
proof (rule output_value_print [OF _ _ assms(2)])
  fix m w
  assume mw: "(m, w) \<in> set (circuit_outputs sort_rows rnd vs)"
  then have "m \<in> set output_names" unfolding circuit_outputs_names [of sort_rows rnd vs, symmetric] by force
  then show "tidy m \<and> in_range w" using output_names_tidy assms(1) [OF mw] by (simp add: list_all_iff)
next
  show "distinct (map fst (circuit_outputs sort_rows rnd vs))"
    unfolding circuit_outputs_names by (rule output_names_distinct)
qed

lemma circuit_outputs_mem:
  fixes sort_rows rnd vs
  defines "out \<equiv> circuit_outputs sort_rows rnd vs" and "rs \<equiv> read_slots vs" and "a \<equiv> read_arriving vs"
  defines "rows \<equiv> sort_rows (depth_rows (book_wires a rs rnd))"
  shows "i < MAX_MATCH_SLOTS \<Longrightarrow> (slot_name i ''MATCHED'', matched_wire a rs i) \<in> set out"
    and "i < MAX_MATCH_SLOTS \<Longrightarrow> (slot_name i ''PRICE'', trade_price_wire a rs i) \<in> set out"
    and "i < MAX_MATCH_SLOTS \<Longrightarrow> (slot_name i ''QUANTITY'', trade_quantity_wire a rs i) \<in> set out"
    and "(''OCLOB_ARRIVING_REMAINING'', published_remaining a rs) \<in> set out"
    and "i \<le> MAX_MATCH_SLOTS \<Longrightarrow> (level_name i ''SIDE'', dr_side (rows ! i)) \<in> set out"
    and "i \<le> MAX_MATCH_SLOTS \<Longrightarrow> (level_name i ''PRICE'', dr_price (rows ! i)) \<in> set out"
    and "i \<le> MAX_MATCH_SLOTS \<Longrightarrow> (level_name i ''QUANTITY'', dr_quantity (rows ! i)) \<in> set out"
  unfolding out_def circuit_outputs_def Let_def rs_def [symmetric] a_def [symmetric] rows_def [symmetric]
    set_append set_concat set_map set_upt
  by (auto simp: less_Suc_eq_le)

lemma circuit_outputs_cases:
  assumes "(n, v) \<in> set (circuit_outputs sort_rows rnd vs)"
  defines "rs \<equiv> read_slots vs" and "a \<equiv> read_arriving vs"
  defines "rows \<equiv> sort_rows (depth_rows (book_wires a rs rnd))"
  obtains i where "i < MAX_MATCH_SLOTS" "v \<in> {matched_wire a rs i, trade_price_wire a rs i, trade_quantity_wire a rs i}"
  | "v = published_remaining a rs"
  | i where "i \<le> MAX_MATCH_SLOTS" "v \<in> {dr_side (rows ! i), dr_price (rows ! i), dr_quantity (rows ! i)}"
  using assms(1) unfolding circuit_outputs_def Let_def rs_def [symmetric] a_def [symmetric] rows_def [symmetric]
    set_append set_concat set_map set_upt
  by (auto simp: less_Suc_eq_le)

lemma parse_levels_padding:
  assumes "\<And>i. i \<in> set is \<Longrightarrow> output_value text (level_name i ''SIDE'') = Inr 0
    \<and> output_value text (level_name i ''PRICE'') = Inr 0 \<and> output_value text (level_name i ''QUANTITY'') = Inr 0"
  shows "parse_levels text b is = Inr []"
  using assms by (induction "is" arbitrary: b) auto

lemma parse_levels_active:
  assumes "\<And>i. i \<in> set is \<Longrightarrow> output_value text (level_name i ''SIDE'') = Inr (word_of_int (dr_side (f i)))
      \<and> output_value text (level_name i ''PRICE'') = Inr (word_of_int (dr_price (f i)))
      \<and> output_value text (level_name i ''QUANTITY'') = Inr (word_of_int (dr_quantity (f i)))"
    and "\<And>i. i \<in> set is \<Longrightarrow> (dr_side (f i) = 0 \<or> dr_side (f i) = 1) \<and> (word_of_int (dr_quantity (f i)) :: u64) \<noteq> 0"
    and "parse_levels text False js = Inr ls"
  shows "parse_levels text False (is @ js) = Inr (map (row_level \<circ> f) is @ ls)"
  using assms
proof (induction "is")
  case (Cons i "is")
  have "parse_levels text False (is @ js) = Inr (map (row_level \<circ> f) is @ ls)" using Cons by simp
  then show ?case using Cons.prems(1,2) [of i] by (auto simp: row_level_def)
qed simp

end
