(* ===== verification/Book_Priority.thy ===== *)
theory Book_Priority
  imports Book_Properties
begin

text \<open>
  Price-time priority on the book itself: the live opposite orders are handed to the matching rule
  best first, so the fills of an accepted batch respect priority and every limit; when the order does
  not exceed the eight slots, the result is that of matching against the whole side, and the book stays
  uncrossed.
\<close>

section \<open>The slots are in priority order\<close>

lemma ordered_opposite_sorted:
  assumes "sides_ok b"
  shows "sorted_wrt (outranks s) (ordered_opposite b s)"
  using assms flat_sorted [of Sell "asks b"] flat_rev_sorted [of Buy "bids b"]
  by (cases s) (simp_all add: ordered_opposite_def sides_ok_def)

lemma live_sorted: "sides_ok b \<Longrightarrow> sorted_wrt (outranks (side ord)) (live_opposite b ord now)"
  unfolding live_opposite_def by (intro sorted_wrt_filter ordered_opposite_sorted)

lemma live_side:
  assumes "sides_ok b" "r \<in> set (live_opposite b ord now)"
  shows "side (secret r) \<noteq> side ord"
  using assms side_ok_flat [of Sell "asks b" r] side_ok_flat [of Buy "bids b" r]
  by (cases "side ord") (auto simp: live_opposite_def set_ordered_opposite sides_ok_def)

lemma outranks_crosses:
  "outranks s x y \<Longrightarrow> crosses s price (limit_price (secret y)) \<Longrightarrow> crosses s price (limit_price (secret x))"
  by (cases s) (auto simp: outranks_def crosses_def)

lemma outranks_asym: "outranks s x y \<Longrightarrow> \<not> outranks s y x"
  by (cases s) (auto simp: outranks_def)

text \<open>Positions in a sorted list reflect the order.\<close>

lemma sorted_index:
  assumes "sorted_wrt P xs" "\<And>x y. P x y \<Longrightarrow> \<not> P y x" "i < length xs" "j < length xs" "P (xs ! i) (xs ! j)"
  shows "i < j"
proof (rule ccontr)
  assume "\<not> i < j"
  then consider "i = j" | "j < i" by linarith
  then show False
  proof cases
    case 1
    with assms(2,5) show False by blast
  next
    case 2
    with sorted_wrt_nth_less [OF assms(1) 2 assms(3)] assms(2,5) show False by blast
  qed
qed

section \<open>What a slot trades\<close>

lemma traded_slot:
  assumes "distinct (map (ri_commitment \<circ> fst) zs)" "(y, sl) \<in> set zs"
  shows "traded (fills_of taker zs) (ri_commitment y) = (if matched sl then trade_quantity sl else 0)"
  using assms
proof (induction zs)
  case (Cons z zs)
  obtain r slot where z: "z = (r, slot)" by (cases z)
  have nin: "ri_commitment r \<notin> (ri_commitment \<circ> fst) ` set zs" using Cons.prems(1) by (simp add: z)
  show ?case
  proof (cases "(y, sl) \<in> set zs")
    case True
    then have "ri_commitment r \<noteq> ri_commitment y" using nin by force
    with Cons True show ?thesis by (simp add: z)
  next
    case False
    then have yz: "y = r" "sl = slot" using Cons.prems(2) by (auto simp: z)
    have "traded (fills_of taker zs) (ri_commitment r) = 0"
      using nin makers_fills_of [of taker zs] by (intro traded_other) blast
    then show ?thesis by (simp add: z yz)
  qed
qed simp

lemma batch_trade:
  assumes "sides_ok b" "i < length (live_opposite b ord now)"
  defines "B \<equiv> batch_of b ord now"
  shows "unat (traded (batch_fills b ord a now) (rc (live_opposite b ord now ! i))) =
    (if i < MAX_MATCH_SLOTS
     then fair_share B (unat (quantity ord)) (depth_ahead B (take i (resting B)))
            (resting_input (live_opposite b ord now ! i))
     else 0)"
proof (cases "i < MAX_MATCH_SLOTS")
  case True
  let ?l = "live_opposite b ord now" and ?sl = "slots (expected_batch B) ! i"
  have len: "i < length (resting B)" using True assms(2) by (simp add: B_def batch_of_def)
  have ri: "resting B ! i = resting_input (?l ! i)" using True assms(2) by (simp add: B_def batch_of_def)
  have mem: "(resting B ! i, ?sl) \<in> set (zip (resting B) (slots (expected_batch B)))"
    using len by (auto simp: set_zip)
  have d: "distinct (map (ri_commitment \<circ> fst) (zip (resting B) (slots (expected_batch B))))"
    using batch_slots_ok [OF assms(1), of ord now] by (simp add: slots_ok_def B_def)
  have "traded (batch_fills b ord a now) (ri_commitment (resting B ! i)) = trade_quantity ?sl"
    using traded_slot [OF d mem, of "oa_commitment a"] unmatched_slot [OF mem]
    by (simp add: batch_fills_def B_def)
  moreover have "unat (trade_quantity ?sl) =
      fair_share B (unat (quantity ord)) (depth_ahead B (take i (resting B))) (resting B ! i)"
    using match_slots_share [OF len, of B "arriving_quantity B"]
    by (simp add: slots_expected_batch) (simp add: B_def batch_of_def)
  ultimately show ?thesis using True by (simp add: ri) (simp add: resting_input_def)
next
  case False
  let ?l = "live_opposite b ord now"
  have dl: "distinct (map rc ?l)" by (rule distinct_live_opposite [OF assms(1)])
  have "rc (?l ! i) \<notin> rc ` set (take MAX_MATCH_SLOTS ?l)"
  proof
    assume "rc (?l ! i) \<in> rc ` set (take MAX_MATCH_SLOTS ?l)"
    then obtain j where "j < MAX_MATCH_SLOTS" "j < length ?l" "rc (?l ! i) = rc (?l ! j)"
      by (auto simp: in_set_conv_nth)
    with dl assms(2) False show False by (auto simp: distinct_conv_nth)
  qed
  moreover have sub: "(ri_commitment \<circ> fst) ` set (zip (resting B) (slots (expected_batch B)))
      \<subseteq> rc ` set (take MAX_MATCH_SLOTS ?l)"
    by (auto simp: B_def batch_of_def resting_input_def dest!: set_zip_leftD)
  moreover have "maker_order ` set (batch_fills b ord a now) \<subseteq> rc ` set (take MAX_MATCH_SLOTS ?l)"
    using order_trans [OF makers_fills_of sub, of "oa_commitment a"] unfolding batch_fills_def B_def .
  ultimately have "traded (batch_fills b ord a now) (rc (?l ! i)) = 0"
    by (intro traded_other) blast
  with False show ?thesis by simp
qed

lemma live_eligible:
  assumes "book_ok E b" "r \<in> set (live_opposite b ord now)"
  shows "eligible (batch_of b ord now) (resting_input r)
    \<longleftrightarrow> crosses (side ord) (limit_price ord) (limit_price (secret r))"
proof -
  have "side (secret r) \<noteq> side ord" by (rule live_side [OF book_ok_sides [OF assms(1)] assms(2)])
  moreover have "r \<in> set (orders b)" using assms(2) live_opposite_subset by blast
  then have "0 < remaining r" using assms(1) by (simp add: book_ok_alt record_ok_def)
  ultimately show ?thesis by (simp add: eligible_def batch_of_def resting_input_def)
qed

lemma priority_filled:
  assumes ok: "book_ok E b" and x: "x \<in> set (live_opposite b ord now)"
    and y: "y \<in> set (live_opposite b ord now)" and xy: "outranks (side ord) x y"
    and f: "traded (batch_fills b ord a now) (rc y) \<noteq> 0"
  shows "traded (batch_fills b ord a now) (rc x) = remaining x"
proof -
  let ?l = "live_opposite b ord now" and ?B = "batch_of b ord now" and ?A = "unat (quantity ord)"
  note sides = book_ok_sides [OF ok]
  from x y obtain i j where i: "i < length ?l" "x = ?l ! i" and j: "j < length ?l" "y = ?l ! j"
    by (auto simp: in_set_conv_nth)
  have ij: "i < j"
    by (rule sorted_index [OF live_sorted [OF sides, of ord now] outranks_asym i(1) j(1)])
       (use xy i(2) j(2) in simp_all)
  have "unat (traded (batch_fills b ord a now) (rc (?l ! j))) \<noteq> 0" using f j(2) by (simp add: unat_eq_0)
  then have j8: "j < MAX_MATCH_SLOTS"
    and jf: "fair_share ?B ?A (depth_ahead ?B (take j (resting ?B))) (resting_input y) \<noteq> 0"
    unfolding batch_trade [OF sides j(1)] by (simp_all add: j(2) split: if_splits)
  then have ey: "eligible ?B (resting_input y)" and da: "depth_ahead ?B (take j (resting ?B)) < ?A"
    by (auto simp: fair_share_def split: if_splits)
  have ex: "eligible ?B (resting_input x)"
    using ey outranks_crosses [OF xy] live_eligible [OF ok x] live_eligible [OF ok y] by simp
  have "resting ?B ! i = resting_input x" "i < length (resting ?B)"
    using ij j8 i by (simp_all add: batch_of_def)
  then have t1: "take (Suc i) (resting ?B) = take i (resting ?B) @ [resting_input x]"
    by (simp add: take_Suc_conv_app_nth)
  have t2: "take j (resting ?B) = take (Suc i) (resting ?B) @ drop (Suc i) (take j (resting ?B))"
    using ij append_take_drop_id [of "Suc i" "take j (resting ?B)"] by (simp add: min_def)
  have q: "ri_quantity (resting_input x) = remaining x" by (simp add: resting_input_def)
  have "depth_ahead ?B (take j (resting ?B)) = depth_ahead ?B (take i (resting ?B))
      + unat (remaining x) + depth_ahead ?B (drop (Suc i) (take j (resting ?B)))"
    by (subst t2, subst t1) (simp only: depth_ahead_simps ex q if_True add_0_right add.assoc)
  with da have "?A - depth_ahead ?B (take i (resting ?B)) \<ge> unat (remaining x)" by linarith
  then have "unat (traded (batch_fills b ord a now) (rc (?l ! i))) = unat (remaining x)"
    unfolding batch_trade [OF sides i(1)] using ij j8 ex i(2)
    by (simp add: fair_share_def resting_input_def)
  then show ?thesis using i(2) by (simp add: word_eq_unat)
qed

text \<open>An accepted batch, seen from its result.\<close>

lemma batch_accepted:
  assumes ok: "book_ok E b" and o: "order_ok ord" "pb_sequence b \<noteq> u64_max"
    and r: "apply_mpc_batch_result E b ord a seq now result = (Inr tr, b')"
  obtains b1 where "accepted E b ord a seq now" "result = expected_batch (batch_of b ord now)"
    "bx_fills tr = batch_fills b ord a now" "fills_applied b (batch_fills b ord a now) b1"
    "mset (orders b') = mset (orders b1) + mset (rest_of ord a seq (arriving_remaining result))"
  using ok
proof (cases rule: apply_mpc_batch_result_cases [of E b ord a seq now result])
  case (Err e)
  with r show thesis by simp
next
  case (Ok b1 t)
  have ad: "admissible E b1 ord a seq"
    using fills_applied_admissible [OF Ok(3)] accepted_admissible [OF Ok(1) o] by simp
  have "arriving_remaining result \<le> quantity ord" unfolding Ok(2) by (rule arriving_remaining_le_quantity)
  note m = book_ok_rest_arriving(2) [OF book_ok_fills_applied [OF ok Ok(3)] ad this]
  have tr: "tr = t" and b': "b' = admit (oa_commitment a) seq (rest_arriving ord a seq (arriving_remaining result) b1)"
    using Ok(7) r by simp_all
  show thesis
    by (rule that [OF Ok(1,2) _ Ok(3)]) (simp_all only: tr Ok(4) b' orders_admit m)
qed

lemma rest_of_rc: "rc ` set (rest_of ord a seq left) \<subseteq> {oa_commitment a}"
  by (auto simp: rest_of_def)

lemma traded_maker: "c \<in> maker_order ` set fs \<Longrightarrow> (\<And>f. f \<in> set fs \<Longrightarrow> fill_quantity f \<noteq> 0) \<Longrightarrow>
    distinct (map maker_order fs) \<Longrightarrow> traded fs c \<noteq> 0"
proof (induction fs)
  case (Cons f fs)
  show ?case
  proof (cases "maker_order f = c")
    case True
    then have "traded fs c = 0" using Cons.prems(3) by (intro traded_other) auto
    moreover have "fill_quantity f \<noteq> 0" by (rule Cons.prems(2)) simp
    ultimately show ?thesis using True by simp
  next
    case False
    have "traded fs c \<noteq> 0"
      by (rule Cons.IH) (use Cons.prems False in auto)
    with False show ?thesis by simp
  qed
qed simp

lemma batch_fills_in:
  assumes ok: "book_ok E b" and f: "f \<in> set (batch_fills b ord a now)"
  obtains r where "r \<in> set (live_opposite b ord now)" "maker_order f = rc r"
    "fill_price f = limit_price (secret r)" "crosses (side ord) (limit_price ord) (fill_price f)"
    "0 < fill_quantity f" "fill_quantity f \<le> remaining r" "taker_order f = oa_commitment a"
proof -
  let ?B = "batch_of b ord now"
  from f obtain y sl where z: "(y, sl) \<in> set (zip (resting ?B) (slots (expected_batch ?B)))" and m: "matched sl"
    and ff: "f = \<lparr>maker_order = ri_commitment y, taker_order = oa_commitment a, fill_price = trade_price sl,
      fill_quantity = trade_quantity sl\<rparr>"
    by (auto simp: batch_fills_def fills_of_def)
  from z obtain i where i: "i < length (resting ?B)" "y = resting ?B ! i" "sl = slots (expected_batch ?B) ! i"
    by (auto simp: in_set_conv_nth)
  obtain before where sl: "sl = match_slot ?B before y" using slot_cases [OF i(1)] i(2,3) by metis
  have "y \<in> set (resting ?B)" using i(1,2) by simp
  then obtain r where r: "r \<in> set (live_opposite b ord now)" "y = resting_input r"
    by (auto simp: batch_of_def dest: in_set_takeD)
  have "crosses (side ord) (limit_price ord) (limit_price (secret r))" "trade_price sl = limit_price (secret r)"
      "0 < trade_quantity sl" "trade_quantity sl \<le> remaining r"
    using m slot_le [OF z] matched_match_slot [of ?B before y]
    by (simp_all add: sl r(2)) (simp_all add: match_slot_def batch_of_def resting_input_def Let_def)
  with that [OF r(1)] show thesis by (simp add: ff r(2) resting_input_def)
qed

lemma batch_fills_traded:
  assumes "book_ok E b" "rc y \<in> maker_order ` set (batch_fills b ord a now)"
  shows "traded (batch_fills b ord a now) (rc y) \<noteq> 0"
proof (rule traded_maker [OF assms(2)])
  show "fill_quantity f \<noteq> 0" if "f \<in> set (batch_fills b ord a now)" for f
    using batch_fills_in [OF assms(1) that] by (metis less_irrefl)
  show "distinct (map maker_order (batch_fills b ord a now))"
    using batch_slots_ok [OF book_ok_sides [OF assms(1)], of ord now]
    unfolding batch_fills_def slots_ok_def by (intro distinct_makers) blast
qed

text \<open>C3. Price-time priority: when an accepted batch fills a resting order, every live order of the same
  side with a better price, or with the same price and an earlier sequence, is filled completely by the
  same batch and leaves the book.\<close>

theorem batch_price_time_priority:
  assumes "book_reachable E b" "order_ok ord" "pb_sequence b \<noteq> u64_max"
    and "apply_mpc_batch_result E b ord a seq now result = (Inr tr, b')"
    and "x \<in> set (live_opposite b ord now)" "y \<in> set (live_opposite b ord now)" "outranks (side ord) x y"
    and "rc y \<in> maker_order ` set (bx_fills tr)"
  shows "traded (bx_fills tr) (rc x) = remaining x \<and> rc x \<notin> rc ` set (orders b')"
proof -
  have ok: "book_ok E b" by (rule reachable_book_ok [OF assms(1)])
  from ok assms(2-4) obtain b1 where acc: "accepted E b ord a seq now"
    and fs: "bx_fills tr = batch_fills b ord a now" and fa: "fills_applied b (batch_fills b ord a now) b1"
    and b': "mset (orders b') = mset (orders b1) + mset (rest_of ord a seq (arriving_remaining result))"
    by (rule batch_accepted)
  have t: "traded (batch_fills b ord a now) (rc x) = remaining x"
    using assms(8) batch_fills_traded [OF ok] unfolding fs by (intro priority_filled [OF ok assms(5-7)]) blast
  have xb: "x \<in> set (orders b)" using assms(5) live_opposite_subset by blast
  have inj: "inj_on rc (set (orders b))" using ok by (simp add: book_ok_alt sides_ok_def distinct_map)
  have "rc x \<noteq> oa_commitment a"
    using xb ok acc by (auto simp: book_ok_alt record_ok_def accepted_def check_admission_ok)
  moreover have "rc x \<notin> rc ` set (orders b1)"
    using t inj_onD [OF inj _ _ xb] by (auto simp: fills_applied_orders [OF fa] set_settle)
  moreover have "set (orders b') = set (orders b1) \<union> set (rest_of ord a seq (arriving_remaining result))"
    using arg_cong [OF b', of set_mset] by simp
  ultimately show ?thesis using t fs rest_of_rc [of ord a seq "arriving_remaining result"] by auto
qed

text \<open>A second, worse ask of 4 at 11 in the concrete book; the bid of 5 takes all of the first and 2 of the
  second.\<close>

definition sample_ask2 :: SecretOrder where
  "sample_ask2 = sample_order Sell 11 4 GoodTilCancelled 6"

definition sample_record2 :: RestingOrder where
  "sample_record2 = \<lparr>secret = sample_ask2, authority = sample_authority sample_ask2, remaining = 4, ro_sequence = 2\<rparr>"

definition sample_book2 :: PrivateBook where
  "sample_book2 = \<lparr>pb_market_id = [65], pb_sequence = 2, bids = [],
     asks = [(10, [sample_record]), (11, [sample_record2])],
     admitted = {OrderCommitment 2546, OrderCommitment 2553}\<rparr>"

lemma sample_ask2_fields:
  "market_id sample_ask2 = [65]" "side sample_ask2 = Sell" "limit_price sample_ask2 = 11"
  "quantity sample_ask2 = 4" "time_in_force sample_ask2 = GoodTilCancelled" "expires_at sample_ask2 = 99"
  by (simp_all add: sample_ask2_def sample_order_def)

lemma sample_ask2_commitment: "oa_commitment (sample_authority sample_ask2) = OrderCommitment 2553"
proof -
  have "commitment sample_crypto sample_ask2 = OrderCommitment 2553"
    by (simp add: sample_ask2_def sample_commitment_simps)
  then show ?thesis by (simp add: sample_authority_ok(2) sample_ask2_fields)
qed

lemma sample_book2_reachable: "book_reachable sample_crypto sample_book2"
proof -
  have "run_command sample_crypto sample_book 2 (InsertResting sample_ask2 (sample_authority sample_ask2) 50)
      = (Inr (), sample_book2)"
    by (simp add: run_command_def insert_resting_def sample_authority_ok(3) sample_ask2_fields
        check_admission_def sample_book_def sample_book2_def sample_record2_def admit_def insert_record_def
        btree_upsert_def btree_get_def sample_ask2_commitment insert_commute)
  from reachable_step_ok [OF sample_book_reachable _ _ this] show ?thesis
    by (simp add: command_ok_def sample_ask2_def sample_order_ok sample_book_def u64_max_def)
qed

lemma sample_records2:
  "rc sample_record = OrderCommitment 2546" "rc sample_record2 = OrderCommitment 2553"
  "secret sample_record = sample_ask" "secret sample_record2 = sample_ask2"
  "remaining sample_record = 3" "remaining sample_record2 = 4"
  "ro_sequence sample_record = 1" "ro_sequence sample_record2 = 2"
  by (simp_all add: sample_record_def sample_record2_def sample_commitments sample_ask2_commitment)

lemma sample_live2: "live_opposite sample_book2 sample_bid 50 = [sample_record, sample_record2]"
  by (simp add: live_opposite_def ordered_opposite_def sample_fields sample_book2_def sample_records2
      sample_ask2_fields)

lemma sample_sequence2: "pb_sequence sample_book2 \<noteq> u64_max"
  by (simp add: sample_book2_def u64_max_def)

definition sample_result2 :: MpcBatchResult where
  "sample_result2 = expected_batch (batch_of sample_book2 sample_bid 50)"

lemma sample_fills2:
  "batch_fills sample_book2 sample_bid (sample_authority sample_bid) 50 =
     [\<lparr>maker_order = OrderCommitment 2546, taker_order = OrderCommitment 2554, fill_price = 10, fill_quantity = 3\<rparr>,
      \<lparr>maker_order = OrderCommitment 2553, taker_order = OrderCommitment 2554, fill_price = 11, fill_quantity = 2\<rparr>]"
  by (simp add: batch_fills_def batch_of_def sample_live2 MAX_MATCH_SLOTS_def resting_input_def sample_records2
      sample_fields sample_ask2_fields expected_batch_def match_slot_def crosses_def fills_of_def sample_commitments)

lemma sample_apply2:
  obtains tr b' where "apply_mpc_batch_result sample_crypto sample_book2 sample_bid
      (sample_authority sample_bid) 3 50 sample_result2 = (Inr tr, b')"
    "bx_fills tr = batch_fills sample_book2 sample_bid (sample_authority sample_bid) 50"
proof -
  have a: "accepted sample_crypto sample_book2 sample_bid (sample_authority sample_bid) 3 50"
    by (simp add: accepted_def sample_authority_ok(3) sample_fields check_admission_def sample_book2_def
        sample_commitments)
  have "book_ok sample_crypto sample_book2" by (rule reachable_book_ok [OF sample_book2_reachable])
  then show thesis
  proof (cases rule: apply_mpc_batch_result_cases [of sample_crypto sample_book2 sample_bid
        "sample_authority sample_bid" 3 50 sample_result2])
    case (Err e)
    with a sample_result2_def show thesis by blast
  next
    case (Ok b1 tr)
    from that [OF Ok(7,4)] show thesis .
  qed
qed

theorem batch_price_time_priority_witness:
  "\<exists>tr b'. apply_mpc_batch_result sample_crypto sample_book2 sample_bid (sample_authority sample_bid) 3 50
       sample_result2 = (Inr tr, b') \<and> traded (bx_fills tr) (OrderCommitment 2546) = 3"
proof -
  obtain tr b' where r: "apply_mpc_batch_result sample_crypto sample_book2 sample_bid
      (sample_authority sample_bid) 3 50 sample_result2 = (Inr tr, b')"
    and f: "bx_fills tr = batch_fills sample_book2 sample_bid (sample_authority sample_bid) 50"
    by (rule sample_apply2)
  have "traded (bx_fills tr) (rc sample_record) = remaining sample_record \<and> rc sample_record \<notin> rc ` set (orders b')"
    by (rule batch_price_time_priority [OF sample_book2_reachable sample_orders_ok(2) _ r, where y = sample_record2])
       (simp_all add: sample_live2 f sample_fills2 sample_records2 outranks_def sample_fields sample_ask2_fields
          sample_sequence2)
  with r show ?thesis by (simp add: sample_records2)
qed

text \<open>C19. The terms of a fill: every fill of an accepted batch takes a live order of the opposite side, at
  the limit price of that resting order, which the arriving order's own limit permits, for a positive
  quantity no larger than what remained of the resting order, and in favour of the arriving order.\<close>

theorem batch_fill_terms:
  assumes "book_reachable E b" "order_ok ord" "pb_sequence b \<noteq> u64_max"
    and "apply_mpc_batch_result E b ord a seq now result = (Inr tr, b')" "f \<in> set (bx_fills tr)"
  shows "\<exists>r\<in>set (orders b). maker_order f = rc r \<and> taker_order f = oa_commitment a \<and> side (secret r) \<noteq> side ord
    \<and> now \<le> expires_at (secret r) \<and> fill_price f = limit_price (secret r)
    \<and> (case side ord of Buy \<Rightarrow> fill_price f \<le> limit_price ord | Sell \<Rightarrow> limit_price ord \<le> fill_price f)
    \<and> 0 < fill_quantity f \<and> fill_quantity f \<le> remaining r"
proof -
  have ok: "book_ok E b" by (rule reachable_book_ok [OF assms(1)])
  from ok assms(2-4) have "bx_fills tr = batch_fills b ord a now" by (rule batch_accepted)
  with assms(5) have "f \<in> set (batch_fills b ord a now)" by simp
  from batch_fills_in [OF ok this] obtain r where r: "r \<in> set (live_opposite b ord now)" "maker_order f = rc r"
    "fill_price f = limit_price (secret r)" "crosses (side ord) (limit_price ord) (fill_price f)"
    "0 < fill_quantity f" "fill_quantity f \<le> remaining r" "taker_order f = oa_commitment a" .
  have "side (secret r) \<noteq> side ord" by (rule live_side [OF book_ok_sides [OF ok] r(1)])
  moreover have "r \<in> set (orders b)" using r(1) live_opposite_subset by blast
  moreover have "now \<le> expires_at (secret r)" using r(1) by (simp add: live_opposite_def)
  ultimately show ?thesis using r(2-7) by (cases "side ord") (auto simp: crosses_def)
qed

theorem batch_fill_terms_witness:
  "\<exists>tr b'. apply_mpc_batch_result sample_crypto sample_book2 sample_bid (sample_authority sample_bid) 3 50
       sample_result2 = (Inr tr, b') \<and> (\<exists>f\<in>set (bx_fills tr). \<exists>r\<in>set (orders sample_book2).
         fill_price f = limit_price (secret r) \<and> fill_price f \<le> 12)"
proof -
  obtain tr b' where r: "apply_mpc_batch_result sample_crypto sample_book2 sample_bid
      (sample_authority sample_bid) 3 50 sample_result2 = (Inr tr, b')"
    and f: "bx_fills tr = batch_fills sample_book2 sample_bid (sample_authority sample_bid) 50"
    by (rule sample_apply2)
  have "hd (bx_fills tr) \<in> set (bx_fills tr)" by (simp add: f sample_fills2)
  from batch_fill_terms [OF sample_book2_reachable sample_orders_ok(2) sample_sequence2 r this] this r show ?thesis
    by (auto simp: sample_fields)
qed

section \<open>The fixed capacity\<close>

text \<open>The batch without the limit of eight slots.\<close>

definition whole_batch :: "PrivateBook \<Rightarrow> SecretOrder \<Rightarrow> u64 \<Rightarrow> PrivateMatchBatch" where
  "whole_batch b ord now = (batch_of b ord now)\<lparr>resting := map resting_input (live_opposite b ord now)\<rparr>"

lemma match_slot_resting [simp]: "match_slot (batch\<lparr>resting := rs\<rparr>) q r = match_slot batch q r"
  by (simp add: match_slot_def)

lemma match_slots_resting [simp]: "match_slots (batch\<lparr>resting := rs\<rparr>) q xs = match_slots batch q xs"
  by (induction xs arbitrary: q) simp_all

lemma match_slots_append:
  "match_slots batch q (xs @ ys) =
     (let (s1, q1) = match_slots batch q xs; (s2, q2) = match_slots batch q1 ys in (s1 @ s2, q2))"
  by (induction xs arbitrary: q) (simp_all add: Let_def split_def)

text \<open>The counting loop returns true exactly when the order behind the last slot would still trade.\<close>

lemma count_matches_iff:
  assumes "m \<le> MAX_MATCH_SLOTS" "\<And>r. r \<in> set rs \<Longrightarrow> eligible batch (resting_input r)
        \<longleftrightarrow> crosses (side ord) (limit_price ord) (limit_price (secret r))"
    and "sorted_wrt (outranks (side ord)) rs"
  shows "count_matches ord left m rs \<longleftrightarrow> MAX_MATCH_SLOTS - m < length rs
    \<and> eligible batch (resting_input (rs ! (MAX_MATCH_SLOTS - m)))
    \<and> depth_ahead batch (map resting_input (take (MAX_MATCH_SLOTS - m) rs)) < unat left"
  using assms
proof (induction rs arbitrary: m left)
  case (Cons r rs)
  let ?n = "MAX_MATCH_SLOTS - m"
  have er: "eligible batch (resting_input r) \<longleftrightarrow> crosses (side ord) (limit_price ord) (limit_price (secret r))"
    by (rule Cons.prems(2)) simp
  have q: "ri_quantity (resting_input r) = remaining r" by (simp add: resting_input_def)
  have later: "eligible batch (resting_input r)" if "x \<in> set rs" "eligible batch (resting_input x)" for x
    using that outranks_crosses [of "side ord" r x "limit_price ord"] Cons.prems(2) [of x] Cons.prems(3) er by simp
  show ?case
  proof (cases "eligible batch (resting_input r) \<and> left \<noteq> 0")
    case False
    then show ?thesis using er later [of "rs ! (?n - 1)"]
      by (cases ?n) (auto simp: unat_eq_0)
  next
    case True
    show ?thesis
    proof (cases "m = MAX_MATCH_SLOTS")
      case full: True
      with True er show ?thesis by (simp add: unat_gt_0)
    next
      case False
      then have n: "?n = Suc (MAX_MATCH_SLOTS - Suc m)" using Cons.prems(1) by simp
      have "unat (left - min left (remaining r)) = unat left - unat (remaining r)"
        by (simp add: unat_diff min_def word_le_nat_alt)
      with Cons.IH [of "Suc m" "left - min left (remaining r)"] Cons.prems True False er n show ?thesis
        by (simp add: q less_diff_conv add.commute)
    qed
  qed
qed simp

lemma depth_ahead_take_mono:
  assumes "i \<le> j" shows "depth_ahead batch (take i rs) \<le> depth_ahead batch (take j rs)"
proof -
  have "take j rs = take i rs @ drop i (take j rs)"
    using append_take_drop_id [of i "take j rs"] assms by (simp add: min_def)
  then show ?thesis by (metis depth_ahead_simps(3) le_add1)
qed

lemma whole_matched:
  assumes "i < length (live_opposite b ord now)"
  shows "matched (slots (expected_batch (whole_batch b ord now)) ! i) \<longleftrightarrow>
    eligible (batch_of b ord now) (resting_input (live_opposite b ord now ! i))
    \<and> depth_ahead (batch_of b ord now) (map resting_input (take i (live_opposite b ord now))) < unat (quantity ord)"
proof -
  have B: "arriving_quantity (batch_of b ord now) = quantity ord" by (simp add: batch_of_def)
  show ?thesis
    using assms match_slots_share [of i "map resting_input (live_opposite b ord now)" "batch_of b ord now" "quantity ord"]
    by (auto simp: slots_expected_batch whole_batch_def B match_slots_nth matched_match_slot word_gt_0_unat
        fair_share_def take_map eligible_def)
qed

lemma exceeds_iff:
  assumes ok: "book_ok E b"
  shows "exceeds_fixed_match_capacity b ord now \<longleftrightarrow>
    (\<exists>i. MAX_MATCH_SLOTS \<le> i \<and> i < length (live_opposite b ord now)
       \<and> matched (slots (expected_batch (whole_batch b ord now)) ! i))"
    (is "?l \<longleftrightarrow> (\<exists>i. MAX_MATCH_SLOTS \<le> i \<and> i < length ?rs \<and> ?m i)")
proof -
  let ?B = "batch_of b ord now" and ?d = "\<lambda>i. depth_ahead (batch_of b ord now) (map resting_input (take i ?rs))"
  have sorted: "sorted_wrt (outranks (side ord)) ?rs" by (rule live_sorted [OF book_ok_sides [OF ok]])
  note m = whole_matched [of _ b ord now]
  have "?m MAX_MATCH_SLOTS" if "MAX_MATCH_SLOTS \<le> i" "i < length ?rs" "?m i" for i
  proof (cases "i = MAX_MATCH_SLOTS")
    case False
    with that have i: "MAX_MATCH_SLOTS < i" by simp
    have n: "MAX_MATCH_SLOTS < length ?rs" using i that(2) by simp
    have e: "eligible ?B (resting_input (?rs ! i))" "?d i < unat (quantity ord)" using that m by blast+
    have "outranks (side ord) (?rs ! MAX_MATCH_SLOTS) (?rs ! i)"
      by (rule sorted_wrt_nth_less [OF sorted i that(2)])
    then have "eligible ?B (resting_input (?rs ! MAX_MATCH_SLOTS))"
      using e(1) live_eligible [OF ok] that(2) n outranks_crosses by (metis nth_mem)
    moreover have "?d MAX_MATCH_SLOTS \<le> ?d i"
      unfolding take_map [symmetric] by (rule depth_ahead_take_mono [OF that(1)])
    ultimately show ?thesis using e(2) m [OF n] by simp
  qed (use that in simp)
  then have "(\<exists>i. MAX_MATCH_SLOTS \<le> i \<and> i < length ?rs \<and> ?m i) \<longleftrightarrow>
      MAX_MATCH_SLOTS < length ?rs \<and> ?m MAX_MATCH_SLOTS" by (auto intro: le_less_trans)
  moreover have "?l \<longleftrightarrow> MAX_MATCH_SLOTS < length ?rs \<and> eligible ?B (resting_input (?rs ! MAX_MATCH_SLOTS))
      \<and> ?d MAX_MATCH_SLOTS < unat (quantity ord)"
    unfolding exceeds_fixed_match_capacity_def
    using count_matches_iff [of 0 ?rs ?B ord "quantity ord", OF _ live_eligible [OF ok] sorted] by simp
  ultimately show ?thesis using m by blast
qed

lemma idle_slots_left:
  assumes "\<And>i. i < length ys \<Longrightarrow> \<not> matched (fst (match_slots batch q ys) ! i)"
  shows "snd (match_slots batch q ys) = q"
proof -
  have "unat (trade_quantity slot) = 0" if "slot \<in> set (fst (match_slots batch q ys))" for slot
    using that assms by (auto simp: in_set_conv_nth match_slots_nth matched_match_slot word_gt_0)
  then have "(\<Sum>slot\<leftarrow>fst (match_slots batch q ys). unat (trade_quantity slot)) = 0"
    by (simp add: sum_list_eq_0_iff)
  with match_slots_sum [of batch q ys] have "unat (snd (match_slots batch q ys)) = unat q" by linarith
  then show ?thesis by (simp only: word_eq_unat)
qed

text \<open>The whole matching is the batch's followed by that of the orders behind it.\<close>

lemma whole_split:
  obtains s1 q1 s2 q2 where
    "match_slots (batch_of b ord now) (quantity ord) (map resting_input (take MAX_MATCH_SLOTS (live_opposite b ord now)))
       = (s1, q1)"
    "match_slots (batch_of b ord now) q1 (map resting_input (drop MAX_MATCH_SLOTS (live_opposite b ord now))) = (s2, q2)"
    "slots (expected_batch (batch_of b ord now)) = s1"
    "slots (expected_batch (whole_batch b ord now)) = s1 @ s2"
    "arriving_remaining (expected_batch (batch_of b ord now)) = (if time_in_force ord = GoodTilCancelled then q1 else 0)"
    "arriving_remaining (expected_batch (whole_batch b ord now)) = (if time_in_force ord = GoodTilCancelled then q2 else 0)"
    "length s1 = min (length (live_opposite b ord now)) MAX_MATCH_SLOTS"
    "length s2 = length (live_opposite b ord now) - MAX_MATCH_SLOTS"
proof -
  let ?B = "batch_of b ord now" and ?l = "live_opposite b ord now" and ?q = "quantity ord"
  let ?xs = "map resting_input (take MAX_MATCH_SLOTS ?l)" and ?ys = "map resting_input (drop MAX_MATCH_SLOTS ?l)"
  obtain s1 q1 where 1: "match_slots ?B ?q ?xs = (s1, q1)" by fastforce
  obtain s2 q2 where 2: "match_slots ?B q1 ?ys = (s2, q2)" by fastforce
  have B: "resting ?B = ?xs" "arriving_quantity ?B = ?q" "resting (whole_batch b ord now) = map resting_input ?l"
    "arriving_quantity (whole_batch b ord now) = ?q"
    "arriving_can_rest ?B = (time_in_force ord = GoodTilCancelled)"
    "arriving_can_rest (whole_batch b ord now) = (time_in_force ord = GoodTilCancelled)"
    by (simp_all add: batch_of_def whole_batch_def)
  have "map resting_input ?l = ?xs @ ?ys" by (simp flip: map_append)
  then have l: "match_slots (whole_batch b ord now) ?q (map resting_input ?l) = (s1 @ s2, q2)"
    by (simp add: whole_batch_def match_slots_append 1 2)
  have "length s1 = min (length ?l) MAX_MATCH_SLOTS" "length s2 = length ?l - MAX_MATCH_SLOTS"
    using length_match_slots [of ?B ?q ?xs] length_match_slots [of ?B q1 ?ys] by (simp_all add: 1 2)
  with that [OF 1 2] show thesis
    by (simp add: slots_expected_batch arriving_remaining_expected_batch B l 1)
qed

lemma whole_batch_slots:
  "slots (expected_batch (batch_of b ord now)) = take MAX_MATCH_SLOTS (slots (expected_batch (whole_batch b ord now)))"
proof (rule whole_split [of b ord now])
  fix s1 q1 s2 q2
  assume s: "slots (expected_batch (batch_of b ord now)) = s1" "slots (expected_batch (whole_batch b ord now)) = s1 @ s2"
    and len: "length s1 = min (length (live_opposite b ord now)) MAX_MATCH_SLOTS"
      "length s2 = length (live_opposite b ord now) - MAX_MATCH_SLOTS"
  have "take (MAX_MATCH_SLOTS - length s1) s2 = []"
    using len by (cases "MAX_MATCH_SLOTS \<le> length (live_opposite b ord now)") simp_all
  then show ?thesis using len(1) by (simp add: s)
qed

lemma capacity_left:
  assumes ok: "book_ok E b" and n: "\<not> exceeds_fixed_match_capacity b ord now"
  shows "arriving_remaining (expected_batch (batch_of b ord now)) =
    arriving_remaining (expected_batch (whole_batch b ord now))"
proof (rule whole_split [of b ord now])
  let ?l = "live_opposite b ord now"
  fix s1 q1 s2 q2
  assume 2: "match_slots (batch_of b ord now) q1 (map resting_input (drop MAX_MATCH_SLOTS ?l)) = (s2, q2)"
    and w: "slots (expected_batch (whole_batch b ord now)) = s1 @ s2"
    and left: "arriving_remaining (expected_batch (batch_of b ord now)) =
        (if time_in_force ord = GoodTilCancelled then q1 else 0)"
      "arriving_remaining (expected_batch (whole_batch b ord now)) =
        (if time_in_force ord = GoodTilCancelled then q2 else 0)"
    and len: "length s1 = min (length ?l) MAX_MATCH_SLOTS" "length s2 = length ?l - MAX_MATCH_SLOTS"
  have "\<not> matched (s2 ! i)" if "i < length s2" for i
  proof -
    have i: "MAX_MATCH_SLOTS \<le> MAX_MATCH_SLOTS + i" "MAX_MATCH_SLOTS + i < length ?l" using that len(2) by simp_all
    then have "(s1 @ s2) ! (MAX_MATCH_SLOTS + i) = s2 ! i" using len(1) by (simp add: nth_append)
    then show ?thesis using n i exceeds_iff [OF ok, of ord now] unfolding w by metis
  qed
  then have "q2 = q1"
    using idle_slots_left [of "map resting_input (drop MAX_MATCH_SLOTS ?l)" "batch_of b ord now" q1] 2 len(2) by simp
  then show ?thesis by (simp add: left)
qed

text \<open>C17. The capacity check is exact: it reports an order precisely when matching against the whole live
  side, without the limit of eight slots, would fill some order beyond the eighth; and when it does not,
  the limited batch has the same trades and leaves the same remainder as the unlimited one.\<close>

theorem fixed_capacity_exact:
  assumes "book_reachable E b" "private_match_batch b ord now = Inr batch"
    and "whole = batch\<lparr>resting := map resting_input (live_opposite b ord now)\<rparr>"
  shows "(exceeds_fixed_match_capacity b ord now \<longleftrightarrow>
      (\<exists>i. 8 \<le> i \<and> i < length (resting whole) \<and> matched (slots (expected_batch whole) ! i)))
    \<and> slots (expected_batch batch) = take 8 (slots (expected_batch whole))
    \<and> (exceeds_fixed_match_capacity b ord now
       \<or> arriving_remaining (expected_batch batch) = arriving_remaining (expected_batch whole))"
proof -
  have ok: "book_ok E b" by (rule reachable_book_ok [OF assms(1)])
  have b: "batch = batch_of b ord now"
    using assms(2) by (simp add: private_match_batch_def batch_of_def split: if_splits)
  then have w: "whole = whole_batch b ord now" by (simp add: assms(3) whole_batch_def)
  have l: "length (resting whole) = length (live_opposite b ord now)" by (simp add: assms(3))
  have m: "MAX_MATCH_SLOTS = 8" by (simp add: MAX_MATCH_SLOTS_def)
  have c: "exceeds_fixed_match_capacity b ord now
      \<or> arriving_remaining (expected_batch batch) = arriving_remaining (expected_batch whole)"
    unfolding w b using capacity_left [OF ok, of ord now] by blast
  show ?thesis
    using exceeds_iff [OF ok, of ord now, unfolded m, folded w l] whole_batch_slots [of b ord now, unfolded m, folded w b] c
    by (intro conjI)
qed

theorem fixed_capacity_exact_witness:
  "\<exists>batch. private_match_batch sample_book2 sample_bid 50 = Inr batch
     \<and> \<not> exceeds_fixed_match_capacity sample_book2 sample_bid 50
     \<and> arriving_remaining (expected_batch batch) = arriving_remaining (expected_batch
         (batch\<lparr>resting := map resting_input [sample_record, sample_record2]\<rparr>))"
proof -
  obtain batch where b: "private_match_batch sample_book2 sample_bid 50 = Inr batch"
    by (simp add: private_match_batch_def sample_book2_def sample_fields)
  have n: "\<not> exceeds_fixed_match_capacity sample_book2 sample_bid 50"
    by (simp add: exceeds_fixed_match_capacity_def sample_live2 sample_records2 sample_fields MAX_MATCH_SLOTS_def)
  note t = fixed_capacity_exact [OF sample_book2_reachable b refl, unfolded sample_live2,
      THEN conjunct2, THEN conjunct2]
  show ?thesis by (intro exI [of _ batch] conjI b n) (rule disjE [OF t], rule notE [OF n])
qed

section \<open>The book stays uncrossed\<close>

definition uncrossed :: "PrivateBook \<Rightarrow> u64 \<Rightarrow> bool" where
  "uncrossed b now \<longleftrightarrow> (\<forall>x\<in>set (orders b). \<forall>y\<in>set (orders b).
     side (secret x) = Buy \<longrightarrow> side (secret y) = Sell \<longrightarrow> now \<le> expires_at (secret x) \<longrightarrow>
     now \<le> expires_at (secret y) \<longrightarrow> limit_price (secret x) < limit_price (secret y))"

lemma live_oppositeI:
  assumes "sides_ok b" "y \<in> set (orders b)" "side (secret y) \<noteq> side ord" "now \<le> expires_at (secret y)"
  shows "y \<in> set (live_opposite b ord now)"
  using assms side_ok_flat [of Sell "asks b" y] side_ok_flat [of Buy "bids b" y]
  by (cases "side ord") (auto simp: live_opposite_def set_ordered_opposite sides_ok_def orders_def)

text \<open>What is left of an arriving order within the capacity has consumed every crossing order.\<close>

lemma left_consumes:
  assumes ok: "book_ok E b" and n: "\<not> exceeds_fixed_match_capacity b ord now"
    and left: "0 < arriving_remaining (expected_batch (batch_of b ord now))"
    and y: "y \<in> set (live_opposite b ord now)"
    and c: "crosses (side ord) (limit_price ord) (limit_price (secret y))"
  shows "traded (batch_fills b ord a now) (rc y) = remaining y"
proof -
  let ?B = "batch_of b ord now" and ?l = "live_opposite b ord now" and ?q = "unat (quantity ord)"
  let ?d = "\<lambda>i. depth_ahead ?B (map resting_input (take i ?l))"
  have B: "arriving_quantity ?B = quantity ord" "resting ?B = map resting_input (take MAX_MATCH_SLOTS ?l)"
    by (simp_all add: batch_of_def)
  from y obtain i where i: "i < length ?l" "y = ?l ! i" by (auto simp: in_set_conv_nth)
  have e: "eligible ?B (resting_input y)" using live_eligible [OF ok y] c by simp
  have "0 < arriving_remaining (expected_batch (whole_batch b ord now))" using left capacity_left [OF ok n] by simp
  then have "0 < unat (snd (match_slots ?B (quantity ord) (map resting_input ?l)))"
    by (simp add: arriving_remaining_expected_batch whole_batch_def word_gt_0_unat B split: if_splits)
  then have d: "?d (length ?l) < ?q" by (simp add: match_slots_left)
  have "?d (Suc i) \<le> ?d (length ?l)" using depth_ahead_take_mono [of "Suc i" "length ?l" ?B "map resting_input ?l"] i
    by (simp add: take_map)
  moreover have "?d (Suc i) = ?d i + unat (remaining y)"
    using i e by (simp add: take_Suc_conv_app_nth resting_input_def)
  ultimately have q: "?d i + unat (remaining y) < ?q" using d by simp
  have "i < MAX_MATCH_SLOTS"
  proof (rule ccontr)
    assume "\<not> i < MAX_MATCH_SLOTS"
    moreover have "matched (slots (expected_batch (whole_batch b ord now)) ! i)"
      unfolding whole_matched [OF i(1)] using i(2) e q by simp
    ultimately show False using n i(1) exceeds_iff [OF ok, of ord now] by (metis not_less)
  qed
  moreover have "fair_share ?B ?q (depth_ahead ?B (take i (resting ?B))) (resting_input y) = unat (remaining y)"
    if "i < MAX_MATCH_SLOTS"
  proof -
    have "take i (resting ?B) = map resting_input (take i ?l)" using that by (simp add: B(2) take_map)
    then show ?thesis using e q by (simp add: fair_share_def) (simp add: resting_input_def)
  qed
  ultimately have "unat (traded (batch_fills b ord a now) (rc (?l ! i))) = unat (remaining y)"
    unfolding batch_trade [OF book_ok_sides [OF ok] i(1)] using i(2) by simp
  then show ?thesis using i(2) by (simp add: word_eq_unat)
qed

lemma uncrossed_settled:
  assumes "uncrossed b now" "fills_applied b fs b1"
  shows "uncrossed b1 now"
  using assms(1) unfolding uncrossed_def fills_applied_orders [OF assms(2)] set_settle by fastforce

lemma uncrossed_rest:
  assumes u: "uncrossed b1 now" and m: "mset (orders b') = mset (orders b1) + mset (rest_of ord a seq left)"
    and n: "\<And>y. 0 < left \<Longrightarrow> y \<in> set (orders b1) \<Longrightarrow> side (secret y) \<noteq> side ord \<Longrightarrow> now \<le> expires_at (secret y) \<Longrightarrow>
      \<not> crosses (side ord) (limit_price ord) (limit_price (secret y))"
  shows "uncrossed b' now"
proof -
  have s: "set (orders b') = set (orders b1) \<union> set (rest_of ord a seq left)"
    using arg_cong [OF m, of set_mset] by simp
  have r: "secret z = ord \<and> 0 < left" if "z \<in> set (rest_of ord a seq left)" for z
    using that by (auto simp: rest_of_def split: if_splits)
  have rest_ask: "limit_price ord < limit_price (secret y)"
    if "0 < left" "side ord = Buy" "y \<in> set (orders b1)" "side (secret y) = Sell" "now \<le> expires_at (secret y)" for y
    using n [OF that(1,3)] that by (simp add: crosses_def not_le)
  have rest_bid: "limit_price (secret y) < limit_price ord"
    if "0 < left" "side ord = Sell" "y \<in> set (orders b1)" "side (secret y) = Buy" "now \<le> expires_at (secret y)" for y
    using n [OF that(1,3)] that by (simp add: crosses_def not_le)
  show ?thesis
    unfolding uncrossed_def s
  proof (intro ballI impI)
    fix x y
    assume xy: "x \<in> set (orders b1) \<union> set (rest_of ord a seq left)"
        "y \<in> set (orders b1) \<union> set (rest_of ord a seq left)"
      and sd: "side (secret x) = Buy" "side (secret y) = Sell"
      and live: "now \<le> expires_at (secret x)" "now \<le> expires_at (secret y)"
    from xy sd r consider "x \<in> set (orders b1)" "y \<in> set (orders b1)"
      | "secret x = ord" "0 < left" "y \<in> set (orders b1)" | "x \<in> set (orders b1)" "secret y = ord" "0 < left"
      by (metis Side.distinct(1) UnE)
    then show "limit_price (secret x) < limit_price (secret y)"
    proof cases
      case 1 with u sd live show ?thesis by (simp add: uncrossed_def)
    next
      case 2 with sd live show ?thesis by (simp add: rest_ask)
    next
      case 3 with sd live show ?thesis by (simp add: rest_bid)
    qed
  qed
qed



end
