(* ===== verification/Mpc_Refinement.thy ===== *)
theory Mpc_Refinement
  imports Mpc_Output Book_Priority
begin

text \<open>
  The matching engine refines the reference transition: for a batch in priority order and within the circuit's
  bounds, the text an honest party prints parses to the result of \<open>expected_batch\<close>, and a round whose parties
  all ran the circuit returns it.
\<close>

section \<open>The parsed result\<close>

definition idle_slot :: MpcSlotResult where
  "idle_slot = \<lparr>matched = False, trade_price = 0, trade_quantity = 0\<rparr>"

definition padded_result :: "PrivateMatchBatch \<Rightarrow> MpcBatchResult" where
  "padded_result batch = (let res = expected_batch batch in
     res\<lparr>slots := slots res @ replicate (MAX_MATCH_SLOTS - length (slots res)) idle_slot\<rparr>)"

lemma uint_range: "in_range (uint (x :: u64))"
  using uint_lt2p [of x] by (simp add: in_range_def)

lemma bit_range: "in_range 0" "in_range 1" "in_range (of_bool p)"
  by (simp_all add: in_range_def)

lemma level_row_range:
  assumes "batch_bounded batch" "level_row_of batch r"
  shows "in_range (dr_side r) \<and> in_range (dr_price r) \<and> in_range (dr_quantity r)
    \<and> (dr_side r = 0 \<or> dr_side r = 1) \<and> (word_of_int (dr_quantity r) :: u64) \<noteq> 0"
proof -
  from assms(2) obtain s p where r: "r = level_row (uint (Side_wire s)) (uint p) (int (depth_after batch s p))"
    and d: "0 < depth_after batch s p" by (auto simp: level_row_of_def)
  have "depth_after batch s p < 2 ^ 64"
    using depth_after_bound [OF assms(1), of s p] by (simp add: u32_max_def)
  moreover have "(word_of_int (int (depth_after batch s p)) :: u64) \<noteq> 0"
    using d unat_depth_after [OF assms(1), of s p] by auto
  ultimately show ?thesis
    using side_bit [of s] uint_range [of p] by (auto simp: r level_row_def in_range_def)
qed

lemma slot_range:
  assumes "batch_wires batch rs a" "slots_in_priority batch" "i < MAX_MATCH_SLOTS"
  shows "in_range (matched_wire a rs i) \<and> in_range (trade_price_wire a rs i) \<and> in_range (trade_quantity_wire a rs i)"
  using slot_wires_refine [OF assms(1,2) _ assms(3)] idle_slot_wires [OF assms(1) _ assms(3)]
  by (cases "i < length (resting batch)") (simp_all add: uint_range bit_range)

lemma circuit_outputs_range:
  assumes w: "batch_wires batch (read_slots vs) (read_arriving vs)" and p: "slots_in_priority batch"
    and b: "batch_bounded batch" and s: "sorts_rows sort_rows"
    and o: "(n, v) \<in> set (circuit_outputs sort_rows rnd vs)"
  shows "in_range v"
proof -
  have len: "length (resting batch) \<le> MAX_MATCH_SLOTS" using b by (simp add: batch_bounded_def)
  obtain ys where
    rows: "sort_rows (depth_rows (book_wires (read_arriving vs) (read_slots vs) rnd))
        = ys @ replicate (16 - length ys) depth_padding"
    and "length ys \<le> MAX_MATCH_SLOTS + 1" and ly: "\<And>r. r \<in> set ys \<Longrightarrow> level_row_of batch r"
    and "public_levels (expected_batch batch) = Some (map row_level ys)" using sorted_rows_levels [OF w p b s, of rnd] by metis
  from o show ?thesis
  proof (cases rule: circuit_outputs_cases)
    case (1 i)
    then show ?thesis using slot_range [OF w p] by blast
  next
    case 2
    then show ?thesis using circuit_remaining_refine(2) [OF w p len] uint_range by simp
  next
    case (3 i)
    define r where "r = (ys @ replicate (16 - length ys) depth_padding) ! i"
    have "in_range (dr_side r) \<and> in_range (dr_price r) \<and> in_range (dr_quantity r)"
    proof (cases "i < length ys")
      case True
      then have "r \<in> set ys" by (simp add: r_def nth_append)
      from level_row_range [OF b ly [OF this]] show ?thesis by blast
    next
      case False
      then have "r = depth_padding" using 3(1) by (simp add: r_def nth_append MAX_MATCH_SLOTS_def)
      then show ?thesis by (simp add: depth_padding_def bit_range)
    qed
    moreover from 3(2) have "v \<in> {dr_side r, dr_price r, dr_quantity r}" by (simp only: rows r_def)
    ultimately show ?thesis by blast
  qed
qed

lemma party_read:
  assumes "batch_wires batch (read_slots vs) (read_arriving vs)" "slots_in_priority batch" "batch_bounded batch"
    "sorts_rows sort_rows" "(n, v) \<in> set (circuit_outputs sort_rows rnd vs)"
  shows "output_value (party_text sort_rows rnd vs) n = Inr (word_of_int v)"
  by (rule party_value [OF _ assms(5)]) (rule circuit_outputs_range [OF assms(1-4)])

lemma parse_slot_text:
  assumes w: "batch_wires batch (read_slots vs) (read_arriving vs)" and p: "slots_in_priority batch"
    and b: "batch_bounded batch" and s: "sorts_rows sort_rows" and i: "i < MAX_MATCH_SLOTS"
  shows "parse_slot (party_text sort_rows rnd vs) i = Inr (slots (padded_result batch) ! i)"
proof -
  note read = party_read [OF w p b s, where rnd = rnd]
  have "slots (padded_result batch) ! i = (if i < length (resting batch) then slots (expected_batch batch) ! i else idle_slot)"
    using i by (simp add: padded_result_def Let_def nth_append)
  then show ?thesis
    using read [OF circuit_outputs_mem(1) [OF i]] read [OF circuit_outputs_mem(2) [OF i]]
      read [OF circuit_outputs_mem(3) [OF i]] slot_wires_refine [OF w p _ i] idle_slot_wires [OF w _ i]
    by (cases "i < length (resting batch)") (simp_all add: parse_slot_def idle_slot_def)
qed

lemma parse_levels_text:
  assumes w: "batch_wires batch (read_slots vs) (read_arriving vs)" and p: "slots_in_priority batch"
    and b: "batch_bounded batch" and s: "sorts_rows sort_rows"
  obtains ls where "parse_levels (party_text sort_rows rnd vs) False [0..<MAX_MATCH_SLOTS + 1] = Inr ls"
    "public_levels (expected_batch batch) = Some ls"
proof -
  let ?text = "party_text sort_rows rnd vs"
  note read = party_read [OF w p b s, where rnd = rnd]
  from sorted_rows_levels [OF w p b s, of rnd] obtain ys where
    rows: "sort_rows (depth_rows (book_wires (read_arriving vs) (read_slots vs) rnd))
        = ys @ replicate (16 - length ys) depth_padding"
    and len: "length ys \<le> MAX_MATCH_SLOTS + 1" and ly: "\<And>r. r \<in> set ys \<Longrightarrow> level_row_of batch r"
    and ls: "public_levels (expected_batch batch) = Some (map row_level ys)" by blast
  let ?row = "\<lambda>i. (ys @ replicate (16 - length ys) depth_padding) ! i"
  have at: "output_value ?text (level_name i ''SIDE'') = Inr (word_of_int (dr_side (?row i)))
      \<and> output_value ?text (level_name i ''PRICE'') = Inr (word_of_int (dr_price (?row i)))
      \<and> output_value ?text (level_name i ''QUANTITY'') = Inr (word_of_int (dr_quantity (?row i)))"
    if "i \<le> MAX_MATCH_SLOTS" for i
    using read [OF circuit_outputs_mem(5) [OF that]] read [OF circuit_outputs_mem(6) [OF that]]
      read [OF circuit_outputs_mem(7) [OF that]] by (simp add: rows)
  have pad: "parse_levels ?text False [length ys..<MAX_MATCH_SLOTS + 1] = Inr []"
  proof (rule parse_levels_padding)
    fix i
    assume "i \<in> set [length ys..<MAX_MATCH_SLOTS + 1]"
    then have i: "length ys \<le> i" "i \<le> MAX_MATCH_SLOTS" by auto
    then have "?row i = depth_padding" by (simp add: nth_append MAX_MATCH_SLOTS_def)
    with at [OF i(2)] show "output_value ?text (level_name i ''SIDE'') = Inr 0
        \<and> output_value ?text (level_name i ''PRICE'') = Inr 0 \<and> output_value ?text (level_name i ''QUANTITY'') = Inr 0"
      by (simp add: depth_padding_def)
  qed
  have "parse_levels ?text False ([0..<length ys] @ [length ys..<MAX_MATCH_SLOTS + 1])
      = Inr (map (row_level \<circ> (!) ys) [0..<length ys] @ [])"
  proof (rule parse_levels_active [OF _ _ pad])
    fix i
    assume "i \<in> set [0..<length ys]"
    then have i: "i < length ys" "i \<le> MAX_MATCH_SLOTS" using len by auto
    then have e: "?row i = ys ! i" by (simp add: nth_append)
    show "output_value ?text (level_name i ''SIDE'') = Inr (word_of_int (dr_side (ys ! i)))
      \<and> output_value ?text (level_name i ''PRICE'') = Inr (word_of_int (dr_price (ys ! i)))
      \<and> output_value ?text (level_name i ''QUANTITY'') = Inr (word_of_int (dr_quantity (ys ! i)))"
      using at [OF i(2)] unfolding e .
    show "(dr_side (ys ! i) = 0 \<or> dr_side (ys ! i) = 1) \<and> (word_of_int (dr_quantity (ys ! i)) :: u64) \<noteq> 0"
      using level_row_range [OF b ly [OF nth_mem [OF i(1)]]] by blast
  qed
  moreover have "[0..<length ys] @ [length ys..<MAX_MATCH_SLOTS + 1] = [0..<MAX_MATCH_SLOTS + 1]"
    using len upt_add_eq_append [of 0 "length ys" "MAX_MATCH_SLOTS + 1 - length ys"] by simp
  moreover have "map (row_level \<circ> (!) ys) [0..<length ys] = map row_level ys"
    unfolding map_map [symmetric] map_nth ..
  ultimately show ?thesis using that [OF _ ls] by simp
qed

lemma parse_party_text:
  assumes w: "batch_wires batch (read_slots vs) (read_arriving vs)" and p: "slots_in_priority batch"
    and b: "batch_bounded batch" and s: "sorts_rows sort_rows"
  shows "parse_result (party_text sort_rows rnd vs) = Inr (padded_result batch)"
proof -
  have len: "length (resting batch) \<le> MAX_MATCH_SLOTS" using b by (simp add: batch_bounded_def)
  let ?fills = "slots (padded_result batch)"
  have "length ?fills = MAX_MATCH_SLOTS" using len by (simp add: padded_result_def Let_def)
  then have "map (parse_slot (party_text sort_rows rnd vs)) [0..<MAX_MATCH_SLOTS] = map Inr ?fills"
    using parse_slot_text [OF w p b s] by (intro nth_equalityI) simp_all
  then have "collect_results (map (parse_slot (party_text sort_rows rnd vs)) [0..<MAX_MATCH_SLOTS]) = Inr ?fills"
    by (simp add: collect_results_eq_Inr)
  moreover obtain ls where "parse_levels (party_text sort_rows rnd vs) False [0..<MAX_MATCH_SLOTS + 1] = Inr ls"
    and ls: "public_levels (expected_batch batch) = Some ls" by (rule parse_levels_text [OF w p b s])
  moreover have "validate_public_levels ls = Inr ()" using public_levels_valid [OF b ls] .
  moreover have "output_value (party_text sort_rows rnd vs) ''OCLOB_ARRIVING_REMAINING''
      = Inr (arriving_remaining (expected_batch batch))"
    using party_read [OF w p b s circuit_outputs_mem(4)]
      circuit_remaining_refine(2) [OF w p len] by simp
  ultimately show ?thesis
    using ls by (simp add: parse_result_def padded_result_def Let_def)
qed

section \<open>A round of the runner\<close>

lemma reserve_fits:
  assumes "p \<le> u32_max" "q \<le> u32_max"
  shows "unat p * unat q < 2 ^ 64"
proof -
  have "unat p \<le> 4294967295" "unat q \<le> 4294967295" using assms by (simp_all add: word_le_nat_alt u32_max_def)
  then have "unat p * unat q \<le> 4294967295 * 4294967295" by (rule mult_le_mono)
  then show ?thesis by simp
qed

lemma wire_reserve_bounded: "p \<le> u32_max \<Longrightarrow> q \<le> u32_max \<Longrightarrow> \<exists>v. wire_reserve s p q = Inr v"
  using reserve_fits [of p q] by (cases s) (simp_all add: wire_reserve_def checked_mul_def)

lemma slot_values_bounded:
  assumes "batch_bounded batch"
  shows "\<exists>xs. slot_values batch i = Inr xs \<and> length xs = 8"
proof (cases "i < length (resting batch)")
  case True
  then have "resting batch ! i \<in> set (resting batch)" by simp
  with assms have "ri_price (resting batch ! i) \<le> u32_max" "ri_quantity (resting batch ! i) \<le> u32_max"
    unfolding batch_bounded_def by blast+
  from wire_reserve_bounded [OF this, of "ri_side (resting batch ! i)"] True show ?thesis
    by (auto simp: slot_values_def Let_def)
qed (simp add: slot_values_def)

lemma inputs_built:
  assumes "batch_bounded batch"
  obtains vs where "compatibility_private_values batch = Inr vs"
proof -
  obtain f where f: "\<And>i. slot_values batch i = Inr (f i) \<and> length (f i) = 8"
    using slot_values_bounded [OF assms] by metis
  then have "map (slot_values batch) [0..<MAX_MATCH_SLOTS] = map Inr (map f [0..<MAX_MATCH_SLOTS])" by simp
  then have c: "collect_results (map (slot_values batch) [0..<MAX_MATCH_SLOTS]) = Inr (map f [0..<MAX_MATCH_SLOTS])"
    by (simp only: collect_results_eq_Inr)
  have l: "length (concat (map f [0..<MAX_MATCH_SLOTS])) = 8 * MAX_MATCH_SLOTS"
    by (subst length_concat_map [where n = 8]) (simp_all add: f)
  obtain v where "wire_reserve (arriving_side batch) (arriving_price batch) (arriving_quantity batch) = Inr v"
    using assms wire_reserve_bounded unfolding batch_bounded_def by blast
  with c l that show thesis by (simp add: compatibility_private_values_def)
qed

lemma truncated_padded:
  "(padded_result batch)\<lparr>slots := take (length (resting batch)) (slots (padded_result batch))\<rparr> = expected_batch batch"
  by (simp add: padded_result_def Let_def)

lemma parse_parties_Inr:
  "parse_parties outputs = Inr rs \<longleftrightarrow> map parse_result outputs = map Inr rs"
proof -
  have "collect_results (map (\<lambda>(i, t). map_err (Party i) (parse_result t)) (enumerate n outputs)) = Inr rs
      \<longleftrightarrow> map parse_result outputs = map Inr rs" for n
  proof (induction outputs arbitrary: n rs)
    case (Cons t outputs)
    show ?case
      by (cases rs) (auto simp: enumerate_simps andThen_eq_Inr map_err_eq_Inr Cons.IH)
  qed auto
  then show ?thesis by (simp add: parse_parties_def)
qed

text \<open>A successful round: every party's text parsed to one result, which is returned for the slots of the
  batch.\<close>

lemma execute_batch_Ok:
  assumes "execute_batch E host rn batch = (Inr rcp, rn')"
  obtains vs files outputs res where "compatibility_private_values batch = Inr vs" "host_share host vs = Inr files"
    "host_serve host files = Inr outputs" "outputs \<noteq> []" "\<And>t. t \<in> set outputs \<Longrightarrow> parse_result t = Inr res"
    "mb_result rcp = res\<lparr>slots := take (length (resting batch)) (slots res)\<rparr>" "mb_all_parties_agreed rcp"
    "mb_public_output_sha256 rcp = public_output_digest E (mb_result rcp)" "rn_mesh rn'"
proof -
  obtain r rn1 where e: "ensure_mesh host rn = (r, rn1)" by (cases "ensure_mesh host rn")
  obtain vs files where vs: "compatibility_private_values batch = Inr vs" and fl: "host_share host vs = Inr files"
    and t: "(case r of Inl e \<Rightarrow> (Inl e, rn1) | Inr _ \<Rightarrow> serve_batch E host batch files rn1) = (Inr rcp, rn')"
    using assms unfolding execute_batch_def guarded_ok map_err_eq_Inr e prod.case
    by (elim exE conjE) (rule that)
  from t have m: "ensure_mesh host rn = (Inr (), rn1)" and c: "serve_batch E host batch files rn1 = (Inr rcp, rn')"
    by (cases r, simp_all add: e)+
  from c obtain outputs first parsed where sv: "host_serve host files = Inr outputs"
    and pp: "parse_parties outputs = Inr (first # parsed)" and same: "\<forall>r\<in>set (first # parsed). r = first"
    and rcp: "rcp = round_receipt E rn1 (first\<lparr>slots := take (length (resting batch)) (slots first)\<rparr>)"
    and rn': "rn' = rn1\<lparr>rn_rounds := rn_rounds rn1 + 1\<rparr>"
    unfolding serve_batch_def by (auto simp: Let_def split: sum.splits list.splits if_splits)
  have up: "rn_mesh rn1" using m by (auto simp: ensure_mesh_def Let_def split: if_splits sum.splits)
  have all: "map parse_result outputs = map Inr (first # parsed)" using pp by (simp only: parse_parties_Inr)
  have "parse_result t = Inr first" if "t \<in> set outputs" for t
  proof -
    from that have "parse_result t \<in> set (map parse_result outputs)" by simp
    then show ?thesis unfolding all using same by auto
  qed
  moreover have "outputs \<noteq> []" using all by auto
  ultimately show thesis
    using that [OF vs fl sv] by (simp add: rcp round_receipt_def rn' up)
qed

lemma parse_honest:
  assumes "batch_bounded batch" "slots_in_priority batch" "sorts_rows sort_rows"
    "compatibility_private_values batch = Inr vs"
  shows "parse_result (party_text sort_rows rnd vs) = Inr (padded_result batch)"
  using parse_party_text [OF inputs_read [OF assms(4)] assms(2,1,3)] .

text \<open>What is relied on of the engine: its artifacts pass the receipt check, a mesh can be started, inputs are
  shared, and every party prints what the circuit computes on the shared inputs.\<close>

definition honest_mesh ::
  "mpc_host \<Rightarrow> (depth_row list \<Rightarrow> depth_row list) \<Rightarrow> (nat \<Rightarrow> slot_random) \<Rightarrow> bool" where
  "honest_mesh host sort_rows rnd \<longleftrightarrow> sorts_rows sort_rows \<and> host_recheck host = Inr ()
     \<and> (\<forall>n. host_spawn host n = Inr ())
     \<and> (\<forall>vs. \<exists>files. host_share host vs = Inr files
          \<and> host_serve host files = Inr (replicate MPC_PARTIES (party_text sort_rows rnd vs)))"

lemma honest_round:
  assumes h: "honest_mesh host sort_rows rnd" and b: "batch_bounded batch" and p: "slots_in_priority batch"
  obtains rn' where "execute_batch E host rn batch = (Inr (round_receipt E rn (expected_batch batch)), rn')"
    "rn_rounds rn' = rn_rounds rn + 1" "rn_mesh rn'"
proof -
  have s: "sorts_rows sort_rows" and r: "host_recheck host = Inr ()" and sp: "\<And>n. host_spawn host n = Inr ()"
    using h by (simp_all add: honest_mesh_def)
  obtain vs where vs: "compatibility_private_values batch = Inr vs" by (rule inputs_built [OF b])
  obtain files where f: "host_share host vs = Inr files"
    "host_serve host files = Inr (replicate MPC_PARTIES (party_text sort_rows rnd vs))"
    using h unfolding honest_mesh_def by blast
  obtain rn1 where m: "ensure_mesh host rn = (Inr (), rn1)" "rn_mesh rn1" "rn_rounds rn1 = rn_rounds rn"
    "rn_program_sha256 rn1 = rn_program_sha256 rn"
    by (cases "rn_mesh rn") (auto simp: ensure_mesh_def sp Let_def)
  have "parse_parties (replicate MPC_PARTIES (party_text sort_rows rnd vs))
      = Inr (padded_result batch # replicate 6 (padded_result batch))"
    using parse_honest [OF b p s vs]
    by (simp add: parse_parties_Inr MPC_PARTIES_def numeral_eq_Suc)
  then have "serve_batch E host batch files rn1
      = (Inr (round_receipt E rn1 (expected_batch batch)), rn1\<lparr>rn_rounds := rn_rounds rn1 + 1\<rparr>)"
    by (simp add: serve_batch_def f(2) Let_def truncated_padded)
  moreover have "round_receipt E rn1 res = round_receipt E rn res" for res
    by (simp add: round_receipt_def m(4))
  moreover have "\<not> MAX_MATCH_SLOTS < length (resting batch)" using b by (simp add: batch_bounded_def)
  ultimately have "execute_batch E host rn batch
      = (Inr (round_receipt E rn (expected_batch batch)), rn1\<lparr>rn_rounds := rn_rounds rn1 + 1\<rparr>)"
    by (simp add: execute_batch_def r vs f(1) m(1))
  then show thesis by (rule that) (simp_all add: m)
qed

section \<open>Properties\<close>

text \<open>C5. The matching engine refines the reference transition. On a batch within the circuit's bounds whose
  slots are in price priority, a round of an engine whose parties run the generated circuit succeeds, from
  any state of the runner: its receipt carries exactly the result of the reference transition for the slots
  of the batch (fills, resting remainder and public depth), its digest and the agreement flag, and the mesh
  stays up. The circuit computes on secret prefix sums in place and sorts its depth rows by a network; the
  reference walks the slots in order and accumulates the levels in a map.\<close>

theorem engine_refines_reference:
  assumes "honest_mesh host sort_rows rnd" "batch_bounded batch" "slots_in_priority batch"
  shows "\<exists>rcp rn'. execute_batch E host rn batch = (Inr rcp, rn') \<and> mb_result rcp = expected_batch batch
    \<and> mb_all_parties_agreed rcp \<and> mb_public_output_sha256 rcp = public_output_digest E (expected_batch batch)
    \<and> rn_mesh rn' \<and> rn_rounds rn' = rn_rounds rn + 1"
  using honest_round [OF assms, of E rn] by (metis (no_types, lifting) MpcBatchReceipt.select_convs(5,6,7) round_receipt_def)

text \<open>C9. One honest party is enough for the integrity of an accepted result. Whatever the other parties print,
  if a round succeeds and one of the printed texts is that of the circuit on the batch's inputs, then the
  returned result is that of the reference transition: a disagreement, a missing, duplicate or malformed
  value is an error, never a result.\<close>

theorem one_honest_party:
  assumes "execute_batch E host rn batch = (Inr rcp, rn')"
    and "batch_bounded batch" "slots_in_priority batch" "sorts_rows sort_rows"
    and "\<And>vs files outputs. compatibility_private_values batch = Inr vs \<Longrightarrow> host_share host vs = Inr files \<Longrightarrow>
      host_serve host files = Inr outputs \<Longrightarrow> party_text sort_rows rnd vs \<in> set outputs"
  shows "mb_result rcp = expected_batch batch
    \<and> mb_public_output_sha256 rcp = public_output_digest E (expected_batch batch)"
proof -
  from execute_batch_Ok [OF assms(1)] obtain vs files outputs res where
    vs: "compatibility_private_values batch = Inr vs" and f: "host_share host vs = Inr files"
    "host_serve host files = Inr outputs" and all: "\<And>t. t \<in> set outputs \<Longrightarrow> parse_result t = Inr res"
    and r: "mb_result rcp = res\<lparr>slots := take (length (resting batch)) (slots res)\<rparr>"
    and d: "mb_public_output_sha256 rcp = public_output_digest E (mb_result rcp)" by metis
  have "Inr res = (Inr (padded_result batch) :: string + MpcBatchResult)"
    using all [OF assms(5) [OF vs f]] parse_honest [OF assms(2-4) vs] by simp
  then show ?thesis using r d by (simp add: truncated_padded)
qed

end
