(* ===== verification/Service_Liveness.thy ===== *)
theory Service_Liveness
  imports Service_Machine Mpc_Refinement
begin

text \<open>
  When the service succeeds. The ordering committee of a reachable service is a reachable committee, so it
  certifies every fresh well-formed command and its attestations verify; with an honest matching mesh an order
  that passes the admission checks is staged, and a cancellation that opens its target's digest goes through
  the book and the ledger at once.
\<close>

section \<open>The committee of a reachable service\<close>

lemma certify_reachable:
  "committee_reachable E oc \<Longrightarrow> certify E oc market c expires now = (r, oc') \<Longrightarrow> committee_reachable E oc'"
  using committee_step [of E oc market c expires now] by simp

lemma stage_committee:
  assumes "committee_reachable E (sv_ordering sv)" "stage_with_assurance E N sv ord a evidence now assure = (Inr sg, sv')"
  shows "committee_reachable E (sg_ordering sg)"
  using assms(2) by (rule stage_success) (use certify_reachable [OF assms(1)] in blast)

lemma expire_committee:
  assumes "committee_reachable E (sv_ordering sv)" "expire_due E sv now = (r, sv')"
  shows "committee_reachable E (sv_ordering sv')"
proof (cases r)
  case (Inl e)
  with expire_error assms show ?thesis by blast
next
  case (Inr x)
  from assms(2) [unfolded Inr] show ?thesis
    by (rule expire_success) (use assms(1) certify_reachable [OF assms(1)] in auto)
qed

lemma submit_committee:
  assumes "committee_reachable E (sv_ordering sv)" "submit E D N sv ord a evidence now = (r, sv')"
  shows "committee_reachable E (sv_ordering sv')"
proof (cases r)
  case (Inl e)
  from assms(2) [unfolded Inl] show ?thesis
    by (rule submit_error) (use assms(1) expire_committee [OF assms(1)] in auto)
next
  case (Inr x)
  from assms(2) [unfolded Inr] show ?thesis
    by (rule submit_success) (auto simp: stage_submission_def dest!: stage_committee [rotated] expire_committee [OF assms(1)])
qed

lemma cancel_committee:
  assumes "committee_reachable E (sv_ordering sv)" "cancel E sv k now = (r, sv')"
  shows "committee_reachable E (sv_ordering sv')"
proof (cases r)
  case (Inl e)
  with cancel_error assms show ?thesis by blast
next
  case (Inr x)
  from assms(2) [unfolded Inr] show ?thesis
    by (rule cancel_success) (use certify_reachable [OF assms(1)] in auto)
qed

lemma accept_committee:
  assumes "committee_reachable E (sv_ordering sv)" "committee_reachable E (ps_ordering p)" "accept E D p sv x = (r, sv')"
  shows "committee_reachable E (sv_ordering sv')"
proof (cases r)
  case (Inl e)
  with accept_error assms show ?thesis by blast
next
  case (Inr y)
  from accept_success(2) [OF assms(3) [unfolded Inr]] assms(2) show ?thesis by simp
qed

lemma prepared_committee:
  assumes "committee_reachable E (sv_ordering sv)" "prepare_canonical_submit E D N sv ord a evidence now = (Inr p, sv')"
  shows "committee_reachable E (ps_ordering p)"
proof -
  from assms(2) obtain sg where s: "stage_with_assurance E N sv ord a evidence now (joint_assurance E) = (Inr sg, sv')"
    and p: "prepare_staged E D N JointProof sv' sg now = Inr p"
    by (auto simp: prepare_canonical_submit_def guarded_ok then_run_ok stage_submission_def)
  from p have "ps_ordering p = sg_ordering sg" by (auto simp: prepare_staged_def result_ok Let_def)
  with stage_committee [OF assms(1) s] show ?thesis by simp
qed

lemma finalized_committee:
  assumes "committee_reachable E (sv_ordering sv)" "prepare_optimistic_submit E D N C sv ord a evidence now = (Inr pd, sv1)"
    and "pending_finalize E D N1 H pd sv2 claim later = Inr p"
  shows "committee_reachable E (ps_ordering p)"
proof -
  from assms(2) obtain verifier where
    s: "stage_with_assurance E N sv ord a evidence now (optimistic_assurance E C verifier) = (Inr (pe_staged pd), sv1)"
    by (auto simp: prepare_optimistic_submit_def guarded_ok then_run_ok)
  from assms(3) have "ps_ordering p = sg_ordering (pe_staged pd)"
    by (auto simp: pending_finalize_def prepare_staged_def result_ok Let_def)
  with stage_committee [OF assms(1) s] show ?thesis by simp
qed

lemma reachable_committee: "service_reachable E D market sv \<Longrightarrow> committee_reachable E (sv_ordering sv)"
proof (induction rule: service_reachable.induct)
  case (start commit first second scalars compiled eligibility sv)
  then show ?case by (auto simp: OclobService_new_def result_ok intro: committee_init)
next
  case (submits sv ord N a evidence now r sv')
  show ?case by (rule submit_committee [OF submits(4,3)])
next
  case (cancels sv k now q sv')
  show ?case by (rule cancel_committee [OF cancels(3,2)])
next
  case (expires sv now x sv')
  show ?case by (rule expire_committee [OF expires(3,2)])
next
  case (prepares sv N ord a evidence now y sv')
  with prepare_state(1) [of sv E D N ord a evidence now] show ?case by (auto simp: runner_only_def)
next
  case (proposes sv N C ord a evidence now z sv')
  with prepare_state(2) [of sv E D N C ord a evidence now] show ?case by (auto simp: runner_only_def)
next
  case (accepts sv sv0 ord N a evidence now p sv1 xx w sv')
  show ?case by (rule accept_committee [OF accepts.IH(1) prepared_committee [OF accepts.IH(2) accepts.hyps(4)] accepts.hyps(5)])
next
  case (accepts_final sv sv0 ord N C a evidence now pd sv1 N1 H sv2 claim later pf xx u sv')
  show ?case
    by (rule accept_committee [OF accepts_final.IH(1) finalized_committee [OF accepts_final.IH(2)
          accepts_final.hyps(4,5)] accepts_final.hyps(6)])
qed

section \<open>What the committee signs\<close>

lemma committee_attests:
  assumes E: "hybrid_correct E" "signer_total E" and ok: "committee_ok E oc"
  obtains as where "attest_digest E d (transition_signers oc) (oc_policy oc) = Inr as"
    "verify_digest E d as (oc_keys oc) (oc_policy oc) = Inr ()"
proof -
  have p: "oc_policy oc = seven_node" and ids: "map on_id (oc_nodes oc) = [1, 2, 3, 4, 5, 6, 7]"
    and keys: "oc_keys oc = map (\<lambda>n. (on_id n, verifying_key E (on_key n))) (oc_nodes oc)"
    using ok by (simp_all add: committee_ok_def)
  have l: "length (oc_nodes oc) = 7" using arg_cong [OF ids, of length] by simp
  have d: "distinct (map on_id (oc_nodes oc))" unfolding ids by simp
  have "\<exists>as. collect_results (map (\<lambda>(i, key). andThen (map_err (\<lambda>_. InvalidSignature) (try_sign E key (to_be_bytes d)))
      (\<lambda>s. Inr \<lparr>ta_node_id = i, ta_signature = sig_bytes s\<rparr>)) xs) = Inr as" for xs
  proof (induction xs)
    case (Cons x xs)
    obtain s where "try_sign E (snd x) (to_be_bytes d) = Inr s" using try_sign_total [OF E(2)] by blast
    with Cons show ?case by (auto simp: case_prod_beta)
  qed simp
  then obtain as where a: "attest_digest E d (transition_signers oc) (oc_policy oc) = Inr as"
    using l by (auto simp: attest_digest_def p transition_signers_def) (auto simp: seven_node_def)
  have "verify_digest E d as (oc_keys oc) (oc_policy oc) = Inr ()"
  proof (rule attest_digest_ok [OF E(1) a])
    show "distinct (map fst (transition_signers oc))" using d by (simp add: transition_signers_def comp_def)
    fix i k assume "(i, k) \<in> set (transition_signers oc)"
    with d show "btree_get (oc_keys oc) i = Some (verifying_key E k)"
      unfolding keys btree_get_def by (force simp: transition_signers_def comp_def intro!: map_of_is_SomeI)
  qed
  with a that show thesis by blast
qed

lemma committee_assures:
  assumes E: "hybrid_correct E" "signer_total E" and ok: "committee_ok E oc"
  obtains p v where "joint_assurance E s oc = Inr (p, v)" "tp_statement p = s" "vp_proof v = p"
proof -
  obtain as where a: "attest_digest E (statement_digest_of E s) (transition_signers oc) (oc_policy oc) = Inr as"
    "verify_digest E (statement_digest_of E s) as (oc_keys oc) (oc_policy oc) = Inr ()"
    by (rule committee_attests [OF assms])
  have ids: "map on_id (oc_nodes oc) = [1, 2, 3, 4, 5, 6, 7]" and p: "oc_policy oc = seven_node"
    and keys: "oc_keys oc = map (\<lambda>n. (on_id n, verifying_key E (on_key n))) (oc_nodes oc)"
    using ok by (simp_all add: committee_ok_def)
  have "length (oc_nodes oc) = 7" using arg_cong [OF ids, of length] by simp
  moreover have "0 \<notin> set (map on_id (oc_nodes oc))" unfolding ids by simp
  then have "n \<in> set (oc_nodes oc) \<Longrightarrow> on_id n \<noteq> 0" for n by force
  ultimately have "\<exists>root. committee_trust_root E (oc_keys oc) (oc_policy oc) = Inr root"
    unfolding p keys by (simp add: committee_trust_root_def list_ex_iff) (auto simp: seven_node_def)
  then show thesis
    using a that by (auto simp: joint_assurance_def TransitionProof_attest_def TransitionProof_verify_def into_verified_def)
qed

section \<open>An order that passes the admission checks is staged\<close>

lemma batch_of_priority:
  assumes "sides_ok b"
  shows "slots_in_priority (batch_of b ord now)"
proof -
  have "sorted_wrt (outranks (side ord)) (take MAX_MATCH_SLOTS (live_opposite b ord now))"
    by (rule sorted_wrt_take [OF live_sorted [OF assms]])
  then show ?thesis
    unfolding slots_in_priority_def
    by (auto simp: batch_of_def sorted_wrt_map resting_input_def outranks_def better_price_def
        elim!: sorted_wrt_mono_rel [rotated] split: Side.splits)
qed

lemma batch_public_after:
  "apply_mpc_batch_result E b ord a seq now result = (Inr tr, b') \<Longrightarrow> bx_public_after tr = public_snapshot E b' \<and> bx_sequence tr = seq"
  by (auto simp: apply_mpc_batch_result_def guarded_ok Let_def split: if_splits prod.splits sum.splits)

lemma batch_fills_taker: "f \<in> set (batch_fills b ord a now) \<Longrightarrow> taker_order f = oa_commitment a"
  by (auto simp: batch_fills_def fills_of_def)

text \<open>The committee certifies a fresh well-formed command with the book's next sequence.\<close>

lemma service_certifies:
  assumes re: "service_reachable E D market sv" and E: "hybrid_correct E" "signer_total E"
    and fresh: "c \<notin> admitted (sv_book sv)"
    and wf: "\<not> statement_malformed market (next_sequence (oc_log (sv_ordering sv))) c
      (log_head E (oc_log (sv_ordering sv))) expires now"
  obtains t oc where "certify E (sv_ordering sv) market c expires now = (Inr t, oc)" "committee_ok E oc"
    "ct_sequence t = pb_sequence (sv_book sv) + 1" "ct_commitment t = c" "ct_market_id t = market"
proof -
  note o = service_okD [OF reachable_service_ok [OF re]]
  note rc = reachable_committee [OF re]
  have ok: "committee_ok E (sv_ordering sv)" by (rule reachable_committee_ok [OF rc E])
  have "c \<notin> log_commitments (oc_log (sv_ordering sv))" using fresh o(4) by (simp add: lockstep_def)
  with E ok wf obtain t oc where t: "certify E (sv_ordering sv) market c expires now = (Inr t, oc)"
    by (cases rule: certify_cases [of E "sv_ordering sv" market c expires now]) auto
  show thesis
    using that [OF t reachable_committee_ok [OF certify_reachable [OF rc t] E] lockstep_next(1) [OF o(4) t]]
      certify_success(2,3) [OF t] by blast
qed

lemma stage_available:
  assumes re: "service_reachable E D market sv" and E: "hybrid_correct E" "signer_total E"
    and mesh: "honest_mesh (en_mpc N) sort_rows rnd" and bnd: "batch_bounded (batch_of (sv_book sv) ord now)"
    and o1: "order_ok ord" "market_id ord = market" and au: "OrderAuthority_verify E a ord now = Inr ()"
    and mr: "validate_market_rules ord MarketRules_p1 = Inr ()"
    and cap: "\<not> exceeds_fixed_match_capacity (sv_book sv) ord now"
    and fresh: "oa_commitment a \<notin> admitted (sv_book sv)"
    and wf: "\<not> statement_malformed market (next_sequence (oc_log (sv_ordering sv))) (oa_commitment a)
      (log_head E (oc_log (sv_ordering sv))) (expires_at ord) now"
    and el: "verify_order (en_dekyx N) (sv_eligibility sv) (commitment_bytes (commitment E ord)) (dekyx_nullifier ord)
      (expires_at ord) evidence now = (Inr verified, ev)" "ve_proof_digest verified \<noteq> 0"
    and bi: "bind_eligible_participant (sv_settlement sv) (participant_handle ord) (ve_subject_nullifier verified) = (Inr (), g1)"
    and rs: "reserve_order E (en_kit N) (en_reserve_blinding N) g1 (secret_order_view E ord) = (Inr receipt, g2)"
  obtains sg sv' where "stage_submission E N sv ord a evidence now = (Inr sg, sv')"
    "bx_fills (sg_book_transition sg) = batch_fills (sv_book sv) ord a now" "sg_settlement_order sg = ord"
proof -
  note o = service_okD [OF reachable_service_ok [OF re]]
  obtain t oc where t: "certify E (sv_ordering sv) market (oa_commitment a) (expires_at ord) now = (Inr t, oc)"
    and oc: "committee_ok E oc" and t1: "ct_sequence t = pb_sequence (sv_book sv) + 1" "ct_commitment t = oa_commitment a"
      "ct_market_id t = market"
    by (rule service_certifies [OF re E fresh wf])
  have pm: "pb_market_id (sv_book sv) = market" using o(4) by (simp add: lockstep_def)
  have pb: "private_match_batch (sv_book sv) ord now = Inr (batch_of (sv_book sv) ord now)"
    using pm o1(2) by (simp add: private_match_batch_of)
  obtain rn where m: "execute_batch E (en_mpc N) (sv_mpc sv) (batch_of (sv_book sv) ord now) =
      (Inr (round_receipt E (sv_mpc sv) (expected_batch (batch_of (sv_book sv) ord now))), rn)"
    by (rule honest_round [OF mesh bnd batch_of_priority [OF book_ok_sides [OF o(2)]]])
  let ?res = "expected_batch (batch_of (sv_book sv) ord now)"
  have rr: "mb_result (round_receipt E (sv_mpc sv) ?res) = ?res" by (simp add: round_receipt_def)
  have acc: "accepted E (sv_book sv) ord a (ct_sequence t) now"
    using au fresh pm o1(2) t1(1) by (simp add: accepted_def check_admission_ok)
  obtain tr b where b: "apply_mpc_batch_result E (sv_book sv) ord a (ct_sequence t) now ?res = (Inr tr, b)"
    using o(2) acc by (cases rule: apply_mpc_batch_result_cases [of E "sv_book sv" ord a "ct_sequence t" now ?res]) auto
  note bk = batch_book_open [OF o(2) o1(1) lockstep_next(2) [OF o(4) t] b]
  note pa = batch_public_after [OF b]
  have "sn_market_id (bx_public_after tr) = market" using pa bk(6) pm by (simp add: public_snapshot_def Let_def)
  then obtain st where st: "from_batch_execution E t tr (round_receipt E (sv_mpc sv) ?res) (ve_proof_digest verified) = Inr st"
    using pa t1 el(2) bk(9) by (auto simp: from_batch_execution_def round_receipt_def list_ex_iff batch_fills_taker)
  obtain p v where pv: "joint_assurance E st oc = Inr (p, v)" by (rule committee_assures [OF E oc])
  have "\<exists>sg sv'. stage_submission E N sv ord a evidence now = (Inr sg, sv') \<and> sg_book_transition sg = tr
      \<and> sg_settlement_order sg = ord"
    by (simp add: stage_submission_def stage_with_assurance_def check_eligibility_def o(1) o1(2) au mr cap el(1) bi rs t pb m
        rr b st pv Let_def)
  with bk(9) that show thesis by blast
qed

end
