(* ===== verification/Submission_Queue.thy ===== *)
theory Submission_Queue
  imports Service
begin

text \<open>
  The durable submission queue of \<open>oclob-service/src/lib.rs\<close>. An entry stores the exact signed request; a
  worker tick claims at most one entry, hands it to the service and records what became of it. The encrypted
  outbox belongs to the package \<open>zkpi-defmi-sdk\<close> and the JSON codec to \<open>serde_json\<close>: they are the records
  \<open>outbox_host\<close>, whose state is a type variable, and \<open>envelope_codec\<close>.
\<close>

section \<open>Data\<close>

definition QUEUED_SUBMISSION_VERSION :: u16 where
  "QUEUED_SUBMISSION_VERSION = 1"

definition DEFAULT_MAX_QUEUED_SUBMISSION_BYTES :: u64 where
  "DEFAULT_MAX_QUEUED_SUBMISSION_BYTES = 64 * 1024"

record QueuedSubmissionEnvelope =
  qe_version :: u16
  qe_order_wire :: "u8 list"
  qe_authority :: OrderAuthority
  qe_eligibility :: AnonymousPresentation

record envelope_codec =
  envelope_to_vec :: "QueuedSubmissionEnvelope \<Rightarrow> string + u8 list"
  envelope_from_slice :: "u8 list \<Rightarrow> string + QueuedSubmissionEnvelope"

record QueuedSubmissionReceipt =
  qr_request_id :: rust_str
  qr_request_digest :: Digest32
  qr_sequence :: u64
  qr_expires_at :: u64
  qr_already_present :: bool

datatype EnqueueOutcome = Enqueued u64 | AlreadyPresent u64

record ClaimedEntry =
  ce_request_id :: rust_str
  ce_request_digest :: Digest32
  ce_signed_request :: "u8 list"

datatype QueueAction = QueueExpire rust_str Digest32 | QueueDispatch ClaimedEntry

datatype CoverAction = CoverDummy | CoverExpire rust_str Digest32 | CoverReal ClaimedEntry

record CoverSlot =
  cv_slot :: u64
  cv_due_at :: u64
  cv_action :: CoverAction

record CanonicalReceipt =
  cq_defmi_network_id :: rust_str
  cq_transaction_id :: rust_str
  cq_ledger_height :: u64
  cq_request_digest :: Digest32
  cq_finalized_at :: u64

record 'q outbox_host =
  outbox_new :: "rust_str \<Rightarrow> u8 list \<Rightarrow> u64 \<Rightarrow> u64 \<Rightarrow> string + 'q"
  initialize_if_missing :: "'q \<Rightarrow> (string + unit) \<times> 'q"
  enqueue_first_seen :: "'q \<Rightarrow> rust_str \<Rightarrow> u8 list \<Rightarrow> u64 \<Rightarrow> u64 \<Rightarrow> (string + EnqueueOutcome) \<times> 'q"
  claim_next :: "'q \<Rightarrow> u64 \<Rightarrow> bool \<Rightarrow> u64 \<Rightarrow> (string + QueueAction option) \<times> 'q"
  claim_cover_slot :: "'q \<Rightarrow> u64 \<Rightarrow> bool \<Rightarrow> u64 \<Rightarrow> u64 \<Rightarrow> (string + CoverSlot option) \<times> 'q"
  record_pre_reserve_abort :: "'q \<Rightarrow> rust_str \<Rightarrow> Digest32 \<Rightarrow> u64 \<Rightarrow> (string + unit) \<times> 'q"
  mark_manual_review :: "'q \<Rightarrow> rust_str \<Rightarrow> Digest32 \<Rightarrow> u64 \<Rightarrow> string \<Rightarrow> (string + unit) \<times> 'q"
  record_settlement :: "'q \<Rightarrow> rust_str \<Rightarrow> Digest32 \<Rightarrow> CanonicalReceipt \<Rightarrow> (string + unit) \<times> 'q"

record 'q DurableOclobQueue =
  dq_outbox :: 'q
  dq_defmi_network_id :: rust_str
  dq_retry_after_seconds :: u64

datatype 'a QueueWorkerResult =
    Idle
  | WaitingForMpc
  | DummyCover u64 u64
  | Expired rust_str
  | Executed rust_str "'a OclobExecutionReceipt"
  | RetryableFailure rust_str string
  | Rejected rust_str string

definition ServiceError_to_string :: "ServiceError \<Rightarrow> string" where
  "ServiceError_to_string e = (case e of
     Service_Order m \<Rightarrow> ''order admission failed: '' @ m
   | Service_Eligibility m \<Rightarrow> ''DeKYX eligibility failed: '' @ m
   | Service_Ordering m \<Rightarrow> ''order sequencing failed: '' @ m
   | Service_Mpc m \<Rightarrow> ''private matching failed closed: '' @ m
   | Service_Proof m \<Rightarrow> ''book-transition proof failed: '' @ m
   | Service_Settlement m \<Rightarrow> ''zkPI/DeFMI settlement failed: '' @ m
   | CanonicalUncertain m \<Rightarrow> ''native settlement requires canonical reconciliation: '' @ m
   | Service_Queue m \<Rightarrow> ''durable OCLOB queue failed: '' @ m
   | Service_Panic m \<Rightarrow> m)"

section \<open>The envelope\<close>

definition envelope_encode ::
  "envelope_codec \<Rightarrow> SecretOrder \<Rightarrow> OrderAuthority \<Rightarrow> AnonymousPresentation \<Rightarrow> ServiceError + u8 list" where
  "envelope_encode J ord a evidence = map_err Service_Queue (envelope_to_vec J
     \<lparr>qe_version = QUEUED_SUBMISSION_VERSION, qe_order_wire = to_secret_wire ord, qe_authority = a,
      qe_eligibility = evidence\<rparr>)"

definition envelope_decode ::
  "crypto \<Rightarrow> envelope_codec \<Rightarrow> u8 list \<Rightarrow> string + SecretOrder \<times> OrderAuthority \<times> AnonymousPresentation" where
  "envelope_decode E J bytes =
     andThen (map_err (\<lambda>_. ''queued submission envelope is malformed'') (envelope_from_slice J bytes)) (\<lambda>envelope.
     andThen (fail_if (qe_version envelope \<noteq> QUEUED_SUBMISSION_VERSION)
       ''queued submission version is unsupported'') (\<lambda>_.
     andThen (map_err OrderError_to_string (from_secret_wire (qe_order_wire envelope))) (\<lambda>ord.
     andThen (fail_if (oa_commitment (qe_authority envelope) \<noteq> commitment E ord)
       ''queued authority belongs to another order'') (\<lambda>_.
     Inr (ord, qe_authority envelope, qe_eligibility envelope)))))"

section \<open>Operations\<close>

definition queue_open ::
  "'q outbox_host \<Rightarrow> rust_str \<Rightarrow> u8 list \<Rightarrow> rust_str \<Rightarrow> u64 \<Rightarrow> u64 \<Rightarrow> ServiceError + 'q DurableOclobQueue" where
  "queue_open B path passphrase network max_entries retry_after =
     andThen (fail_if (network = [] \<or> retry_after = 0)
       (Service_Queue ''DeFMI network id and retry interval are required'')) (\<lambda>_.
     andThen (map_err Service_Queue (outbox_new B path passphrase max_entries DEFAULT_MAX_QUEUED_SUBMISSION_BYTES)) (\<lambda>q.
     let (r, q') = initialize_if_missing B q in
     andThen (map_err Service_Queue r) (\<lambda>_.
     Inr \<lparr>dq_outbox = q', dq_defmi_network_id = network, dq_retry_after_seconds = retry_after\<rparr>)))"

definition enqueue ::
  "crypto \<Rightarrow> defmi \<Rightarrow> envelope_codec \<Rightarrow> 'q outbox_host \<Rightarrow> 'q DurableOclobQueue \<Rightarrow> SecretOrder \<Rightarrow> OrderAuthority \<Rightarrow>
   AnonymousPresentation \<Rightarrow> u64 \<Rightarrow> (ServiceError + QueuedSubmissionReceipt) \<times> 'q DurableOclobQueue" where
  "enqueue E D J B dq ord a evidence accepted_at =
     guarded (map_err order_failed (OrderAuthority_verify E a ord accepted_at)) dq (\<lambda>_.
     guarded (envelope_encode J ord a evidence) dq (\<lambda>signed_request.
     let request_id = hex_encode D (commitment_bytes (commitment E ord));
         (r, q) = enqueue_first_seen B (dq_outbox dq) request_id signed_request accepted_at (expires_at ord) in
     (map_sum Service_Queue (\<lambda>outcome.
        let (sequence, already_present) = (case outcome of Enqueued n \<Rightarrow> (n, False) | AlreadyPresent n \<Rightarrow> (n, True)) in
        \<lparr>qr_request_id = request_id, qr_request_digest = sha256 E signed_request, qr_sequence = sequence,
         qr_expires_at = expires_at ord, qr_already_present = already_present\<rparr>) r,
      dq\<lparr>dq_outbox := q\<rparr>)))"

text \<open>An outbox call whose failure is a queue error; the service state \<open>s\<close> is passed through.\<close>

definition recorded ::
  "(string + unit) \<times> 'q \<Rightarrow> 'r \<Rightarrow> 'q DurableOclobQueue \<Rightarrow> 's \<Rightarrow> (ServiceError + 'r) \<times> 'q DurableOclobQueue \<times> 's" where
  "recorded out x dq s = (map_sum Service_Queue (\<lambda>_. x) (fst out), dq\<lparr>dq_outbox := snd out\<rparr>, s)"

text \<open>\<open>exec\<close> is the closure over the service: it returns its result and the service it leaves.\<close>

definition dispatch_with ::
  "crypto \<Rightarrow> defmi \<Rightarrow> envelope_codec \<Rightarrow> 'q outbox_host \<Rightarrow> 'q DurableOclobQueue \<Rightarrow>
   (SecretOrder \<Rightarrow> OrderAuthority \<Rightarrow> AnonymousPresentation \<Rightarrow> u64 \<Rightarrow> 's \<Rightarrow> (ServiceError + 'a OclobExecutionReceipt) \<times> 's) \<Rightarrow>
   ClaimedEntry \<Rightarrow> u64 \<Rightarrow> 's \<Rightarrow> (ServiceError + 'a QueueWorkerResult) \<times> 'q DurableOclobQueue \<times> 's" where
  "dispatch_with E D J B dq exec e now s =
     (let i = ce_request_id e; d = ce_request_digest e; q = dq_outbox dq in
      case envelope_decode E J (ce_signed_request e) of
        Inl reason \<Rightarrow> recorded (mark_manual_review B q i d now reason) (Rejected i reason) dq s
      | Inr (ord, a, evidence) \<Rightarrow>
          let (r, s') = exec ord a evidence now s in
          (case r of
             Inr receipt \<Rightarrow>
               let (transaction_digest, height) = canonical_result receipt in
               recorded (record_settlement B q i d
                 \<lparr>cq_defmi_network_id = dq_defmi_network_id dq, cq_transaction_id = hex_encode D transaction_digest,
                  cq_ledger_height = height, cq_request_digest = d, cq_finalized_at = now\<rparr>)
                 (Executed i receipt) dq s'
           | Inl err \<Rightarrow>
               (case err of
                  CanonicalUncertain reason \<Rightarrow>
                    recorded (mark_manual_review B q i d now reason) (Rejected i reason) dq s'
                | Service_Panic m \<Rightarrow> (Inl (Service_Panic m), dq, s')
                | _ \<Rightarrow>
                    if retryable err then (Inr (RetryableFailure i (ServiceError_to_string err)), dq, s')
                    else recorded (record_pre_reserve_abort B q i d now)
                           (Rejected i (ServiceError_to_string err)) dq s')))"

definition pump_with ::
  "crypto \<Rightarrow> defmi \<Rightarrow> envelope_codec \<Rightarrow> 'q outbox_host \<Rightarrow> 'q DurableOclobQueue \<Rightarrow>
   (SecretOrder \<Rightarrow> OrderAuthority \<Rightarrow> AnonymousPresentation \<Rightarrow> u64 \<Rightarrow> 's \<Rightarrow> (ServiceError + 'a OclobExecutionReceipt) \<times> 's) \<Rightarrow>
   u64 \<Rightarrow> bool \<Rightarrow> 's \<Rightarrow> (ServiceError + 'a QueueWorkerResult) \<times> 'q DurableOclobQueue \<times> 's" where
  "pump_with E D J B dq exec now mpc_quorum_healthy s =
     (let (r, q) = claim_next B (dq_outbox dq) now mpc_quorum_healthy (dq_retry_after_seconds dq);
          dq1 = dq\<lparr>dq_outbox := q\<rparr> in
      case r of
        Inl m \<Rightarrow> (Inl (Service_Queue m), dq1, s)
      | Inr None \<Rightarrow> (Inr (if mpc_quorum_healthy then Idle else WaitingForMpc), dq1, s)
      | Inr (Some (QueueExpire i d)) \<Rightarrow> recorded (record_pre_reserve_abort B q i d now) (Expired i) dq1 s
      | Inr (Some (QueueDispatch e)) \<Rightarrow> dispatch_with E D J B dq1 exec e now s)"

definition pump_cover_slot ::
  "crypto \<Rightarrow> defmi \<Rightarrow> envelope_codec \<Rightarrow> 'q outbox_host \<Rightarrow> 'l service_env \<Rightarrow> 'q DurableOclobQueue \<Rightarrow> 'l OclobService \<Rightarrow>
   u64 \<Rightarrow> bool \<Rightarrow> u64 \<Rightarrow>
   (ServiceError + TransitionProof QueueWorkerResult) \<times> 'q DurableOclobQueue \<times> 'l OclobService" where
  "pump_cover_slot E D J B N dq sv now mpc_quorum_healthy interval =
     (let (r, q) = claim_cover_slot B (dq_outbox dq) now mpc_quorum_healthy (dq_retry_after_seconds dq) interval;
          dq1 = dq\<lparr>dq_outbox := q\<rparr> in
      case r of
        Inl m \<Rightarrow> (Inl (Service_Queue m), dq1, sv)
      | Inr None \<Rightarrow> (Inr (if mpc_quorum_healthy then Idle else WaitingForMpc), dq1, sv)
      | Inr (Some slot) \<Rightarrow> (case cv_action slot of
            CoverDummy \<Rightarrow> (Inr (DummyCover (cv_slot slot) (cv_due_at slot)), dq1, sv)
          | CoverExpire i d \<Rightarrow> recorded (record_pre_reserve_abort B q i d now) (Expired i) dq1 sv
          | CoverReal e \<Rightarrow> dispatch_with E D J B dq1 (\<lambda>ord a evidence now sv. submit E D N sv ord a evidence now)
                e now sv))"

definition pump ::
  "crypto \<Rightarrow> defmi \<Rightarrow> envelope_codec \<Rightarrow> 'q outbox_host \<Rightarrow> 'l service_env \<Rightarrow> 'q DurableOclobQueue \<Rightarrow> 'l OclobService \<Rightarrow>
   u64 \<Rightarrow> bool \<Rightarrow> (ServiceError + TransitionProof QueueWorkerResult) \<times> 'q DurableOclobQueue \<times> 'l OclobService" where
  "pump E D J B N dq sv now mpc_quorum_healthy =
     pump_with E D J B dq (\<lambda>ord a evidence now sv. submit E D N sv ord a evidence now) now mpc_quorum_healthy sv"

end
