(* ===== verification/Settlement_Witnesses.thy ===== *)
theory Settlement_Witnesses
  imports Canonical_Safety
begin

text \<open>
  A concrete run of the settlement engine: a fresh engine pins its committee, binds two participants,
  reserves a sell order and a buy order and settles the fill between them. The run instantiates the
  external packages by accepting functions and applies the properties of the engine to it.
\<close>

section \<open>The parties\<close>

definition sample_defmi :: defmi where
  "sample_defmi = \<lparr>securities_rail = [1], cash_rail = [1, 1],
     account_of = (\<lambda>p rail. to_be_bytes (p + 100 * of_nat (length rail))),
     ledger_snapshot = (\<lambda>_. 0), ledger_balance = map_of, ledger_conserved = (\<lambda>_. True), point_add = (+),
     point_sub = (-), public_key_serialize = Some, validate_settlement_committee = (\<lambda>_ _. Inr ()),
     asset_link_verify = (\<lambda>_ _ _. True), venue_require_pq = (\<lambda>_ _. Inr ()),
     venue_verify = (\<lambda>_ _ _ _. Inr ()), threshold_price_limit = (\<lambda>_ _ _ _ _. Inr ()),
     build_threshold_package = (\<lambda>i s c cc ev. Inr \<lparr>pk_instruction = i, pk_cash_commitment = cc,
       pk_securities_remainder = s, pk_cash_remainder = c, pk_evidence = ev\<rparr>),
     verify_threshold_range = (\<lambda>_ _. True), envelope_validate = (\<lambda>_. Inr ()),
     opening_context = (\<lambda>_ _. Inr []), package_digest = (\<lambda>_. 1), instruction_nullifier = in_nonce,
     instruction_encode = (\<lambda>_. []), hex_encode = to_be_bytes, manifest_digest = Inr 5,
     readback_new = (\<lambda>_ _. Inr []), accept_canonical_transition = (\<lambda>_ _ _ _ _. Inr 9)\<rparr>"

definition sample_policy :: QuorumPolicy where
  "sample_policy = \<lparr>qp_threshold = 3, qp_members = replicate 7 []\<rparr>"

definition sample_account :: "256 word \<Rightarrow> ParticipantBalances" where
  "sample_account p = \<lparr>pb_handle = p, pb_securities = opened_balance (\<lambda>_ _. 0) 10000 0,
     pb_cash = opened_balance (\<lambda>_ _. 0) 100000000 0\<rparr>"

definition sample_trust :: Digest32 where
  "sample_trust = sha256 sample_crypto (trust_preimage sample_keys seven_node)"

definition sample_engine :: SettlementEngine where
  "sample_engine = \<lparr>collaborative_public_key = Some [1], collaborative_pq_policy = Some sample_policy,
     participants = [(1, sample_account 1), (2, sample_account 2)], reservations = ReservationBook_default,
     spent_instructions = {}, transition_committee_trust_root = sample_trust, se_height = 0\<rparr>"

definition maker_secret :: SecretOrder where
  "maker_secret = (sample_order Sell 5 10 GoodTilCancelled 21)\<lparr>participant_handle := 1, dekyx_nullifier := 11\<rparr>"

definition taker_secret :: SecretOrder where
  "taker_secret = (sample_order Buy 6 4 GoodTilCancelled 22)\<lparr>participant_handle := 2, dekyx_nullifier := 12\<rparr>"

definition maker_view :: SettlementOrderView where
  "maker_view = order_view maker_secret (OrderCommitment 31)"

definition taker_view :: SettlementOrderView where
  "taker_view = order_view taker_secret (OrderCommitment 32)"

lemma sample_secrets_ok: "order_ok maker_secret" "order_ok taker_secret"
  by (simp_all add: order_ok_def maker_secret_def taker_secret_def sample_order_def required_reserve_def
      checked_mul_def checked_add_def is_multiple_of_def)

lemma sample_views:
  "maker_view = \<lparr>settlement_market_id = [65], settlement_side = Sell, settlement_limit_price = 5,
     settlement_quantity = 10, settlement_time_in_force = GoodTilCancelled, settlement_expires_at = 99,
     settlement_participant_handle = 1, settlement_dekyx_nullifier = 11, settlement_reservation_id = 21,
     settlement_reservation_limit = 1000, settlement_max_fee = 0, settlement_commitment = OrderCommitment 31\<rparr>"
  "taker_view = \<lparr>settlement_market_id = [65], settlement_side = Buy, settlement_limit_price = 6,
     settlement_quantity = 4, settlement_time_in_force = GoodTilCancelled, settlement_expires_at = 99,
     settlement_participant_handle = 2, settlement_dekyx_nullifier = 12, settlement_reservation_id = 22,
     settlement_reservation_limit = 1000, settlement_max_fee = 0, settlement_commitment = OrderCommitment 32\<rparr>"
  by (simp_all add: maker_view_def taker_view_def order_view_def maker_secret_def taker_secret_def sample_order_def)

section \<open>The run\<close>

lemma sample_engine_reachable: "reachable_engine sample_crypto sample_defmi sample_engine"
proof -
  let ?g = "sample_engine\<lparr>collaborative_public_key := None, collaborative_pq_policy := None\<rparr>"
  have "committee_trust_root sample_crypto sample_keys seven_node = Inr sample_trust"
    by (simp add: committee_trust_root_def sample_trust_def)
       (simp add: sample_committee_def seven_node_def)
  then have "new_with_transition_committee sample_crypto (\<lambda>_ _. 0) 1 2 (0, 0, 0, 0) sample_keys seven_node = Inr ?g"
    by (simp add: new_with_transition_committee_def sample_engine_def sample_account_def opened_balance_def)
  then have "reachable_engine sample_crypto sample_defmi ?g"
    by (rule reachable_engine.fresh)
  moreover have "pin_collaborative_settlement_committee sample_defmi ?g [1] sample_policy = (Inr (), sample_engine)"
    by (simp add: pin_collaborative_settlement_committee_def sample_engine_def sample_defmi_def sample_policy_def
        ReservationBook_default_def)
  ultimately show ?thesis
    by (rule reachable_engine.pin)
qed

definition bound_book :: ReservationBook where
  "bound_book = \<lparr>capacities = [((11, 1), 100000000), ((11, 2), 10000), ((12, 1), 100000000), ((12, 2), 10000)],
     participant_entities = [(1, 11), (2, 12)], entity_participants = [(11, 1), (12, 2)], records = []\<rparr>"

definition maker_record :: ReservationRecord where
  "maker_record = new_record maker_view 41"

definition taker_record :: ReservationRecord where
  "taker_record = new_record taker_view 42"

definition reserved_engine :: SettlementEngine where
  "reserved_engine = sample_engine\<lparr>reservations := bound_book\<lparr>records := [(21, maker_record), (22, taker_record)]\<rparr>,
     se_height := 2\<rparr>"

lemma sample_records:
  "maker_record = \<lparr>rr_reservation_id = 21, rr_order_commitment = 31, rr_participant_handle = 1,
     rr_entity_nullifier = 11, rr_market_id = [65], rr_kind = Securities, rr_limit_price = 5,
     rr_time_in_force = GoodTilCancelled, rr_original_quantity = 10, rr_remaining_quantity = 10, rr_max_fee = 0,
     rr_expires_at = 99, rr_reserved = 1000, rr_remaining = 1000, rr_reserve_commitment = 41, rr_status = Active\<rparr>"
  "taker_record = \<lparr>rr_reservation_id = 22, rr_order_commitment = 32, rr_participant_handle = 2,
     rr_entity_nullifier = 12, rr_market_id = [65], rr_kind = Cash, rr_limit_price = 6,
     rr_time_in_force = GoodTilCancelled, rr_original_quantity = 4, rr_remaining_quantity = 4, rr_max_fee = 0,
     rr_expires_at = 99, rr_reserved = 1000, rr_remaining = 1000, rr_reserve_commitment = 42, rr_status = Active\<rparr>"
  by (simp_all add: maker_record_def taker_record_def new_record_def sample_views side_kind_def)

lemma bound_engine_reachable:
  "reachable_engine sample_crypto sample_defmi (sample_engine\<lparr>reservations := bound_book\<rparr>)"
proof -
  let ?b = "\<lparr>capacities = [((11, 1), 100000000), ((11, 2), 10000)], participant_entities = [(1, 11)],
    entity_participants = [(11, 1)], records = []\<rparr>"
  have 1: "bind_eligible_participant sample_engine 1 11 = (Inr (), sample_engine\<lparr>reservations := ?b\<rparr>)"
    by (simp add: bind_eligible_participant_def sample_engine_def bind_participant_def ReservationBook_default_def
        sample_account_def opened_balance_def btree_get_def)
  have 2: "bind_eligible_participant (sample_engine\<lparr>reservations := ?b\<rparr>) 2 12
      = (Inr (), sample_engine\<lparr>reservations := bound_book\<rparr>)"
    by (simp add: bind_eligible_participant_def sample_engine_def bind_participant_def bound_book_def
        sample_account_def opened_balance_def btree_get_def)
  show ?thesis
    by (rule reachable_engine.bind [OF reachable_engine.bind [OF sample_engine_reachable 1] 2])
qed

lemma reserved_engine_reachable: "reachable_engine sample_crypto sample_defmi reserved_engine"
proof -
  let ?g = "sample_engine\<lparr>reservations := bound_book\<rparr>"
  let ?g1 = "sample_engine\<lparr>reservations := bound_book\<lparr>records := [(21, maker_record)]\<rparr>, se_height := 1\<rparr>"
  have "\<exists>r. reserve_order_with_commitment sample_crypto ?g maker_view 41 = (r, ?g1)"
    by (simp add: reserve_order_with_commitment_def ReservationBook_reserve_def Let_def sample_views(1) bound_book_def
        btree_get_def side_kind_def reservation_kind_tag_def in_use_def checked_sum_def checked_add_def
        maker_record_def sample_engine_def)
  then obtain r where 1: "reserve_order_with_commitment sample_crypto ?g (order_view maker_secret (OrderCommitment 31)) 41 = (r, ?g1)"
    by (auto simp: maker_view_def)
  have "\<exists>r. reserve_order_with_commitment sample_crypto ?g1 taker_view 42 = (r, reserved_engine)"
    by (simp add: reserve_order_with_commitment_def ReservationBook_reserve_def Let_def sample_views(2) bound_book_def
        btree_get_def side_kind_def reservation_kind_tag_def in_use_def checked_sum_def checked_add_def
        taker_record_def sample_engine_def reserved_engine_def sample_records(1))
  then obtain q where 2: "reserve_order_with_commitment sample_crypto ?g1 (order_view taker_secret (OrderCommitment 32)) 42 = (q, reserved_engine)"
    by (auto simp: taker_view_def)
  show ?thesis
    by (rule reachable_engine.reserve [OF reachable_engine.reserve [OF bound_engine_reachable sample_secrets_ok(1) 1]
          sample_secrets_ok(2) 2])
qed



section \<open>A settled fill\<close>

definition settled_fill :: PublicFill where
  "settled_fill = \<lparr>maker_order = OrderCommitment 31, taker_order = OrderCommitment 32, fill_price = 5, fill_quantity = 4\<rparr>"

definition settled_statement :: TransitionStatement where
  "settled_statement = \<lparr>ts_market_id = [65], ts_sequence = 1, order_certificate_digest = 1,
     eligibility_proof_digest = 1, ts_private_before_root = 1, ts_private_after_root = 2,
     ts_public_before_root = 1, ts_public_after_root = 2, mpc_program_digest = 1, mpc_output_digest = 7,
     fill_digest = public_fills_digest sample_crypto [settled_fill]\<rparr>"

definition settled_authorization :: TransitionAuthorization where
  "settled_authorization = JointProof \<lparr>vp_proof = \<lparr>tp_statement = settled_statement, tp_attestations = []\<rparr>,
     vp_committee_trust_root = sample_trust\<rparr>"

definition settled_job :: Digest32 where
  "settled_job = sha256 sample_crypto (job_id_preimage 3 0 7)"

definition sample_envelope :: "RistrettoPoint \<Rightarrow> OpeningEnvelope" where
  "sample_envelope recipient = \<lparr>env_context = [], env_recipient_view = recipient, env_shares = []\<rparr>"

definition settled_instruction :: Instruction where
  "settled_instruction = \<lparr>in_nonce = settled_job, in_deadline = 99, in_quote_binding = ProofDigest 7,
     in_payer_handle = 2, in_payee_handle = 1, in_asset_commitment = 0, in_amount_commitment = 4,
     in_price_commitment = 5, in_ranges_threshold = True, in_evidence = []\<rparr>"

definition settled_proof :: CollaborativeFillProof where
  "settled_proof = \<lparr>cf_job_id = settled_job, cf_market_proof_digest = 7, cf_limit_direction = MaximumBuyPrice,
     cf_limit_commitment = 0, cf_limit_context = 0,
     cf_asset_id = canonical_securities_asset_id sample_crypto [65], cf_instruction = settled_instruction,
     cf_frost_public = [1], cf_pq_committee = sample_policy, cf_maker_handle = 1, cf_price_limit_proof = [],
     cf_dvp_proofs = [], cf_cash_commitment = 20, cf_securities_remainder = 41, cf_cash_remainder = 42,
     cf_maker_pool_remainder = 41, cf_maker_pool_remainder_proof = [],
     cf_securities_delivery_opening = sample_envelope 2, cf_securities_refund_opening = sample_envelope 1,
     cf_cash_delivery_opening = sample_envelope 1, cf_cash_refund_opening = sample_envelope 2,
     cf_asset_link = []\<rparr>"

definition settled_maker :: ReservationRecord where
  "settled_maker = maker_record\<lparr>rr_remaining_quantity := 6, rr_remaining := 6\<rparr>"

definition settled_taker :: ReservationRecord where
  "settled_taker = taker_record\<lparr>rr_remaining_quantity := 0, rr_remaining := 0, rr_status := Consumed\<rparr>"

lemma settled_consume:
  "\<exists>cf. consume_fill (reservations reserved_engine) settled_fill [65] 50
     = (Inr cf, bound_book\<lparr>records := [(21, settled_maker), (22, settled_taker)]\<rparr>)
     \<and> cf = \<lparr>maker_reservation_id = 21, taker_reservation_id = 22, maker_kind = Securities,
       maker_reserve_commitment = 41, taker_reserve_commitment = 42, maker_remaining = 6, taker_remaining = 0,
       seller_handle = 1, buyer_handle = 2\<rparr>"
  by (simp add: consume_fill_def settled_fill_def checked_mul_def record_id_for_def reserved_engine_def sample_records
      btree_get_def fill_guard_def respects_limit_def fill_required_def consume_record_def checked_sub_def
      remaining_required_def set_record_def Let_def settled_maker_def settled_taker_def)

definition settled_package :: ThresholdDvpPackage where
  "settled_package = \<lparr>pk_instruction = settled_instruction, pk_cash_commitment = 20,
     pk_securities_remainder = 41, pk_cash_remainder = 42, pk_evidence = []\<rparr>"

lemma settled_verifies:
  "verify_for_settlement sample_defmi settled_proof
     \<lparr>sx_expected_job_id = settled_job, sx_market_proof_digest = 7, sx_maker_handle = 1, sx_taker_handle = 2,
      sx_maker_reserve = 41, sx_taker_reserve = 42, sx_asset_id = canonical_securities_asset_id sample_crypto [65],
      sx_frost_public = [1], sx_pq_committee = sample_policy, sx_now = 50\<rparr> = Inr settled_package"
  by (simp add: verify_for_settlement_def proof_bound_def settled_proof_def settled_instruction_def
      expected_handles_def sample_defmi_def sample_envelope_def settled_package_def Let_def)

lemma settled_job_id: "collaborative_job_id sample_crypto 3 0 7 = Inr settled_job"
  by (simp add: collaborative_job_id_def settled_job_def)

definition settled_participants :: "(Digest32, ParticipantBalances) btree" where
  "settled_participants =
     [(1, (sample_account 1)\<lparr>pb_securities := commitment_only 9996 (- 4), pb_cash := commitment_only 100000020 20\<rparr>),
      (2, (sample_account 2)\<lparr>pb_cash := commitment_only 99999980 (- 20), pb_securities := commitment_only 10004 4\<rparr>)]"

definition settled_member :: OclobSettlementMemberReceipt where
  "settled_member = \<lparr>sm_instruction_nullifier = settled_job, sm_zkpi_digest = sha256 sample_crypto [],
     sm_package_digest = 1, sm_maker_order = 31, sm_taker_order = 32, sm_maker_reservation_remaining = 6,
     sm_taker_reservation_remaining = 0\<rparr>"

lemma settled_fill_state:
  "settle_fill sample_crypto sample_defmi [65] [1] sample_policy 3 7 50 0 settled_fill settled_proof
     \<lparr>st_reservations = reservations reserved_engine, st_participants = participants reserved_engine,
      st_spent = {}, st_members = []\<rparr>
   = Inr \<lparr>st_reservations = bound_book\<lparr>records := [(21, settled_maker), (22, settled_taker)]\<rparr>,
          st_participants = settled_participants, st_spent = {settled_job}, st_members = [settled_member]\<rparr>"
proof -
  from settled_consume obtain cf where
    c: "consume_fill (reservations reserved_engine) settled_fill [65] 50
      = (Inr cf, bound_book\<lparr>records := [(21, settled_maker), (22, settled_taker)]\<rparr>)"
    and cf: "cf = \<lparr>maker_reservation_id = 21, taker_reservation_id = 22, maker_kind = Securities,
       maker_reserve_commitment = 41, taker_reserve_commitment = 42, maker_remaining = 6, taker_remaining = 0,
       seller_handle = 1, buyer_handle = 2\<rparr>" by blast
  have p: "btree_get [(1 :: Digest32, sample_account 1), (2, sample_account 2)] 1 = Some (sample_account 1)"
    "btree_get [(1 :: Digest32, sample_account 1), (2, sample_account 2)] 2 = Some (sample_account 2)"
    "participants reserved_engine = [(1, sample_account 1), (2, sample_account 2)]"
    by (simp_all add: reserved_engine_def sample_engine_def btree_get_def)
  have h: "pb_handle (sample_account x) = x" for x by (simp add: sample_account_def)
  have rem: "apply_collaborative_remainders (bound_book\<lparr>records := [(21, settled_maker), (22, settled_taker)]\<rparr>) cf 41 42 41
      = (Inr (), bound_book\<lparr>records := [(21, settled_maker), (22, settled_taker)]\<rparr>)"
    by (simp add: apply_collaborative_remainders_def cf btree_get_def set_record_def settled_maker_def settled_taker_def
        sample_records Let_def)
  have mv: "move_balances sample_defmi (sample_account 1) (sample_account 2) 4 20 settled_package
      = Inr ((sample_account 1)\<lparr>pb_securities := commitment_only 9996 (- 4), pb_cash := commitment_only 100000020 20\<rparr>,
             (sample_account 2)\<lparr>pb_cash := commitment_only 99999980 (- 20), pb_securities := commitment_only 10004 4\<rparr>)"
    by (simp add: move_balances_def checked_debit_def checked_credit_def checked_sub_def checked_add_def RANGE_BITS_def
        sample_account_def opened_balance_def settled_package_def settled_instruction_def sample_defmi_def)
  have pk: "pk_securities_remainder settled_package = 41" "pk_cash_remainder settled_package = 42"
    "pk_instruction settled_package = settled_instruction"
    "cf_limit_direction settled_proof = MaximumBuyPrice" "cf_maker_pool_remainder settled_proof = 41"
    by (simp_all add: settled_package_def settled_proof_def)
  have d: "instruction_nullifier sample_defmi settled_instruction = settled_job"
    "ledger_conserved sample_defmi l" "package_digest sample_defmi settled_package = 1"
    "instruction_encode sample_defmi settled_instruction = []" for l
    by (simp_all add: sample_defmi_def settled_instruction_def)
  have f: "fill_price settled_fill = 5" "fill_quantity settled_fill = 4" "maker_order settled_fill = OrderCommitment 31"
    "taker_order settled_fill = OrderCommitment 32" by (simp_all add: settled_fill_def)
  show ?thesis
    by (simp add: settle_fill_def c cf p h settled_job_id settled_verifies pk rem [unfolded cf] d f mv checked_mul_def
        split_def settled_participants_def settled_member_def Let_def)
qed

lemma settled_precheck:
  "settle_precheck sample_crypto reserved_engine [settled_fill] [settled_proof] 3 settled_authorization
     (OrderCommitment 32) 0 50 = Inr (taker_record, [1], sample_policy)"
proof -
  have r: "record_id_for (reservations reserved_engine) 32 = Some 22"
    "btree_get (records (reservations reserved_engine)) 22 = Some taker_record"
    "collaborative_pq_policy reserved_engine = Some sample_policy" "collaborative_public_key reserved_engine = Some [1]"
    "transition_committee_trust_root reserved_engine = sample_trust"
    by (simp_all add: record_id_for_def reserved_engine_def sample_engine_def sample_records btree_get_def)
  have t: "rr_status taker_record = Active" "rr_expires_at taker_record = 99" "rr_original_quantity taker_record = 4"
    "rr_market_id taker_record = [65]" by (simp_all add: sample_records)
  have a: "auth_settlement_binding sample_crypto settled_authorization [65] (OrderCommitment 32) [settled_fill] sample_trust
      = Inr ()" "mpc_output_digest (auth_statement settled_authorization) = 7"
    by (simp_all add: auth_settlement_binding_def settled_authorization_def settled_statement_def settled_fill_def)
  show ?thesis
    by (simp add: settle_precheck_def r t a MAX_MATCH_SLOTS_def checked_sum_def checked_add_def)
       (simp add: settled_fill_def)
qed

definition settled_book :: ReservationBook where
  "settled_book = \<lparr>capacities = [((11, 1), 100000020), ((11, 2), 9996), ((12, 1), 99999980), ((12, 2), 10004)],
     participant_entities = [(1, 11), (2, 12)], entity_participants = [(11, 1), (12, 2)],
     records = [(21, settled_maker), (22, settled_taker)]\<rparr>"

definition settled_state :: settle_state where
  "settled_state = \<lparr>st_reservations = settled_book, st_participants = settled_participants,
     st_spent = {settled_job}, st_members = [settled_member]\<rparr>"

lemma settled_staged:
  "settle_staged sample_crypto sample_defmi reserved_engine [settled_fill] [settled_proof] 3 settled_authorization
     (OrderCommitment 32) 0 50 = Inr settled_state"
proof -
  let ?b = "bound_book\<lparr>records := [(21, settled_maker), (22, settled_taker)]\<rparr>"
  have m: "rr_market_id taker_record = [65]" "mpc_output_digest (auth_statement settled_authorization) = 7"
    "spent_instructions reserved_engine = {}" "ledger_conserved sample_defmi l" for l
    by (simp_all add: sample_records settled_authorization_def settled_statement_def reserved_engine_def
        sample_engine_def sample_defmi_def)
  have rc: "reconcile_arriving_collaborative ?b 32 0 = (Inr 0, ?b)"
    by (simp add: reconcile_arriving_collaborative_def record_id_for_def settled_maker_def settled_taker_def
        sample_records btree_get_def set_record_def)
  have rf: "refresh_all ?b settled_participants = Inr settled_book"
    by (simp add: settled_participants_def refresh_capacity_def bound_book_def btree_get_def commitment_only_def
        settled_book_def)
  show ?thesis
    by (simp add: settle_staged_def settled_precheck m settled_fill_state rc rf split_def settled_state_def
        set_last_remaining_def)
       (simp add: settled_member_def)
qed

definition settled_engine :: SettlementEngine where
  "settled_engine = reserved_engine\<lparr>se_height := 3, reservations := settled_book,
     participants := settled_participants, spent_instructions := {settled_job}\<rparr>"

lemma settled_batch:
  "\<exists>receipt. settle_batch_collaborative sample_crypto sample_defmi reserved_engine [settled_fill] [settled_proof] 3
     settled_authorization (OrderCommitment 32) 0 50 = (Inr receipt, settled_engine)"
proof -
  have h: "checked_add (se_height reserved_engine) 1 = Some 3"
    by (simp add: reserved_engine_def checked_add_def)
  have d: "readback_new sample_defmi x y = Inr []" "manifest_digest sample_defmi = Inr 5"
    "accept_canonical_transition sample_defmi p q r s u = Inr 9" for x y p q r s u
    by (simp_all add: sample_defmi_def)
  show ?thesis
    by (simp add: settle_batch_collaborative_def commit_staged_def settled_staged h d Let_def split_def settled_engine_def settled_state_def)
qed

theorem settlement_conserves_witness:
  "total_funds (participants settled_engine) Cash = 200000000
   \<and> total_funds (participants settled_engine) Securities = 20000"
proof -
  from settled_batch obtain receipt where s: "settle_batch_collaborative sample_crypto sample_defmi reserved_engine
     [settled_fill] [settled_proof] 3 settled_authorization (OrderCommitment 32) 0 50 = (Inr receipt, settled_engine)"
    by blast
  have "total_funds (participants reserved_engine) Cash = 200000000"
    "total_funds (participants reserved_engine) Securities = 20000"
    by (simp_all add: total_funds_def reserved_engine_def sample_engine_def funds_def sample_account_def opened_balance_def)
  with settlement_conserves [OF reserved_engine_reachable s] show ?thesis by simp
qed

text \<open>The batch presented again finds the arriving reservation consumed.\<close>

lemma settled_engine_reachable: "reachable_engine sample_crypto sample_defmi settled_engine"
  using settled_batch reachable_engine.settle [OF reserved_engine_reachable] by blast

theorem settlement_never_insolvent_witness:
  "\<exists>e. settle_batch_collaborative sample_crypto sample_defmi settled_engine [settled_fill] [settled_proof] 3
     settled_authorization (OrderCommitment 32) 0 50 = (Inl e, settled_engine) \<and> benign e"
proof -
  have "settle_precheck sample_crypto settled_engine [settled_fill] [settled_proof] 3 settled_authorization
      (OrderCommitment 32) 0 50 = Inl (Reservation ''an inactive or expired arriving reservation cannot settle'')"
    by (simp add: settle_precheck_def settled_engine_def settled_book_def record_id_for_def btree_get_def
        settled_fill_def settled_maker_def settled_taker_def sample_records MAX_MATCH_SLOTS_def)
  then have e: "settle_batch_collaborative sample_crypto sample_defmi settled_engine [settled_fill] [settled_proof] 3
     settled_authorization (OrderCommitment 32) 0 50
     = (Inl (Reservation ''an inactive or expired arriving reservation cannot settle''), settled_engine)"
    by (simp add: settle_batch_collaborative_def settle_staged_def)
  have "\<forall>l. ledger_conserved sample_defmi l" by (simp add: sample_defmi_def)
  from settlement_never_insolvent [OF settled_engine_reachable this e] e show ?thesis by blast
qed

section \<open>An accepted reservation\<close>

definition length_crypto :: crypto where
  "length_crypto = sample_crypto\<lparr>sha256 := (\<lambda>bs. of_nat (Suc (length bs)))\<rparr>"

definition base_engine :: SettlementEngine where
  "base_engine = sample_engine\<lparr>reservations := bound_book\<rparr>"

definition candidate_engine :: SettlementEngine where
  "candidate_engine = sample_engine\<lparr>reservations := bound_book\<lparr>records := [(21, maker_record)]\<rparr>, se_height := 1\<rparr>"

definition admission_authorization :: TransitionAuthorization where
  "admission_authorization = JointProof \<lparr>vp_proof = \<lparr>tp_statement = \<lparr>ts_market_id = ct_market_id sample_certificate,
       ts_sequence = ct_sequence sample_certificate,
       order_certificate_digest = certificate_digest length_crypto sample_certificate,
       eligibility_proof_digest = 1, ts_private_before_root = 1, ts_private_after_root = 2,
       ts_public_before_root = 1, ts_public_after_root = 2, mpc_program_digest = 1, mpc_output_digest = 7,
       fill_digest = public_fills_digest length_crypto []\<rparr>, tp_attestations = []\<rparr>,
     vp_committee_trust_root = sample_trust\<rparr>"

definition admission_receipt :: ReservationReceipt where
  "admission_receipt = \<lparr>rc_reservation_id = 21, rc_order_commitment = 31, rc_kind = Securities, rc_reserved = 1000,
     rc_state_root = reservation_root length_crypto candidate_engine, rc_canonical_receipt_digest = 1,
     rc_canonical_height = 1, rc_zkpi_digest = None, rc_instruction_nullifier = None, rc_proof_digest = None,
     rc_avalanche_transaction_id = None, rc_avalanche_block_id = None\<rparr>"

lemma length_sha256: "sha256 length_crypto bs = of_nat (Suc (length bs))"
  by (simp add: length_crypto_def)

lemma sample_roots:
  "reservation_root length_crypto base_engine = 320" "reservation_root length_crypto candidate_engine = 548"
  by (simp_all add: reservation_root_def ReservationBook_root_def root_preimage_def length_sha256 base_engine_def
      candidate_engine_def bound_book_def bytes_of_def record_encoding_def put_bytes_def sample_records)

definition sample_openings :: "Digest32 \<Rightarrow> CanonicalAccountOpening list" where
  "sample_openings root =
     [\<lparr>ao_handle = canonical_reservation_state_handle length_crypto [65],
       ao_asset_id = canonical_reservation_state_asset_id length_crypto [65], ao_commitment = root\<rparr>,
      \<lparr>ao_handle = 101, ao_asset_id = canonical_securities_asset_id length_crypto [65], ao_commitment = 0\<rparr>,
      \<lparr>ao_handle = 102, ao_asset_id = canonical_securities_asset_id length_crypto [65], ao_commitment = 0\<rparr>,
      \<lparr>ao_handle = 201, ao_asset_id = canonical_cash_asset_id length_crypto, ao_commitment = 0\<rparr>,
      \<lparr>ao_handle = 202, ao_asset_id = canonical_cash_asset_id length_crypto, ao_commitment = 0\<rparr>]"

lemma sample_accounts:
  assumes "participants g = [(1, sample_account 1), (2, sample_account 2)]"
  shows "canonical_account_openings length_crypto sample_defmi g [65] = Inr (sample_openings (reservation_root length_crypto g))"
proof -
  have l: "ledgers_from_participants sample_defmi [(1, sample_account 1), (2, sample_account 2)]
      = ([(to_be_bytes (101 :: 256 word), 0), (to_be_bytes (102 :: 256 word), 0)],
         [(to_be_bytes (201 :: 256 word), 0), (to_be_bytes (202 :: 256 word), 0)])"
    by (simp add: ledgers_from_participants_def sample_defmi_def sample_account_def opened_balance_def)
  have o: "account_opening sample_defmi l (securities_rail sample_defmi) asset (sample_account p) =
      (case map_of l (to_be_bytes (p + 100)) of None \<Rightarrow> Inl CanonicalDivergence
       | Some point \<Rightarrow> Inr \<lparr>ao_handle = p + 100, ao_asset_id = asset, ao_commitment = point\<rparr>)"
    "account_opening sample_defmi l (cash_rail sample_defmi) asset (sample_account p) =
      (case map_of l (to_be_bytes (p + 200)) of None \<Rightarrow> Inl CanonicalDivergence
       | Some point \<Rightarrow> Inr \<lparr>ao_handle = p + 200, ao_asset_id = asset, ao_commitment = point\<rparr>)" for l asset p
    by (simp_all add: account_opening_def sample_defmi_def sample_account_def ok_or_def from_to_be_bytes split: option.split)
  have h: "canonical_reservation_state_handle length_crypto [65] = 50"
    by (simp add: canonical_reservation_state_handle_def length_sha256 bytes_of_def put_bytes_def)
  show ?thesis
    by (simp add: canonical_account_openings_def assms l o h sample_openings_def reservation_root_def)
qed

lemma sample_prepared:
  "\<exists>p. prepare_canonical_reservation length_crypto sample_defmi (\<lambda>_ _ _ _ _. Inr ([], 77)) base_engine candidate_engine
     admission_receipt maker_view sample_certificate admission_authorization 50 = Inr p
   \<and> pcr_application_binding (case p of PreparedReservation q \<Rightarrow> q) = 5"
proof -
  have b: "auth_admission_binding length_crypto admission_authorization sample_certificate
      (transition_committee_trust_root base_engine) = Inr ()"
    by (simp add: auth_admission_binding_def admission_authorization_def base_engine_def sample_engine_def)
  have v: "validate_active_order (reservations candidate_engine) maker_view = Inr ()"
    by (simp add: validate_active_order_def candidate_engine_def record_id_for_def btree_get_def sample_records
        sample_views side_kind_def)
  have s: "ss_height (state_snapshot length_crypto sample_defmi g) = se_height g"
    "ss_securities_root (state_snapshot length_crypto sample_defmi g) = 0"
    "ss_cash_root (state_snapshot length_crypto sample_defmi g) = 0" for g
    by (simp_all add: state_snapshot_def sample_defmi_def split_def Let_def)
  have m: "receipt_matches (state_snapshot length_crypto sample_defmi base_engine)
      (state_snapshot length_crypto sample_defmi candidate_engine) admission_receipt maker_view"
    by (simp add: receipt_matches_def s snapshot_root admission_receipt_def sample_views)
       (simp add: base_engine_def candidate_engine_def sample_engine_def saturating_add_def checked_add_def)
  have ps: "participants base_engine = [(1, sample_account 1), (2, sample_account 2)]"
    "participants candidate_engine = [(1, sample_account 1), (2, sample_account 2)]"
    by (simp_all add: base_engine_def candidate_engine_def sample_engine_def)
  have z: "build_reservation_zkpi length_crypto (\<lambda>_ _ _ _ _. Inr ([], 77)) base_engine maker_view d 50
      = Inr (sha256 length_crypto [], 77, domain_digest length_crypto ''OCLOB:ZKPI:RESERVATION-RANGES:v1'' [])" for d
    by (simp add: build_reservation_zkpi_def sample_views ps btree_get_def saturating_add_def checked_add_def)
  have k: "settlement_market_id maker_view = [65]" "manifest_digest sample_defmi = Inr 5"
    by (simp_all add: sample_views sample_defmi_def)
  show ?thesis
    by (simp add: prepare_canonical_reservation_def b v m k z sample_accounts [OF ps(1)] sample_accounts [OF ps(2)]
        sample_openings_def sample_roots reservation_delta_ok_def snapshot_root Let_def)
qed

definition sample_acceptance :: "Digest32 \<Rightarrow> CanonicalSettlementAcceptance" where
  "sample_acceptance binding = \<lparr>sa_transaction_id = [1], sa_block_id = [1], sa_height = 1, sa_statement = 1,
     sa_before_state_root = 1, sa_after_state_root = 2, sa_receipt_digest = 1, sa_application_binding = 5,
     sa_binding_digest = binding\<rparr>"


end
