(* ===== verification/Mpc_Types.thy ===== *)
theory Mpc_Types
  imports Mpc_Refinement
begin

text \<open>
  Ranges of the circuit's wires and widths of its files. The circuit is compiled for 64-bit comparisons in
  a field of 253 bits; every value it compares on inputs within its bounds stays below 2 to the 36, so that the
  integer model and the field agree.
\<close>

section \<open>Ranges\<close>

lemma bounded_wires:
  assumes w: "batch_wires batch rs a" and b: "batch_bounded batch" and i: "i < MAX_MATCH_SLOTS"
  shows "w_active (rs ! i) \<in> {0, 1}" "w_side (rs ! i) \<in> {0, 1}" "0 \<le> w_price (rs ! i)" "w_price (rs ! i) < 2 ^ 32"
    "0 \<le> w_quantity (rs ! i)" "w_quantity (rs ! i) < 2 ^ 32"
proof -
  have r: "uint (ri_price (resting batch ! i)) < 2 ^ 32" "uint (ri_quantity (resting batch ! i)) < 2 ^ 32"
    if "i < length (resting batch)"
    using b that u32_uint nth_mem [OF that] unfolding batch_bounded_def by blast+
  show "w_active (rs ! i) \<in> {0, 1}" "w_side (rs ! i) \<in> {0, 1}" "0 \<le> w_price (rs ! i)" "w_price (rs ! i) < 2 ^ 32"
    "0 \<le> w_quantity (rs ! i)" "w_quantity (rs ! i) < 2 ^ 32"
    using slot_fields [OF w i] r side_bit [of "ri_side (resting batch ! i)"]
    by (cases "i < length (resting batch)"; simp)+
qed

lemma better_wire_bit:
  assumes "batch_wires batch rs a"
  shows "better_wire a rs i j \<in> {0, 1}"
  using assms by (auto simp: better_wire_def batch_wires_def if_else_side split: Side.splits)

lemma higher_quantity_range:
  assumes w: "batch_wires batch rs a" and b: "batch_bounded batch"
  shows "0 \<le> higher_quantity a rs i \<and> higher_quantity a rs i < 2 ^ 35"
proof -
  let ?t = "\<lambda>j. eligible_wire a (rs ! j) * better_wire a rs i j * w_quantity (rs ! j)"
  let ?js = "filter (\<lambda>j. j \<noteq> i) [0..<MAX_MATCH_SLOTS]"
  have t: "0 \<le> ?t j \<and> ?t j \<le> 2 ^ 32 - 1" if "j \<in> set ?js" for j
  proof -
    have j: "j < MAX_MATCH_SLOTS" using that by simp
    show ?thesis
      using bounded_wires(5,6) [OF w b j] better_wire_bit [OF w, of i j]
      by (auto simp: eligible_wire_batch [OF w j])
  qed
  have "sum_list (map ?t js) \<le> (2 ^ 32 - 1) * int (length js) \<and> 0 \<le> sum_list (map ?t js)" if "set js \<subseteq> set ?js" for js
    using that by (induction js) (use t in \<open>fastforce simp: algebra_simps\<close>)+
  from this [OF order_refl] have h: "0 \<le> higher_quantity a rs i"
      "higher_quantity a rs i \<le> (2 ^ 32 - 1) * int (length ?js)"
    unfolding higher_quantity_def by blast+
  have "int (length ?js) \<le> 8"
    using length_filter_le [of "\<lambda>j. j \<noteq> i" "[0..<MAX_MATCH_SLOTS]"] by (simp add: MAX_MATCH_SLOTS_def)
  then have "(2 ^ 32 - 1) * int (length ?js) \<le> (2 ^ 32 - 1) * 8" by (intro mult_left_mono) simp_all
  with h show ?thesis by simp
qed

lemma available_range:
  assumes w: "batch_wires batch rs a" and b: "batch_bounded batch"
  shows "0 \<le> available_wire a rs i \<and> available_wire a rs i < 2 ^ 32"
proof -
  have "0 \<le> a_quantity a \<and> a_quantity a < 2 ^ 32"
    using w b u32_uint [of "arriving_quantity batch"] by (simp add: batch_wires_def batch_bounded_def)
  with higher_quantity_range [OF w b, of i] show ?thesis by (simp add: available_wire_def Let_def)
qed

lemma depth_row_range:
  assumes w: "batch_wires batch rs a" and p: "slots_in_priority batch" and b: "batch_bounded batch"
    and r: "r \<in> set (depth_rows (book_wires a rs rnd))"
  shows "0 \<le> dr_key r \<and> dr_key r < 2 ^ 35 \<and> dr_side r \<in> {0, 1} \<and> 0 \<le> dr_price r \<and> dr_price r < 2 ^ 32
    \<and> 0 \<le> dr_quantity r \<and> dr_quantity r < 2 ^ 36"
proof (cases "dr_key r < 2 ^ 34")
  case True
  note v = batch_view [OF w p b, where rnd = rnd]
  have "r \<in> set (active_rows (batch_side batch) (batch_price batch) (batch_left batch))"
    using r True unfolding depth_rows_active(1) [OF v, symmetric] by simp
  then have "level_row_of batch r" by (simp only: active_rows_batch [OF b v])
  then obtain s q where q: "r = level_row (uint (Side_wire s)) (uint q) (int (depth_after batch s q))" "q \<le> u32_max"
    by (auto simp: level_row_of_def)
  have "depth_after batch s q < 2 ^ 36" using depth_after_bound [OF b, of s q] by (simp add: u32_max_def)
  moreover have "int (depth_after batch s q) < 2 ^ 36" using calculation by simp
  moreover obtain n where n: "uint q = n" "0 \<le> n" "n < 2 ^ 32" using u32_uint [OF q(2)] by blast
  ultimately show ?thesis
    using True by (cases s) (simp_all add: q(1) n(1) level_row_def uint_Side_wire)
next
  case False
  with depth_rows_active(2) [OF batch_view [OF w p b] r] show ?thesis by (simp add: depth_padding_def)
qed

text \<open>C10. The wires of the circuit are well typed. For the inputs the runner builds from a batch within the
  bounds, every flag is zero or one, every price and traded quantity has 32 bits, every prefix sum, key and
  level quantity that is compared or sorted is non-negative and below 2 to the 36, and the files have the
  published widths: 72 input wires, a next private book of the same 72 wires, 616 proof wires for each slot, and
  5000 persisted wires in all.\<close>

theorem circuit_wires_typed:
  assumes "compatibility_private_values batch = Inr vs" "batch_bounded batch" "slots_in_priority batch"
  defines "rs \<equiv> read_slots vs" and "a \<equiv> read_arriving vs"
  shows "(\<forall>i < MAX_MATCH_SLOTS. matched_wire a rs i \<in> {0, 1}
      \<and> trade_price_wire a rs i \<in> {0..<2 ^ 32} \<and> trade_quantity_wire a rs i \<in> {0..<2 ^ 32}
      \<and> higher_quantity a rs i \<in> {0..<2 ^ 35} \<and> available_wire a rs i \<in> {0..<2 ^ 32})
    \<and> published_remaining a rs \<in> {0..<2 ^ 32}
    \<and> (\<forall>r\<in>set (depth_rows (book_wires a rs rnd)). dr_key r \<in> {0..<2 ^ 35} \<and> dr_side r \<in> {0, 1}
        \<and> dr_price r \<in> {0..<2 ^ 32} \<and> dr_quantity r \<in> {0..<2 ^ 36})
    \<and> length vs = PRIVATE_BOOK_WIRES \<and> length (fst (circuit_persistence a rs rnd)) = PRIVATE_BOOK_WIRES
    \<and> length (snd (circuit_persistence a rs rnd)) = MAX_MATCH_SLOTS * SETTLEMENT_PROOF_WIRES_PER_FILL
    \<and> PERSISTENCE_WIRES = 5000"
proof -
  have w: "batch_wires batch rs a" unfolding rs_def a_def by (rule inputs_read [OF assms(1)])
  have len: "length (resting batch) \<le> MAX_MATCH_SLOTS" using assms(2) by (simp add: batch_bounded_def)
  have q: "uint (arriving_quantity batch) < 2 ^ 32"
    using assms(2) u32_uint [of "arriving_quantity batch"] by (simp add: batch_bounded_def)
  have slot: "matched_wire a rs i \<in> {0, 1} \<and> trade_price_wire a rs i \<in> {0..<2 ^ 32}
      \<and> trade_quantity_wire a rs i \<in> {0..<2 ^ 32}" if i: "i < MAX_MATCH_SLOTS" for i
  proof -
    have m: "matched_wire a rs i \<in> {0, 1}"
      using slot_wires_refine(2) [OF w assms(3) _ i] idle_slot_wires(1) [OF w _ i]
      by (cases "i < length (resting batch)") auto
    then show ?thesis
      using bounded_wires [OF w assms(2) i] available_range [OF w assms(2), of i]
      by (auto simp: trade_price_wire_def trade_quantity_wire_def Let_def)
  qed
  have "published_remaining a rs \<in> {0..<2 ^ 32}"
    using circuit_remaining_refine(2) [OF w assms(3) len] arriving_remaining_le [of batch] q
    by (simp add: word_le_def)
  moreover have "length vs = PRIVATE_BOOK_WIRES"
    using assms(1) by (auto simp: compatibility_private_values_def andThen_eq_Inr Let_def PRIVATE_BOOK_WIRES_def
        PRIVATE_ORDER_WIRES_def split: if_splits)
  moreover have "length (fst (circuit_persistence a rs rnd)) = PRIVATE_BOOK_WIRES"
    by (simp add: circuit_persistence_def split_def Let_def run_slots_book length_resting_block PRIVATE_BOOK_WIRES_def
        PRIVATE_ORDER_WIRES_def)
  moreover have "length (snd (circuit_persistence a rs rnd)) = MAX_MATCH_SLOTS * SETTLEMENT_PROOF_WIRES_PER_FILL"
    by (simp add: circuit_persistence_def split_def Let_def length_run_slots_proofs)
  moreover have "PERSISTENCE_WIRES = 5000"
    by (simp add: PERSISTENCE_WIRES_def PRIVATE_BOOK_WIRES_def PRIVATE_ORDER_WIRES_def MAX_MATCH_SLOTS_def
        SETTLEMENT_PROOF_WIRES_PER_FILL_def)
  ultimately show ?thesis
    using slot higher_quantity_range [OF w assms(2)] available_range [OF w assms(2)]
      depth_row_range [OF w assms(3,2)] by simp
qed

section \<open>A concrete engine\<close>

definition still_random :: "nat \<Rightarrow> slot_random" where
  "still_random _ = \<lparr>fill_quantity_blinding = 0, cash_blinding = 0, bit_blinding = (\<lambda>_ _. 0)\<rparr>"

text \<open>An engine whose seven parties run the circuit.\<close>

definition sample_host :: mpc_host where
  "sample_host = \<lparr>host_recheck = Inr (), host_share = (\<lambda>vs. Inr [vs]), host_spawn = (\<lambda>_. Inr ()),
     host_serve = (\<lambda>files. Inr (replicate MPC_PARTIES (party_text (sort_key dr_key) still_random (hd files))))\<rparr>"

definition sample_runner :: MpcRunner where
  "sample_runner = \<lparr>rn_program_sha256 = 9, rn_rounds = 0, rn_mesh = False, rn_meshes = 0\<rparr>"

lemma sort_key_sorts: "sorts_rows (sort_key dr_key)"
  by (simp add: sorts_rows_def)

lemma sample_host_honest: "honest_mesh sample_host (sort_key dr_key) still_random"
  by (simp add: honest_mesh_def sort_key_sorts sample_host_def)

lemma sample_batch_fits: "batch_bounded sample_batch" "slots_in_priority sample_batch"
  by (simp_all add: batch_bounded_def slots_in_priority_def better_price_def sample_batch_def sample_slot_def
      MAX_MATCH_SLOTS_def u32_max_def)

theorem engine_refines_reference_witness:
  "\<exists>rcp rn'. execute_batch sample_crypto sample_host sample_runner sample_batch = (Inr rcp, rn')
     \<and> mb_result rcp = expected_batch sample_batch \<and> rn_rounds rn' = 1"
  using engine_refines_reference [OF sample_host_honest sample_batch_fits, of sample_crypto sample_runner]
  by (auto simp: sample_runner_def)

theorem one_honest_party_witness:
  "\<exists>rcp rn'. execute_batch sample_crypto sample_host sample_runner sample_batch = (Inr rcp, rn')
     \<and> mb_result rcp = expected_batch sample_batch
     \<and> mb_public_output_sha256 rcp = public_output_digest sample_crypto (expected_batch sample_batch)"
proof -
  obtain rn' where r: "execute_batch sample_crypto sample_host sample_runner sample_batch
      = (Inr (round_receipt sample_crypto sample_runner (expected_batch sample_batch)), rn')"
    by (rule honest_round [OF sample_host_honest sample_batch_fits])
  have "mb_result (round_receipt sample_crypto sample_runner (expected_batch sample_batch)) = expected_batch sample_batch
    \<and> mb_public_output_sha256 (round_receipt sample_crypto sample_runner (expected_batch sample_batch))
      = public_output_digest sample_crypto (expected_batch sample_batch)"
    by (rule one_honest_party [OF r sample_batch_fits sort_key_sorts, of still_random])
       (auto simp: sample_host_def MPC_PARTIES_def)
  with r show ?thesis by blast
qed

theorem circuit_wires_typed_witness:
  "\<exists>vs. compatibility_private_values sample_batch = Inr vs \<and> length vs = 72
     \<and> matched_wire (read_arriving vs) (read_slots vs) 1 \<in> {0, 1}"
proof -
  obtain vs where vs: "compatibility_private_values sample_batch = Inr vs" by (rule inputs_built [OF sample_batch_fits(1)])
  from circuit_wires_typed [OF vs sample_batch_fits, of still_random] vs show ?thesis
    by (auto simp: MAX_MATCH_SLOTS_def PRIVATE_BOOK_WIRES_def PRIVATE_ORDER_WIRES_def)
qed

end
