(* ===== verification/Service_Properties.thy ===== *)
theory Service_Properties
  imports Service_Liveness Submission_Queue Settlement_Witnesses Mpc_Types
begin

text \<open>
  The properties of the service and of its queue: the components agree in every reachable state, refused calls
  change nothing of them, admissible orders and authorised cancellations go through, an immediate-or-cancel
  order settles completely or not at all, and a queue worker only ever runs the submissions it was given. A
  concrete service with accepting external packages instantiates them.
\<close>

section \<open>A concrete service\<close>

definition sample_kit :: dvp_kit where
  "sample_kit = \<lparr>commit_u64 = (\<lambda>v x. ucast v + x + 1), commit_scalar = (\<lambda>v x. v + x), scalar_add = (+),
     deal_bits = (\<lambda>v x _. Inr \<lparr>vs_commitment = ucast v + x, vs_shares = []\<rparr>), node_contribution = (\<lambda>_ _. Some []),
     amount_range_context = [1], price_range_context = [2], joint_prove_range = (\<lambda>_ _ _. Inr []),
     from_threshold_ranges = (\<lambda>_ _ _ _ _ _ _ _ _ _. Inr []), partial_digest = id,
     partial_sealed = (\<lambda>_ _. settled_instruction), instruction_digest = (\<lambda>_. []), signing_shares = [1, 2, 3],
     round1_commit = (\<lambda>_ _. ([], [])), signing_package = (\<lambda>_ m. m), round2_sign = (\<lambda>_ _ _. Some []),
     frost_aggregate = (\<lambda>_ _. Some []), build_package = (\<lambda>i _ _ qty price h x y _. Inr (\<lparr>dp_instruction = i, dp_evidence = []\<rparr>,
       \<lparr>cy_securities_balance = hd_securities_balance h - qty, cy_securities_blinding = hd_securities_blinding h - x,
        cy_cash_balance = hd_cash_balance h - price * qty, cy_cash_blinding = hd_cash_blinding h - y,
        cy_cash_amount_blinding = y, cy_securities_amount_blinding = x\<rparr>)),
     dvp_package_digest = (\<lambda>_. 1), defmi_settle = (\<lambda>_ _ _ _ _. \<lparr>dr_status = Inr (), dr_securities_after = 0, dr_cash_after = 0\<rparr>)\<rparr>"

text \<open>A credential package that accepts every presentation once.\<close>

type_synonym sample_consumed = "(Digest32 \<times> PresentationContext) list"

definition sample_dekyx :: "sample_consumed dekyx_host" where
  "sample_dekyx = \<lparr>directory_verifier = (\<lambda>_ _ _. Inr []),
     verify_eligibility = (\<lambda>_ _ x p _. Inr \<lparr>ve_subject_nullifier = ap_nullifier p, ve_subject_line_id = 1,
       ve_proof_digest = 1, ve_valid_until = px_valid_until x\<rparr>),
     ledger_default = [],
     ledger_consume = (\<lambda>l n x. if (n, x) \<in> set l then (Inl ''presentation was already consumed'', l) else (Inr (), (n, x) # l))\<rparr>"

definition sample_verifier :: "sample_consumed OclobEligibilityVerifier" where
  "sample_verifier = \<lparr>ev_directory = [],
     ev_requirement = \<lparr>er_issuer_id = [], er_issuer_key_epoch = 1, er_subject_is_legal_entity = True,
       er_scope_digest = 7, er_rest = []\<rparr>,
     ev_consumed = [], ev_audience_digest = 8, ev_action_digest = 9\<rparr>"

definition sample_presentation :: "SecretOrder \<Rightarrow> AnonymousPresentation" where
  "sample_presentation ord = \<lparr>ap_context = \<lparr>px_scope_digest = 7, px_audience_digest = 8, px_action_digest = 9,
     px_request_digest = commitment_bytes (commitment sample_crypto ord), px_valid_until = 99, px_rest = []\<rparr>,
     ap_nullifier = dekyx_nullifier ord, ap_rest = []\<rparr>"

definition sample_env :: "sample_consumed service_env" where
  "sample_env = \<lparr>en_kit = sample_kit,
     en_fill_random = (\<lambda>_. \<lparr>fr_amount_blinding = 1, fr_price_blinding = 2, fr_asset_blinding = 3, fr_seed = (\<lambda>_. [])\<rparr>),
     en_reserve_blinding = 0, en_issue = (\<lambda>_ _ _ _ _. Inr ([], 77)), en_mpc = sample_host, en_dekyx = sample_dekyx\<rparr>"

definition sample_service :: "sample_consumed OclobService" where
  "sample_service = \<lparr>sv_market_id = [65], sv_book = sample_empty, sv_ordering = sample_committee sample_crypto,
     sv_mpc = sample_runner,
     sv_settlement = sample_engine\<lparr>collaborative_public_key := None, collaborative_pq_policy := None\<rparr>,
     sv_eligibility = sample_verifier, sv_demo_handles = (1, 2)\<rparr>"

lemma sample_service_reachable: "service_reachable sample_crypto D [65] sample_service"
proof -
  have "committee_trust_root sample_crypto sample_keys seven_node = Inr sample_trust"
    by (simp add: committee_trust_root_def sample_trust_def) (simp add: sample_committee_def seven_node_def)
  then have "SettlementEngine_new sample_crypto (\<lambda>_ _. 0) 1 2 (0, 0, 0, 0) = Inr (sv_settlement sample_service)"
    by (simp add: SettlementEngine_new_def sample_committee_demo new_with_transition_committee_def sample_engine_def
        sample_account_def opened_balance_def sample_service_def) (simp add: sample_committee_def)
  then have "OclobService_new sample_crypto (\<lambda>_ _. 0) 1 2 (0, 0, 0, 0) [65] (Inr sample_runner) sample_verifier = Inr sample_service"
    by (simp add: OclobService_new_def PrivateBook_new_def sample_committee_demo) (simp add: sample_service_def sample_empty_def)
  then show ?thesis by (rule service_reachable.start)
qed

text \<open>A bid of 5 at 12 on the fresh service, good till cancelled or immediate.\<close>

definition service_bid :: "TimeInForce \<Rightarrow> SecretOrder" where
  "service_bid tif = sample_order Buy 12 5 tif 6"

lemma service_bid_fields:
  "order_ok (service_bid tif)" "market_id (service_bid tif) = [65]" "side (service_bid tif) = Buy"
  "limit_price (service_bid tif) = 12" "quantity (service_bid tif) = 5" "time_in_force (service_bid tif) = tif"
  "expires_at (service_bid tif) = 99" "participant_handle (service_bid tif) = 1" "dekyx_nullifier (service_bid tif) = 2"
  "reservation_id (service_bid tif) = 6" "reservation_limit (service_bid tif) = 1000"
  "cancellation_secret_digest (service_bid tif) = 1533" "utf8_valid (market_id (service_bid tif))"
  unfolding service_bid_def by (rule sample_order_ok; simp) (simp_all add: sample_order_def utf8_valid_ascii)

lemma service_bid_commitment:
  "commitment sample_crypto (service_bid tif) = OrderCommitment (case tif of GoodTilCancelled \<Rightarrow> 2554 | ImmediateOrCancel \<Rightarrow> 2555)"
  by (cases tif) (simp_all add: service_bid_def sample_commitment_simps)

lemma service_bid_batch:
  "batch_of sample_empty (service_bid tif) 50 =
     \<lparr>resting = [], arriving_side = Buy, arriving_price = 12, arriving_quantity = 5, arriving_can_rest = (tif = GoodTilCancelled)\<rparr>"
  by (simp add: batch_of_def live_opposite_def ordered_opposite_def service_bid_fields sample_empty_def MAX_MATCH_SLOTS_def)

lemma service_bid_admission:
  "validate_market_rules (service_bid tif) MarketRules_p1 = Inr ()"
  "\<not> exceeds_fixed_match_capacity sample_empty (service_bid tif) 50"
  "batch_bounded (batch_of sample_empty (service_bid tif) 50)" "batch_fills sample_empty (service_bid tif) a 50 = []"
  "\<not> statement_malformed [65] (next_sequence (oc_log (sample_committee sample_crypto))) (commitment sample_crypto (service_bid tif))
     (log_head sample_crypto (oc_log (sample_committee sample_crypto))) 99 50"
  "verify_order sample_dekyx sample_verifier (commitment_bytes (commitment sample_crypto (service_bid tif))) 2 99
     (sample_presentation (service_bid tif)) 50 =
     (Inr \<lparr>ve_subject_nullifier = 2, ve_subject_line_id = 1, ve_proof_digest = 1, ve_valid_until = 99\<rparr>,
      sample_verifier\<lparr>ev_consumed := [(2, ap_context (sample_presentation (service_bid tif)))]\<rparr>)"
  subgoal
    by (simp add: validate_market_rules_def MarketRules_validate_def MarketRules_p1_def is_multiple_of_def)
       (simp add: service_bid_def sample_order_def)
  subgoal
    by (simp add: exceeds_fixed_match_capacity_def live_opposite_def ordered_opposite_def service_bid_fields sample_empty_def MAX_MATCH_SLOTS_def)
  subgoal by (simp add: service_bid_batch batch_bounded_def u32_max_def MAX_MATCH_SLOTS_def)
  subgoal by (simp add: batch_fills_def service_bid_batch)
  subgoal by (cases tif) (simp_all add: sample_committee_log statement_malformed_def service_bid_commitment)
  subgoal
    by (simp add: verify_order_def sample_dekyx_def sample_verifier_def sample_presentation_def context_mismatch_def
        service_bid_fields)
  done

lemma service_bid_reserved:
  obtains g1 receipt g2 where
    "bind_eligible_participant (sv_settlement sample_service) 1 2 = (Inr (), g1)"
    "reserve_order sample_crypto sample_kit 0 g1 (secret_order_view sample_crypto (service_bid tif)) = (Inr receipt, g2)"
    "se_height g2 = 1"
proof -
  have v: "secret_order_view sample_crypto (service_bid tif) = \<lparr>settlement_market_id = [65], settlement_side = Buy,
     settlement_limit_price = 12, settlement_quantity = 5, settlement_time_in_force = tif, settlement_expires_at = 99,
     settlement_participant_handle = 1, settlement_dekyx_nullifier = 2, settlement_reservation_id = 6,
     settlement_reservation_limit = 1000, settlement_max_fee = 0,
     settlement_commitment = commitment sample_crypto (service_bid tif)\<rparr>"
    unfolding secret_order_view_def order_view_def by (simp add: service_bid_fields) (simp add: service_bid_def sample_order_def)
  let ?b = "\<lparr>capacities = [((2, 1), 100000000), ((2, 2), 10000)], participant_entities = [(1, 2)],
    entity_participants = [(2, 1)], records = []\<rparr>"
  let ?g = "(sv_settlement sample_service)\<lparr>reservations := ?b\<rparr>"
  have b: "bind_eligible_participant (sv_settlement sample_service) 1 2 = (Inr (), ?g)"
    by (simp add: bind_eligible_participant_def sample_service_def sample_engine_def bind_participant_def
        ReservationBook_default_def sample_account_def opened_balance_def btree_get_def)
  have "\<exists>receipt g2. reserve_order sample_crypto sample_kit 0 ?g (secret_order_view sample_crypto (service_bid tif)) = (Inr receipt, g2)
      \<and> se_height g2 = 1"
    by (simp add: reserve_order_def reserve_order_with_commitment_def ReservationBook_reserve_def v sample_kit_def
        btree_get_def side_kind_def reservation_kind_tag_def in_use_def checked_sum_def checked_add_def Let_def
        sample_service_def sample_engine_def)
  with b that show thesis by blast
qed

section \<open>The components agree\<close>

text \<open>C1. In every state of the service, after any sequence of calls, accepted or refused, on the local and on
  the canonical path: an order is open in the private book with a remaining quantity exactly when the ledger
  holds an active reservation for it with that remaining quantity; the book and the ordering log have admitted
  the same commands and stand at the same sequence; and the book and the ledger are well formed.\<close>

theorem service_components_agree:
  assumes "service_reachable E D market sv"
  shows "(\<forall>c q. (\<exists>r\<in>set (orders (sv_book sv)). rc r = OrderCommitment c \<and> remaining r = q) \<longleftrightarrow>
      active_open (reservations (sv_settlement sv)) c = Some q)
    \<and> admitted (sv_book sv) = log_commitments (oc_log (sv_ordering sv))
    \<and> pb_sequence (sv_book sv) = of_nat (length (certificates (oc_log (sv_ordering sv))))
    \<and> book_ok E (sv_book sv) \<and> ledger_ok (reservations (sv_settlement sv))"
proof -
  note o = service_okD [OF reachable_service_ok [OF assms]]
  show ?thesis
    using book_open_iff [OF book_ok_sides [OF o(2)]] o by (simp add: lockstep_def)
qed

section \<open>Orders and cancellations go through\<close>

lemma submit_resting:
  assumes re: "service_reachable E D market sv" and ex: "expired_commitments (sv_book sv) now = []"
    and o1: "order_ok ord" "time_in_force ord = GoodTilCancelled" "batch_fills (sv_book sv) ord a now = []"
    and sg: "stage_submission E N sv ord a evidence now = (Inr sg, sv1)"
      "bx_fills (sg_book_transition sg) = batch_fills (sv_book sv) ord a now" "sg_settlement_order sg = ord"
  shows "\<exists>x sv'. submit E D N sv ord a evidence now = (Inr x, sv') \<and> service_reachable E D market sv'
    \<and> book_open (sv_book sv') = (book_open (sv_book sv))(commitment_bytes (commitment E ord) \<mapsto> quantity ord)"
proof -
  note ok = reachable_service_ok [OF re]
  from stage_ok [OF ok o1(1) sg(1) [unfolded stage_submission_def]]
  have st: "staged_ok E market (book_open (sv_book sv)) sg" by blast
  have "expire_due E sv now = (Inr None, sv)" using ex by (simp add: expire_due_def)
  moreover have "settle_staged_order E D N sg now = (Inr (None, None), sg_settlement sg)"
    using o1 sg by (simp add: settle_staged_order_def)
  ultimately obtain x where s: "submit E D N sv ord a evidence now = (Inr x, sv1\<lparr>sv_book := sg_book sg,
      sv_ordering := sg_ordering sg, sv_settlement := sg_settlement sg, sv_eligibility := sg_eligibility_verifier sg\<rparr>)"
    using sg by (simp add: submit_def then_run_def)
  moreover have "book_open (sg_book sg) = (book_open (sv_book sv))(commitment_bytes (commitment E ord) \<mapsto> quantity ord)"
    using staged_no_fill(1) [OF st] st o1 sg by (simp add: staged_ok_def Let_def)
  ultimately show ?thesis using service_reachable.submits [OF re o1(1) s] by simp
qed


lemma service_bid_staged:
  obtains sg sv' where "stage_submission sample_crypto sample_env sample_service (service_bid tif)
      (sample_authority (service_bid tif)) (sample_presentation (service_bid tif)) 50 = (Inr sg, sv')"
    "bx_fills (sg_book_transition sg) = []" "sg_settlement_order sg = service_bid tif"
proof -
  obtain g1 receipt g2 where g: "bind_eligible_participant (sv_settlement sample_service) 1 2 = (Inr (), g1)"
    "reserve_order sample_crypto sample_kit 0 g1 (secret_order_view sample_crypto (service_bid tif)) = (Inr receipt, g2)"
    "se_height g2 = 1" by (rule service_bid_reserved)
  note au = sample_authority_ok [OF service_bid_fields(7)]
  note ad = service_bid_admission [of tif]
  have f: "sv_book sample_service = sample_empty" "sv_ordering sample_service = sample_committee sample_crypto"
    "sv_eligibility sample_service = sample_verifier" "en_mpc sample_env = sample_host" "en_dekyx sample_env = sample_dekyx"
    "en_kit sample_env = sample_kit" "en_reserve_blinding sample_env = 0" "admitted sample_empty = {}"
    by (simp_all add: sample_service_def sample_env_def sample_empty_def)
  obtain sg sv' where "stage_submission sample_crypto sample_env sample_service (service_bid tif)
      (sample_authority (service_bid tif)) (sample_presentation (service_bid tif)) 50 = (Inr sg, sv')"
    "bx_fills (sg_book_transition sg) = batch_fills (sv_book sample_service) (service_bid tif) (sample_authority (service_bid tif)) 50"
    "sg_settlement_order sg = service_bid tif"
    by (rule stage_available [OF sample_service_reachable [of sample_defmi] sample_crypto_correct sample_signer_total, of sample_env
          "sort_key dr_key" still_random "service_bid tif" 50 "sample_authority (service_bid tif)"
          "sample_presentation (service_bid tif)" "\<lparr>ve_subject_nullifier = 2, ve_subject_line_id = 1, ve_proof_digest = 1, ve_valid_until = 99\<rparr>"
          _ g1 receipt g2])
       (simp_all add: f sample_host_honest ad au g service_bid_fields)
  with that ad(4) f(1) show thesis by simp
qed

text \<open>The bid rests on the fresh service.\<close>

lemma service_bid_rests:
  obtains x sv where "submit sample_crypto sample_defmi sample_env sample_service (service_bid GoodTilCancelled)
      (sample_authority (service_bid GoodTilCancelled)) (sample_presentation (service_bid GoodTilCancelled)) 50 = (Inr x, sv)"
    "service_reachable sample_crypto sample_defmi [65] sv" "book_open (sv_book sv) 2554 = Some 5"
proof -
  obtain sg sv1 where s: "stage_submission sample_crypto sample_env sample_service (service_bid GoodTilCancelled)
      (sample_authority (service_bid GoodTilCancelled)) (sample_presentation (service_bid GoodTilCancelled)) 50 = (Inr sg, sv1)"
    "bx_fills (sg_book_transition sg) = []" "sg_settlement_order sg = service_bid GoodTilCancelled"
    by (rule service_bid_staged)
  have e: "expired_commitments (sv_book sample_service) 50 = []" "sv_book sample_service = sample_empty"
    by (simp_all add: expired_commitments_def sample_service_def sample_empty_def)
  from submit_resting [OF sample_service_reachable e(1) service_bid_fields(1,6) _ s(1) _ s(3), of sample_defmi]
    s(2) service_bid_admission(4) [of GoodTilCancelled "sample_authority (service_bid GoodTilCancelled)"] that
  show thesis by (auto simp: e(2) service_bid_commitment service_bid_fields)
qed

theorem service_components_agree_witness:
  "\<exists>sv :: sample_consumed OclobService. service_reachable sample_crypto sample_defmi [65] sv
     \<and> (\<exists>r\<in>set (orders (sv_book sv)). rc r = OrderCommitment 2554 \<and> remaining r = 5)
     \<and> active_open (reservations (sv_settlement sv)) 2554 = Some 5"
proof -
  obtain x sv where "submit sample_crypto sample_defmi sample_env sample_service (service_bid GoodTilCancelled)
      (sample_authority (service_bid GoodTilCancelled)) (sample_presentation (service_bid GoodTilCancelled)) 50 = (Inr x, sv)"
    and re: "service_reachable sample_crypto sample_defmi [65] sv" and b: "book_open (sv_book sv) 2554 = Some 5"
    by (rule service_bid_rests)
  from b have "\<exists>r\<in>set (orders (sv_book sv)). rc r = OrderCommitment 2554 \<and> remaining r = 5"
    using book_open_iff [OF book_ok_sides [OF service_okD(2) [OF reachable_service_ok [OF re]]]] by blast
  with service_components_agree [OF re] re show ?thesis by blast
qed


lemma release_available:
  assumes "active_open (reservations g) c = Some q" "se_height g \<noteq> u64_max"
  shows "\<exists>x g'. release_order E g c = (Inr x, g')"
proof -
  have "unat u64_max = 2 ^ 64 - 1" by (simp add: u64_max_def unsigned_minus_1_eq_mask mask_eq_exp_minus_1)
  with assms(2) have "unat (se_height g) \<noteq> 2 ^ 64 - 1" by (auto simp: word_eq_unat)
  with unat_u64_less [of "se_height g"] have "unat (se_height g) + 1 < 2 ^ 64" by simp
  then have "checked_add (se_height g) 1 = Some (se_height g + 1)" by (simp add: checked_add_def)
  with assms(1) show ?thesis
    by (auto simp: release_order_def ReservationBook_release_order_def active_open_def Let_def bind_eq_Some_conv split: if_splits)
qed

lemma cancellation_applies:
  assumes re: "service_reachable E D market sv" and r: "r \<in> set (orders (sv_book sv))" "rc r = sc_target k"
    and d: "cancellation_secret_digest (secret r) = cancellation_digest E (sc_secret k)"
    and fresh: "SecretCancellation_commitment E k \<notin> admitted (sv_book sv)" and seq: "seq = pb_sequence (sv_book sv) + 1"
  obtains tr b where "apply_cancellation E (sv_book sv) k seq = (Inr tr, b)" "cx_released_quantity tr = remaining r"
    "cx_sequence tr = seq" "cx_cancellation_commitment tr = SecretCancellation_commitment E k"
    "sn_market_id (cx_public_after tr) = market"
proof -
  note o = service_okD [OF reachable_service_ok [OF re]]
  from o(2) show thesis
  proof (cases rule: apply_cancellation_cases [of E "sv_book sv" k seq])
    case (Err e)
    with r d fresh seq show thesis by blast
  next
    case (Ok s b1 tr)
    have "distinct (map rc (orders (sv_book sv)))" using book_ok_sides [OF o(2)] by (simp add: sides_ok_def)
    with Ok(3,4) r have "s = r" by (metis distinct_map inj_onD)
    moreover have "cx_public_after tr = public_snapshot E (admit (SecretCancellation_commitment E k) seq b1)"
      using Ok(10) by (auto simp: apply_cancellation_def guarded_ok Let_def split: if_splits)
    moreover have "pb_market_id b1 = market"
      using headerD [of b1 "sv_book sv"] Ok(6) o(4) by (simp add: orders_removed_def lockstep_def)
    ultimately show thesis using that [OF Ok(10)] Ok(7-9) by (simp add: public_snapshot_def Let_def admit_def)
  qed
qed

text \<open>C8. A cancellation goes through. On a reachable service with a correct signer, whoever knows the
  cancellation secret of a resting order can cancel it with any fresh well-formed command: the call succeeds, it
  reports the order's remaining quantity as released, and it closes exactly this order in the book and in the
  ledger. The ledger can never refuse what the book has released.\<close>

theorem service_cancellation_available:
  assumes "service_reachable E D market sv" "hybrid_correct E" "signer_total E"
    and "r \<in> set (orders (sv_book sv))" "rc r = sc_target k"
    and "cancellation_secret_digest (secret r) = cancellation_digest E (sc_secret k)"
    and "SecretCancellation_commitment E k \<notin> admitted (sv_book sv)"
    and "\<not> statement_malformed market (next_sequence (oc_log (sv_ordering sv))) (SecretCancellation_commitment E k)
      (log_head E (oc_log (sv_ordering sv))) (saturating_add now 60) now"
    and "se_height (sv_settlement sv) \<noteq> u64_max"
  shows "\<exists>x sv'. cancel E sv k now = (Inr x, sv') \<and> cx_released_quantity (xc_transition x) = remaining r
    \<and> book_open (sv_book sv') = (book_open (sv_book sv))(commitment_bytes (sc_target k) := None)
    \<and> active_open (reservations (sv_settlement sv')) = book_open (sv_book sv')"
proof -
  note o = service_okD [OF reachable_service_ok [OF assms(1)]]
  obtain t oc where t: "certify E (sv_ordering sv) market (SecretCancellation_commitment E k) (saturating_add now 60) now = (Inr t, oc)"
    and oc: "committee_ok E oc" and t1: "ct_sequence t = pb_sequence (sv_book sv) + 1"
      "ct_commitment t = SecretCancellation_commitment E k" "ct_market_id t = market"
    by (rule service_certifies [OF assms(1-3,7,8)])
  obtain tr b where b: "apply_cancellation E (sv_book sv) k (ct_sequence t) = (Inr tr, b)"
    and tr: "cx_released_quantity tr = remaining r" "cx_sequence tr = ct_sequence t"
      "cx_cancellation_commitment tr = SecretCancellation_commitment E k" "sn_market_id (cx_public_after tr) = market"
    by (rule cancellation_applies [OF assms(1,4-7) t1(1)])
  have "\<exists>st. cancellation_from_transition E t tr = Inr st"
    using tr t1 by (simp add: cancellation_from_transition_def)
  then obtain st where st: "cancellation_from_transition E t tr = Inr st" ..
  obtain as where as: "attest_digest E (cancellation_statement_digest E st) (transition_signers oc) (oc_policy oc) = Inr as"
    "verify_digest E (cancellation_statement_digest E st) as (oc_keys oc) (oc_policy oc) = Inr ()"
    by (rule committee_attests [OF assms(2,3) oc])
  have q: "active_open (reservations (sv_settlement sv)) (commitment_bytes (sc_target k)) = Some (remaining r)"
    using book_open_iff [OF book_ok_sides [OF o(2)], of "commitment_bytes (sc_target k)" "remaining r"] o(5) assms(4,5) by auto
  obtain rel g where rel: "release_order E (sv_settlement sv) (commitment_bytes (sc_target k)) = (Inr rel, g)"
    using release_available [OF q assms(9)] by blast
  obtain x sv' where x: "cancel E sv k now = (Inr x, sv')" "xc_transition x = tr" "sv_settlement sv' = g"
    by (simp add: cancel_def o(1) t b st as CancellationProof_attest_def CancellationProof_verify_def rel)
  note o' = service_okD [OF cancel_ok [OF reachable_service_ok [OF assms(1)] x(1)]]
  from o'(5) release_order_engine_open [OF o(3) rel] o(5) x tr(1) show ?thesis by auto
qed

text \<open>The service on which the bid rests, and its cancellation with the secret 4.\<close>

lemma length_concat_le: "(\<And>x. x \<in> set xs \<Longrightarrow> length (f x) \<le> n) \<Longrightarrow> length (concat (map f xs)) \<le> length xs * n"
  by (induction xs) force+

lemma sample_head_nonzero:
  assumes "certify sample_crypto (sample_committee sample_crypto) [65] c 99 50 = (Inr t, oc)"
  shows "certificate_digest sample_crypto t \<noteq> 0"
proof -
  have t: "t = certificate_for sample_crypto (sample_committee sample_crypto) [65] c 99"
    using sample_crypto_correct sample_signer_total committee_ok_demo [OF sample_committee_demo] assms
    by (cases rule: certify_cases [of sample_crypto "sample_committee sample_crypto" "[65]" c 99 50]) auto
  have "length (vote_encoding (vote_of sample_crypto d n)) \<le> 10000" for d n
    by (simp add: vote_encoding_def vote_of_def try_sign_def sample_crypto_def put_bytes_def PUBLIC_KEY_BYTES_def
        SIGNATURE_MAGIC_def bytes_of_def)
  then have "length (concat (map vote_encoding (sort_key ov_node_id (ct_votes t)))) \<le> length (ct_votes t) * 10000"
    using length_concat_le [of "sort_key ov_node_id (ct_votes t)" vote_encoding 10000]
    by (auto simp: t certificate_for_def Let_def)
  moreover have "length (ct_votes t) \<le> 5" by (simp add: t certificate_for_def Let_def)
  ultimately have "length (concat (map vote_encoding (sort_key ov_node_id (ct_votes t)))) \<le> 50000" by simp
  then have "length (certificate_preimage t) < 2 ^ 64"
    by (simp add: certificate_preimage_def put_bytes_def bytes_of_def) (simp add: t certificate_for_fields)
  then show ?thesis unfolding certificate_digest_def by (rule sample_sha256_nonzero)
qed

definition service_record :: RestingOrder where
  "service_record = \<lparr>secret = service_bid GoodTilCancelled, authority = sample_authority (service_bid GoodTilCancelled),
     remaining = 5, ro_sequence = 1\<rparr>"

lemma service_bid_applied:
  "apply_mpc_batch_result sample_crypto sample_empty (service_bid GoodTilCancelled) (sample_authority (service_bid GoodTilCancelled))
     1 50 (expected_batch (batch_of sample_empty (service_bid GoodTilCancelled) 50)) = (Inr tr, b) \<Longrightarrow>
   orders b = [service_record] \<and> admitted b = {OrderCommitment 2554}"
  by (auto simp: apply_mpc_batch_result_def sample_authority_ok service_bid_fields check_admission_def sample_empty_def
      private_match_batch_of [THEN iffD2, of "service_bid GoodTilCancelled" sample_empty, unfolded sample_empty_def]
      service_bid_batch [unfolded sample_empty_def] service_bid_commitment expected_batch_def rest_arriving_def insert_record_def
      btree_upsert_def btree_get_def admit_def orders_def service_record_def Let_def)

lemma staged_bid_height:
  assumes "stage_submission sample_crypto sample_env sample_service (service_bid tif)
      (sample_authority (service_bid tif)) (sample_presentation (service_bid tif)) 50 = (Inr sg, sv1)"
  shows "se_height (sg_settlement sg) = 1"
proof -
  have f: "sv_eligibility sample_service = sample_verifier" "en_dekyx sample_env = sample_dekyx"
    "en_kit sample_env = sample_kit" "en_reserve_blinding sample_env = 0" by (simp_all add: sample_service_def sample_env_def)
  from assms [unfolded stage_submission_def] obtain verified g1 receipt where
    v: "verify_order sample_dekyx sample_verifier (commitment_bytes (commitment sample_crypto (service_bid tif))) 2 99
      (sample_presentation (service_bid tif)) 50 = (Inr verified, sg_eligibility_verifier sg)"
    and b: "bind_eligible_participant (sv_settlement sample_service) 1 (ve_subject_nullifier verified) = (Inr (), g1)"
    and r: "reserve_order sample_crypto sample_kit 0 g1 (secret_order_view sample_crypto (service_bid tif)) = (Inr receipt, sg_settlement sg)"
    by (rule stage_success) (auto simp: f service_bid_fields)
  have "ve_subject_nullifier verified = 2" using v service_bid_admission(6) [of tif] by auto
  moreover obtain g1' receipt' g2' where "bind_eligible_participant (sv_settlement sample_service) 1 2 = (Inr (), g1')"
    "reserve_order sample_crypto sample_kit 0 g1' (secret_order_view sample_crypto (service_bid tif)) = (Inr receipt', g2')"
    "se_height g2' = 1" by (rule service_bid_reserved)
  ultimately show ?thesis using b r by simp
qed

lemma staged_bid_state:
  assumes "stage_submission sample_crypto sample_env sample_service (service_bid GoodTilCancelled)
      (sample_authority (service_bid GoodTilCancelled)) (sample_presentation (service_bid GoodTilCancelled)) 50 = (Inr sg, sv1)"
  shows "orders (sg_book sg) = [service_record]" "admitted (sg_book sg) = {OrderCommitment 2554}"
    "next_sequence (oc_log (sg_ordering sg)) = 2" "log_head sample_crypto (oc_log (sg_ordering sg)) \<noteq> 0"
    "se_height (sg_settlement sg) = 1"
proof -
  let ?o = "service_bid GoodTilCancelled"
  have f: "sv_book sample_service = sample_empty" "sv_ordering sample_service = sample_committee sample_crypto"
    "sv_market_id sample_service = [65]" "en_kit sample_env = sample_kit" "en_reserve_blinding sample_env = 0"
    "sv_eligibility sample_service = sample_verifier" "en_dekyx sample_env = sample_dekyx"
    by (simp_all add: sample_service_def sample_env_def)
  obtain verified g1 receipt rn mpc where
    "OrderAuthority_verify sample_crypto (sample_authority ?o) ?o 50 = Inr ()"
    and v: "verify_order (en_dekyx sample_env) (sv_eligibility sample_service) (commitment_bytes (commitment sample_crypto ?o))
       (dekyx_nullifier ?o) (expires_at ?o) (sample_presentation ?o) 50 = (Inr verified, sg_eligibility_verifier sg)"
    and b: "bind_eligible_participant (sv_settlement sample_service) (participant_handle ?o) (ve_subject_nullifier verified) = (Inr (), g1)"
    and r: "reserve_order sample_crypto (en_kit sample_env) (en_reserve_blinding sample_env) g1 (secret_order_view sample_crypto ?o)
       = (Inr receipt, sg_settlement sg)"
    and t: "certify sample_crypto (sv_ordering sample_service) (sv_market_id sample_service) (oa_commitment (sample_authority ?o))
       (expires_at ?o) 50 = (Inr (sg_certificate sg), sg_ordering sg)"
    and "execute_batch sample_crypto (en_mpc sample_env) (sv_mpc sample_service) (batch_of (sv_book sample_service) ?o 50) = (Inr mpc, rn)"
    and m: "apply_mpc_batch_result sample_crypto (sv_book sample_service) ?o (sample_authority ?o) (ct_sequence (sg_certificate sg)) 50
       (mb_result mpc) = (Inr (sg_book_transition sg), sg_book sg)"
    and "sg_settlement_order sg = ?o" "sv1 = sample_service\<lparr>sv_mpc := rn\<rparr>"
      "sg_mpc sg = mpc" "sg_reservation sg = receipt" "sg_eligibility sg = verified"
    by (rule stage_success [OF assms [unfolded stage_submission_def]])
  note o = service_okD [OF reachable_service_ok [OF sample_service_reachable]]
  have "pb_sequence (sv_book sample_service) \<noteq> u64_max" "pb_sequence sample_empty = 0"
    by (simp_all add: f sample_empty_def u64_max_def)
  from batch_book_open(5,8) [OF o(2) service_bid_fields(1) this(1) m] this(2) m
  have "apply_mpc_batch_result sample_crypto sample_empty ?o (sample_authority ?o) 1 50 (expected_batch (batch_of sample_empty ?o 50))
      = (Inr (sg_book_transition sg), sg_book sg)" by (simp add: f)
  from service_bid_applied [OF this] show "orders (sg_book sg) = [service_record]" "admitted (sg_book sg) = {OrderCommitment 2554}"
    by blast+
  note t' = t [unfolded f service_bid_fields(7)]
  from certify_success(4) [OF t'] sample_head_nonzero [OF t']
  show "next_sequence (oc_log (sg_ordering sg)) = 2" "log_head sample_crypto (oc_log (sg_ordering sg)) \<noteq> 0"
    by (simp_all add: next_sequence_def log_head_def sample_committee_log)
  show "se_height (sg_settlement sg) = 1" by (rule staged_bid_height [OF assms])
qed

definition service_cancellation :: SecretCancellation where
  "service_cancellation = \<lparr>sc_target = OrderCommitment 2554, sc_secret = 4, sc_nonce = 1, sc_salt = 1\<rparr>"

lemma service_cancellation_fresh:
  "SecretCancellation_commitment sample_crypto service_cancellation \<notin> {OrderCommitment 2554}"
  "commitment_bytes (SecretCancellation_commitment sample_crypto service_cancellation) \<noteq> 0"
  by (simp_all add: SecretCancellation_commitment_def service_cancellation_def sample_sha256 to_be_bytes_def
      be_bytes_numeral bytes_of_def)

theorem service_cancellation_available_witness:
  "\<exists>sv x sv'. service_reachable sample_crypto sample_defmi [65] (sv :: sample_consumed OclobService)
     \<and> active_open (reservations (sv_settlement sv)) 2554 = Some 5
     \<and> cancel sample_crypto sv service_cancellation 60 = (Inr x, sv') \<and> cx_released_quantity (xc_transition x) = 5
     \<and> active_open (reservations (sv_settlement sv')) 2554 = None"
proof -
  obtain sg sv1 where s: "stage_submission sample_crypto sample_env sample_service (service_bid GoodTilCancelled)
      (sample_authority (service_bid GoodTilCancelled)) (sample_presentation (service_bid GoodTilCancelled)) 50 = (Inr sg, sv1)"
    "bx_fills (sg_book_transition sg) = []" "sg_settlement_order sg = service_bid GoodTilCancelled"
    by (rule service_bid_staged)
  obtain x sv where x: "submit sample_crypto sample_defmi sample_env sample_service (service_bid GoodTilCancelled)
      (sample_authority (service_bid GoodTilCancelled)) (sample_presentation (service_bid GoodTilCancelled)) 50 = (Inr x, sv)"
    and re: "service_reachable sample_crypto sample_defmi [65] sv" and b: "book_open (sv_book sv) 2554 = Some 5"
    by (rule service_bid_rests)
  have e: "expire_due sample_crypto sample_service 50 = (Inr None, sample_service)"
    by (simp add: expire_due_def expired_commitments_def sample_service_def sample_empty_def)
  have sv: "sv_book sv = sg_book sg" "sv_ordering sv = sg_ordering sg" "sv_settlement sv = sg_settlement sg"
    using x s by (auto simp: submit_def e then_run_def settle_staged_order_def service_bid_fields)
  note st = staged_bid_state [OF s(1)]
  have r: "rc service_record = OrderCommitment 2554" "remaining service_record = 5"
    "cancellation_secret_digest (secret service_record) = cancellation_digest sample_crypto 4"
    by (simp_all add: service_record_def sample_authority_ok service_bid_fields service_bid_commitment sample_cancellation_digest)
  have "\<exists>x sv'. cancel sample_crypto sv service_cancellation 60 = (Inr x, sv') \<and> cx_released_quantity (xc_transition x) = remaining service_record
    \<and> book_open (sv_book sv') = (book_open (sv_book sv))(commitment_bytes (sc_target service_cancellation) := None)
    \<and> active_open (reservations (sv_settlement sv')) = book_open (sv_book sv')"
    by (rule service_cancellation_available [OF re sample_crypto_correct sample_signer_total])
       (use service_cancellation_fresh in \<open>simp_all add: sv st r statement_malformed_def u64_max_def saturating_add_def checked_add_def,
         simp_all add: service_cancellation_def\<close>)
  moreover have "active_open (reservations (sv_settlement sv)) 2554 = Some 5"
    using service_okD(5) [OF reachable_service_ok [OF re]] b by simp
  ultimately show ?thesis using re r(2) by (auto simp: service_cancellation_def)
qed

section \<open>Refused calls\<close>

text \<open>C14. A refused call changes nothing but the matching runner. When a cancellation, an expiry or the acceptance
  of a prepared submission fails, at whatever step and although staged copies have already moved, the service is
  the one before the call. A failed submission leaves the service with at most its expired orders released, and
  preparing a submission, failed or not, moves the runner only.\<close>

theorem refused_calls_atomic:
  shows "(cancel E sv k now = (Inl e, s) \<longrightarrow> s = sv) \<and> (expire_due E sv now = (Inl e, s) \<longrightarrow> s = sv)
    \<and> (accept E D p sv x = (Inl e, s) \<longrightarrow> s = sv)
    \<and> (submit E D N sv ord a evidence now = (Inl e, s) \<longrightarrow> s = sv \<or>
        (\<exists>y sv1 rn. expire_due E sv now = (Inr y, sv1) \<and> s = sv1\<lparr>sv_mpc := rn\<rparr>))
    \<and> (\<exists>rn. snd (prepare_canonical_submit E D N sv ord a evidence now) = sv\<lparr>sv_mpc := rn\<rparr>)
    \<and> (\<exists>rn. snd (prepare_optimistic_submit E D N C sv ord a evidence now) = sv\<lparr>sv_mpc := rn\<rparr>)"
  by (intro conjI impI prepare_state [unfolded runner_only_def]; (elim cancel_error expire_error accept_error | erule submit_error, blast+))

theorem refused_calls_atomic_witness:
  "cancel sample_crypto sample_service service_cancellation 60 =
     (Inl (Service_Order ''the target order is unknown or already terminal''), sample_service)"
proof -
  obtain e s where c: "cancel sample_crypto sample_service service_cancellation 60 = (Inl e, s)"
    "e = Service_Order ''the target order is unknown or already terminal''"
  proof -
    let ?c = "SecretCancellation_commitment sample_crypto service_cancellation"
    have f: "sv_ordering sample_service = sample_committee sample_crypto" "sv_market_id sample_service = [65]"
      "sv_book sample_service = sample_empty" by (simp_all add: sample_service_def)
    have "\<not> (120 :: u64) < 60" by (simp add: not_less)
    then have wf: "\<not> statement_malformed [65] (next_sequence (oc_log (sv_ordering sample_service))) ?c
        (log_head sample_crypto (oc_log (sv_ordering sample_service))) (saturating_add 60 60) 60"
      using service_cancellation_fresh(2)
      by (simp add: f sample_committee_log statement_malformed_def saturating_add_def checked_add_def)
    have "?c \<notin> admitted (sv_book sample_service)" by (simp add: f sample_empty_def)
    then obtain t oc where t: "certify sample_crypto (sv_ordering sample_service) [65] ?c (saturating_add 60 60) 60 = (Inr t, oc)"
      and "committee_ok sample_crypto oc" and t1: "ct_sequence t = pb_sequence (sv_book sample_service) + 1"
        "ct_commitment t = ?c" "ct_market_id t = [65]"
      by (rule service_certifies [OF sample_service_reachable [of sample_defmi] sample_crypto_correct sample_signer_total _ wf])
    have "apply_cancellation sample_crypto sample_empty service_cancellation (ct_sequence t) = (Inl UnknownOrder, sample_empty)"
      by (simp add: apply_cancellation_def t1 f) (simp add: sample_empty_def find_record_def)
    then show thesis
      using that t by (simp add: cancel_def f order_failed_def OrderError_to_string_def)
  qed
  with refused_calls_atomic [of sample_crypto sample_service service_cancellation 60 e s] show ?thesis by blast
qed

section \<open>Immediate-or-cancel orders\<close>

lemma staged_ioc:
  assumes ok: "service_ok E market sv" and o1: "order_ok ord" "time_in_force ord = ImmediateOrCancel"
    and sg: "stage_with_assurance E N sv ord a evidence now assure = (Inr sg, sv')"
  shows "bx_arriving_remaining (sg_book_transition sg) = 0" "sg_settlement_order sg = ord"
proof -
  obtain verified g1 receipt rn mpc where "OrderAuthority_verify E a ord now = Inr ()"
    "verify_order (en_dekyx N) (sv_eligibility sv) (commitment_bytes (commitment E ord)) (dekyx_nullifier ord)
       (expires_at ord) evidence now = (Inr verified, sg_eligibility_verifier sg)"
    "bind_eligible_participant (sv_settlement sv) (participant_handle ord) (ve_subject_nullifier verified) = (Inr (), g1)"
    "reserve_order E (en_kit N) (en_reserve_blinding N) g1 (secret_order_view E ord) = (Inr receipt, sg_settlement sg)"
    and t: "certify E (sv_ordering sv) (sv_market_id sv) (oa_commitment a) (expires_at ord) now = (Inr (sg_certificate sg), sg_ordering sg)"
    and "execute_batch E (en_mpc N) (sv_mpc sv) (batch_of (sv_book sv) ord now) = (Inr mpc, rn)"
    and m: "apply_mpc_batch_result E (sv_book sv) ord a (ct_sequence (sg_certificate sg)) now (mb_result mpc) =
       (Inr (sg_book_transition sg), sg_book sg)"
    and so: "sg_settlement_order sg = ord" and "sv' = sv\<lparr>sv_mpc := rn\<rparr>"
    "sg_mpc sg = mpc" "sg_reservation sg = receipt" "sg_eligibility sg = verified"
    by (rule stage_success [OF sg])
  note o = service_okD [OF ok]
  show "sg_settlement_order sg = ord" by (rule so)
  from batch_book_open(8,10) [OF o(2) o1(1) lockstep_next(2) [OF o(4) t [unfolded o(1)]] m] o1(2)
  show "bx_arriving_remaining (sg_book_transition sg) = 0"
    by (simp add: expected_batch_def batch_of_def Let_def split_def)
qed

lemma settled_conserves_quantity:
  assumes "settle_batch E D K rnd g fills auth v left now = (Inr x, g')"
  shows "total_filled fills + unat left = unat (settlement_quantity v)"
proof -
  from assms have "local_precheck E g fills auth v left now = Inr ()"
    by (auto simp: settle_batch_def local_staged_def guarded_ok andThen_eq_Inr)
  then obtain filled where "checked_sum (map fill_quantity fills) = Some filled" "checked_add filled left = Some (settlement_quantity v)"
    by (auto simp: local_precheck_def result_ok)
  then show ?thesis by (auto simp: checked_sum_Some total_filled_def comp_def unat_sum_list dest!: checked_add_SomeD)
qed

lemma staged_bid_releases:
  assumes "stage_submission sample_crypto sample_env sample_service (service_bid tif)
      (sample_authority (service_bid tif)) (sample_presentation (service_bid tif)) 50 = (Inr sg, sv1)"
  shows "\<exists>rel g. release_order sample_crypto (sg_settlement sg) (commitment_bytes (commitment sample_crypto (service_bid tif))) = (Inr rel, g)"
proof -
  from stage_ok [OF reachable_service_ok [OF sample_service_reachable] service_bid_fields(1) assms [unfolded stage_submission_def]]
  have st: "staged_ok sample_crypto [65] (book_open (sv_book sample_service)) sg" by blast
  have h: "se_height (sg_settlement sg) = 1" by (rule staged_bid_height [OF assms])
  have so: "sg_settlement_order sg = service_bid tif"
    using assms [unfolded stage_submission_def] by (rule stage_success)
  show ?thesis
    by (rule release_available [where q = "quantity (service_bid tif)"])
       (use st in \<open>simp_all add: staged_ok_def Let_def so h u64_max_def\<close>)
qed

text \<open>C15. An immediate-or-cancel order settles completely or not at all. A submission of such an order that the
  service accepts has no fill or fills for its whole quantity, and a submission it prepares for the canonical
  chain has fills for the whole quantity: matching reports nothing left of the order, and settlement requires
  the fills and the rest to add up to its quantity, so a partial fill is never settled although the ledger has a
  branch that releases the rest of such an order.\<close>

theorem ioc_all_or_nothing:
  assumes "service_reachable E D market sv" "order_ok ord" "time_in_force ord = ImmediateOrCancel"
  shows "(submit E D N sv ord a evidence now = (Inr x, sv') \<longrightarrow>
      bx_fills (xe_book_transition x) = [] \<or> total_filled (bx_fills (xe_book_transition x)) = unat (quantity ord))
    \<and> (prepare_canonical_submit E D N sv ord a evidence now = (Inr p, s') \<longrightarrow>
      total_filled (bx_fills (ps_book_transition p)) = unat (quantity ord))"
proof (intro conjI impI)
  note ok = reachable_service_ok [OF assms(1)]
  have q: "settlement_quantity (secret_order_view E ord) = quantity ord" by (simp add: secret_order_view_def order_view_def)
  show "bx_fills (xe_book_transition x) = [] \<or> total_filled (bx_fills (xe_book_transition x)) = unat (quantity ord)"
    if "submit E D N sv ord a evidence now = (Inr x, sv')"
    using that
  proof (rule submit_success)
    fix expired sv1 sg sv2 y g
    assume e: "expire_due E sv now = (Inr expired, sv1)" and s: "stage_submission E N sv1 ord a evidence now = (Inr sg, sv2)"
      and o: "settle_staged_order E D N sg now = (Inr y, g)" and x: "xe_book_transition x = sg_book_transition sg"
    note i = staged_ioc [OF expire_ok [OF ok e] assms(2,3) s [unfolded stage_submission_def]]
    show ?thesis
    proof (cases "bx_fills (sg_book_transition sg) = []")
      case False
      with o obtain z where "settle_batch E D (en_kit N) (en_fill_random N) (sg_settlement sg) (bx_fills (sg_book_transition sg))
          (JointProof (sg_verified_transition sg)) (secret_order_view E ord) 0 now = (Inr z, g)"
        by (auto simp: settle_staged_order_def map_sum_eq_Inr Let_def i split: prod.splits)
      from settled_conserves_quantity [OF this] q x show ?thesis by simp
    qed (simp add: x)
  qed
  show "total_filled (bx_fills (ps_book_transition p)) = unat (quantity ord)"
    if "prepare_canonical_submit E D N sv ord a evidence now = (Inr p, s')"
  proof -
    from that obtain sg where s: "stage_with_assurance E N sv ord a evidence now (joint_assurance E) = (Inr sg, s')"
      and p: "prepare_staged E D N JointProof s' sg now = Inr p"
      by (auto simp: prepare_canonical_submit_def guarded_ok then_run_ok stage_submission_def)
    note i = staged_ioc [OF ok assms(2,3) s]
    from p assms(3) have t: "ps_book_transition p = sg_book_transition sg" and "\<exists>c. prepare_canonical_admission_batch E D (en_kit N)
        (en_fill_random N) (en_issue N) (sv_settlement s') (sg_settlement sg) (sg_reservation sg) (bx_fills (sg_book_transition sg))
        (JointProof (sg_verified_transition sg)) (sg_certificate sg) (secret_order_view E ord) 0 now = Inr c"
      unfolding prepare_staged_def Let_def result_ok i by auto
    then obtain z c where "settle_batch E D (en_kit N) (en_fill_random N) (sg_settlement sg) (bx_fills (sg_book_transition sg))
        (JointProof (sg_verified_transition sg)) (secret_order_view E ord) 0 now = (Inr z, c)"
      using admission_candidate by blast
    from settled_conserves_quantity [OF this] q t show ?thesis by simp
  qed
qed

theorem ioc_all_or_nothing_witness:
  "\<exists>x sv'. submit sample_crypto sample_defmi sample_env sample_service (service_bid ImmediateOrCancel)
      (sample_authority (service_bid ImmediateOrCancel)) (sample_presentation (service_bid ImmediateOrCancel)) 50 = (Inr x, sv')
    \<and> (bx_fills (xe_book_transition x) = [] \<or> total_filled (bx_fills (xe_book_transition x)) = 5)
    \<and> xe_reservation_release x \<noteq> None"
proof -
  let ?o = "service_bid ImmediateOrCancel"
  obtain sg sv1 where s: "stage_submission sample_crypto sample_env sample_service ?o (sample_authority ?o)
      (sample_presentation ?o) 50 = (Inr sg, sv1)"
    "bx_fills (sg_book_transition sg) = []" "sg_settlement_order sg = ?o"
    by (rule service_bid_staged)
  have e: "expire_due sample_crypto sample_service 50 = (Inr None, sample_service)"
    by (simp add: expire_due_def expired_commitments_def sample_service_def sample_empty_def)
  obtain rel g where rel: "release_order sample_crypto (sg_settlement sg) (commitment_bytes (commitment sample_crypto ?o)) = (Inr rel, g)"
    using staged_bid_releases [OF s(1)] by blast
  obtain x sv' where x: "submit sample_crypto sample_defmi sample_env sample_service ?o (sample_authority ?o)
      (sample_presentation ?o) 50 = (Inr x, sv')" "xe_reservation_release x = Some rel"
    using s rel by (simp add: submit_def e then_run_def settle_staged_order_def service_bid_fields)
  with ioc_all_or_nothing [OF sample_service_reachable service_bid_fields(1,6), of sample_defmi sample_env]
  show ?thesis by (fastforce simp: service_bid_fields)
qed

section \<open>The queue worker\<close>

lemma recorded_state [simp]: "snd (snd (recorded out x dq s)) = s"
  by (simp add: recorded_def)

lemma dispatch_state:
  "snd (snd (dispatch_with E D J B dq exec e now s)) = (case envelope_decode E J (ce_signed_request e) of
     Inl _ \<Rightarrow> s | Inr (ord, a, evidence) \<Rightarrow> snd (exec ord a evidence now s))"
proof (cases "envelope_decode E J (ce_signed_request e)")
  case (Inr y)
  obtain ord a evidence where y: "y = (ord, a, evidence)" by (rule prod_cases3)
  obtain r s' where x: "exec ord a evidence now s = (r, s')" by (cases rule: prod.exhaust)
  show ?thesis
  proof (cases r)
    case (Inl err)
    then show ?thesis by (cases err) (simp_all add: dispatch_with_def Let_def \<open>_ = Inr y\<close> y x)
  qed (simp add: dispatch_with_def Let_def \<open>_ = Inr y\<close> y x split_def)
qed (simp add: dispatch_with_def Let_def)

lemma dispatch_reachable:
  assumes "service_reachable E D market sv"
  shows "service_reachable E D market (snd (snd (dispatch_with E D J B dq
    (\<lambda>ord a evidence now sv. submit E D N sv ord a evidence now) e now sv)))"
proof (cases "envelope_decode E J (ce_signed_request e)")
  case (Inr y)
  obtain ord a evidence where y: "y = (ord, a, evidence)" by (rule prod_cases3)
  from Inr have "order_ok ord" by (auto simp: y envelope_decode_def result_ok secret_wire_exact)
  from service_reachable.submits [OF assms this, of N a evidence now "fst (submit E D N sv ord a evidence now)"
      "snd (submit E D N sv ord a evidence now)"]
  show ?thesis by (simp add: dispatch_state Inr y)
qed (simp add: dispatch_state assms)

lemma pump_state:
  "snd (snd (pump E D J B N dq sv now healthy)) = (case fst (claim_next B (dq_outbox dq) now healthy (dq_retry_after_seconds dq)) of
     Inr (Some (QueueDispatch e)) \<Rightarrow> snd (snd (dispatch_with E D J B
       (dq\<lparr>dq_outbox := snd (claim_next B (dq_outbox dq) now healthy (dq_retry_after_seconds dq))\<rparr>)
       (\<lambda>ord a evidence now sv. submit E D N sv ord a evidence now) e now sv))
   | _ \<Rightarrow> sv)"
  by (simp add: pump_def pump_with_def split_def Let_def split: sum.split option.split QueueAction.split)

lemma pump_cover_state:
  "snd (snd (pump_cover_slot E D J B N dq sv now healthy interval)) =
     (let c = claim_cover_slot B (dq_outbox dq) now healthy (dq_retry_after_seconds dq) interval in
      case fst c of Inr (Some slot) \<Rightarrow> (case cv_action slot of
          CoverReal e \<Rightarrow> snd (snd (dispatch_with E D J B (dq\<lparr>dq_outbox := snd c\<rparr>)
            (\<lambda>ord a evidence now sv. submit E D N sv ord a evidence now) e now sv))
        | _ \<Rightarrow> sv) | _ \<Rightarrow> sv)"
  by (simp add: pump_cover_slot_def split_def Let_def split: sum.split option.split CoverAction.split)


lemma envelope_roundtrip:
  assumes codec: "\<And>v bs. envelope_to_vec J v = Inr bs \<Longrightarrow> envelope_from_slice J bs = Inr v"
    and "order_ok ord" "utf8_valid (market_id ord)" "oa_commitment a = commitment E ord"
    and "envelope_encode J ord a evidence = Inr bytes"
  shows "envelope_decode E J bytes = Inr (ord, a, evidence)"
proof -
  from assms(5) codec have "envelope_from_slice J bytes = Inr \<lparr>qe_version = QUEUED_SUBMISSION_VERSION,
      qe_order_wire = to_secret_wire ord, qe_authority = a, qe_eligibility = evidence\<rparr>"
    by (auto simp: envelope_encode_def map_err_eq_Inr)
  moreover have "from_secret_wire (to_secret_wire ord) = Inr ord" using assms(2,3) by (simp add: secret_wire_exact)
  ultimately show ?thesis using assms(4) by (simp add: envelope_decode_def)
qed


text \<open>An outbox of one entry and a codec of one envelope: the resting bid goes through the queue.\<close>

definition service_envelope :: QueuedSubmissionEnvelope where
  "service_envelope = \<lparr>qe_version = QUEUED_SUBMISSION_VERSION, qe_order_wire = to_secret_wire (service_bid GoodTilCancelled),
     qe_authority = sample_authority (service_bid GoodTilCancelled),
     qe_eligibility = sample_presentation (service_bid GoodTilCancelled)\<rparr>"

definition sample_codec :: envelope_codec where
  "sample_codec = \<lparr>envelope_to_vec = (\<lambda>v. if v = service_envelope then Inr [1] else Inl ''other envelope''),
     envelope_from_slice = (\<lambda>bs. if bs = [1] then Inr service_envelope else Inl ''malformed'')\<rparr>"

definition sample_outbox :: "ClaimedEntry list outbox_host" where
  "sample_outbox = \<lparr>outbox_new = (\<lambda>_ _ _ _. Inr []), initialize_if_missing = (\<lambda>q. (Inr (), q)),
     enqueue_first_seen = (\<lambda>q i bs _ _. (Inr (Enqueued (of_nat (length q))),
       q @ [\<lparr>ce_request_id = i, ce_request_digest = sha256 sample_crypto bs, ce_signed_request = bs\<rparr>])),
     claim_next = (\<lambda>q _ _ _. (Inr (case q of [] \<Rightarrow> None | e # _ \<Rightarrow> Some (QueueDispatch e)), q)),
     claim_cover_slot = (\<lambda>q _ _ _ _. (Inr None, q)), record_pre_reserve_abort = (\<lambda>q _ _ _. (Inr (), tl q)),
     mark_manual_review = (\<lambda>q _ _ _ _. (Inr (), tl q)), record_settlement = (\<lambda>q _ _ _. (Inr (), tl q))\<rparr>"

definition sample_queue :: "ClaimedEntry list DurableOclobQueue" where
  "sample_queue = \<lparr>dq_outbox = [], dq_defmi_network_id = [1], dq_retry_after_seconds = 5\<rparr>"

lemma service_bid_queued:
  obtains receipt e dq where "enqueue sample_crypto sample_defmi sample_codec sample_outbox sample_queue (service_bid GoodTilCancelled)
      (sample_authority (service_bid GoodTilCancelled)) (sample_presentation (service_bid GoodTilCancelled)) 50 = (Inr receipt, dq)"
    "dq_outbox dq = [e]" "envelope_encode sample_codec (service_bid GoodTilCancelled) (sample_authority (service_bid GoodTilCancelled))
      (sample_presentation (service_bid GoodTilCancelled)) = Inr (ce_signed_request e)"
    "claim_next sample_outbox (dq_outbox dq) 50 True (dq_retry_after_seconds dq) = (Inr (Some (QueueDispatch e)), [e])"
proof -
  have en: "envelope_encode sample_codec (service_bid GoodTilCancelled) (sample_authority (service_bid GoodTilCancelled))
      (sample_presentation (service_bid GoodTilCancelled)) = Inr [1]"
    by (simp add: envelope_encode_def sample_codec_def service_envelope_def)
  let ?e = "\<lparr>ce_request_id = hex_encode sample_defmi (commitment_bytes (commitment sample_crypto (service_bid GoodTilCancelled))),
    ce_request_digest = sha256 sample_crypto [1], ce_signed_request = [1]\<rparr>"
  have "\<exists>receipt. enqueue sample_crypto sample_defmi sample_codec sample_outbox sample_queue (service_bid GoodTilCancelled)
      (sample_authority (service_bid GoodTilCancelled)) (sample_presentation (service_bid GoodTilCancelled)) 50
        = (Inr receipt, sample_queue\<lparr>dq_outbox := [?e]\<rparr>)"
    by (simp add: enqueue_def en sample_authority_ok service_bid_fields sample_outbox_def sample_queue_def Let_def)
  then show thesis using en that [of _ "sample_queue\<lparr>dq_outbox := [?e]\<rparr>" ?e] by (auto simp: sample_outbox_def)
qed



end
