(* ===== verification/Spec2Isabelle.thy ===== *)
theory Spec2Isabelle
  imports Service_Properties
begin

text \<open>
  A verification development of OCLOB, an order book whose orders stay secret. It covers the parts of the Rust
  workspace under \<open>src/rust\<close> that decide what happens to an order.

  \<^bold>\<open>The program.\<close> An order is a secret with a public commitment and a signed authority (\<open>oclob-core\<close>). The service
  (\<open>oclob-service\<close>) checks the credential of its owner (\<open>oclob-dekyx\<close>), reserves the owner's assets
  (\<open>oclob-settlement\<close>), has a committee of seven nodes order the commitment in a hash-chained log
  (\<open>oclob-ordering\<close>), hands the order and at most eight live opposite orders to a matching circuit run by seven
  parties (\<open>oclob-mpc\<close>), applies the result to the private book (\<open>oclob-core\<close>), has the committee attest the
  transition (\<open>oclob-proofs\<close>) and settles the fills as delivery against payment, locally or in two phases through
  a canonical chain. A queue stores signed requests while the parties are unavailable.

  \<^bold>\<open>How the code is modelled.\<close> \<open>u64\<close> and the other machine integers are words, a 32-byte digest is a 256-bit word,
  a Rust string is a list of bytes and a \<open>BTreeMap\<close> is a sorted association list. A \<open>Result\<close> is a sum with the
  error on the left; every early return is a branch. A method on \<open>&mut self\<close> returns its result with the state it
  leaves, so what a failure leaves behind is part of the model. An \<open>expect\<close> that would abort is the error \<open>Panic\<close>.
  All loops are structural recursions over lists, so no fuel is used; the only bound is the eight slots of the
  circuit, \<open>MAX_MATCH_SLOTS\<close>, which is the code's own.

  Code that is not in the workspace is a parameter: SHA-256 and the hybrid signature (\<open>crypto\<close>), the confidential
  ledger, proof verifiers and finality check (\<open>defmi\<close>), the builders of the local settlement (\<open>dvp_kit\<close>), the
  issuance of reservation instructions (\<open>zkpi_issue\<close>), the dispute protocol (\<open>optimistic_host\<close>,
  \<open>optimistic_client\<close>), the credential package (\<open>dekyx_host\<close>), the party processes (\<open>mpc_host\<close>), the outbox and
  the JSON codec (\<open>outbox_host\<close>, \<open>envelope_codec\<close>). What a theorem needs of them is a named hypothesis:
  \<open>hybrid_correct\<close> (a signature made under a key verifies), \<open>signer_total\<close>, \<open>honest_mesh\<close> (the parties run the
  circuit), \<open>ledger_conserved\<close> and the like. The byte-sum hash, the accepting ledger and the other \<open>sample_\<close>
  definitions instantiate them in the witnesses.

  \<^bold>\<open>Prelude.\<close> \<open>Oclob_Prelude\<close> has the result operations, checked arithmetic, ordered maps (locale \<open>ordered_map\<close>)
  and the shared lemmas; \<open>Core_Wire\<close> the byte cursor and the locale \<open>wire_codec\<close> of encoders with their decoders;
  \<open>Sequenced\<close> the locale \<open>sequenced_ledger\<close> of ledgers that take numbered commands once, interpreted for the book
  and for the ordering log; \<open>Quorum\<close> the locale \<open>quorum_system\<close>, interpreted for the committee.

  \<^bold>\<open>Orders.\<close> \<open>Application_Crypto\<close> (\<open>oclob-core/src/application_crypto.rs\<close>) and \<open>Orders\<close> (\<open>oclob-core/src/lib.rs\<close>):
  construction, market rules, wire format, commitments and authorities. The wire format is an exact bijection on
  valid orders, commitments are binding up to a hash collision and signature envelopes are closed.

  \<^bold>\<open>Matching and book.\<close> \<open>Matching\<close> has the reference transition \<open>expected_batch\<close>, \<open>Private_Book\<close> every operation of
  \<open>PrivateBook\<close>. \<open>Book_Structure\<close>, \<open>Book_Steps\<close>, \<open>Book_Operations\<close> and \<open>Book_Machine\<close> give the invariant, the effect of
  one step, of one operation and reachability; \<open>Book_Properties\<close> and \<open>Book_Priority\<close> show the invariant, atomicity,
  conservation of quantity, price-time priority, exact cancellation and expiry, and that the eight slots lose
  nothing within the declared capacity.

  \<^bold>\<open>Circuit.\<close> \<open>Mpc_Circuit\<close> and \<open>Mpc_Depth\<close> model the generated program wire by wire, \<open>Mpc_Runner\<close> and \<open>Mpc_Output\<close> the
  runner, the printed text and its parser; \<open>Mpc_Refinement\<close> and \<open>Mpc_Types\<close> show that a round returns the reference
  transition, already with one honest party, and that the wires stay in their ranges.

  \<^bold>\<open>Ordering and proofs.\<close> \<open>Ordering\<close>, \<open>Ordering_Properties\<close> and \<open>Ordering_Log\<close> (\<open>oclob-ordering\<close>): votes, certificates,
  the log and the committee; certificates agree under two corrupt nodes and the log is a gap-free chain.
  \<open>Transition_Proofs\<close>, \<open>Proof_Properties\<close> and \<open>Optimistic\<close> (\<open>oclob-proofs\<close>): statements, attestations, bindings and the
  optimistic authorization.

  \<^bold>\<open>Settlement.\<close> \<open>Reservations\<close> and \<open>Reservation_Ledger\<close>: the ledger and its invariant. \<open>Collaborative\<close>, \<open>Settlement\<close> and
  \<open>Local_Settlement\<close>: the engine with its two kinds of batches; \<open>Canonical_Transitions\<close>: the two-phase path.
  \<open>Settlement_Properties\<close>, \<open>Settlement_Safety\<close> and \<open>Canonical_Safety\<close> show that reserved amounts are covered, batches
  conserve assets, fills within the committed terms are payable and a canonical state is consumed once.

  \<^bold>\<open>Service.\<close> \<open>Eligibility\<close>, \<open>Service\<close> and \<open>Submission_Queue\<close> (\<open>oclob-dekyx\<close>, \<open>oclob-service\<close>): every call of the service
  and of the queue. \<open>Open_Orders\<close> relates the open orders of the book and of the ledger; \<open>Service_Invariant\<close>,
  \<open>Service_Machine\<close> and \<open>Service_Liveness\<close> give the invariant over all calls and when calls succeed;
  \<open>Service_Properties\<close> states the properties: the components agree in every reachable state, refused calls are
  atomic, admissible orders and authorised cancellations go through, queue workers are safe.

  \<^bold>\<open>What the proofs showed of the code.\<close> \<open>apply_expiry\<close> removes orders before the overflow of its total is detected.
  A partially filled immediate-or-cancel order never settles, because matching reports a rest of zero for it while
  settlement requires fills and rest to add up. The settlement height is written before the finality check.

  \<^bold>\<open>Not modelled.\<close> The participant edge and the node crate (\<open>oclob-edge\<close>, \<open>oclob-node\<close>): secret sharing and encryption
  by other packages, files, sockets, subprocesses and remote reads. The adapters to the ledger service
  (\<open>native.rs\<close>, \<open>pretrade.rs\<close>, \<open>avalanche.rs\<close>, \<open>oclob-avalanche-vm\<close>): assembly of messages for services outside the
  workspace. Compiling the circuit and starting the parties (\<open>MpcRunner::compile\<close>, the service mesh): process I/O.
  The demo credential issuer and wallet, the demonstration and acceptance programs, the browser code. Timing,
  persistence and concurrency: the service is a sequential state machine behind one mutable reference.
\<close>

section \<open>The engine and the book\<close>

text \<open>C6. The whole matching round. On a reachable book whose live orders are within the circuit's bounds,
  for an order the book admits, the batch handed to an engine that runs the circuit comes back as a receipt,
  and the book accepts the result of that receipt: the transition carries the fills of price-time priority over
  the live opposite orders and the resulting book is again reachable.\<close>

theorem matching_round:
  assumes "book_reachable E b" "order_ok ord" "accepted E b ord a seq now" "pb_sequence b \<noteq> u64_max"
    and "private_match_batch b ord now = Inr batch" "batch_bounded batch" "honest_mesh host sort_rows rnd"
  shows "\<exists>rcp rn' tr b'. execute_batch E host rn batch = (Inr rcp, rn')
    \<and> apply_mpc_batch_result E b ord a seq now (mb_result rcp) = (Inr tr, b')
    \<and> bx_fills tr = batch_fills b ord a now \<and> book_reachable E b'"
proof -
  have ok: "book_ok E b" by (rule reachable_book_ok [OF assms(1)])
  have batch: "batch = batch_of b ord now"
    using assms(5) by (auto simp: private_match_batch_def batch_of_def split: if_splits)
  obtain rn' where r: "execute_batch E host rn batch = (Inr (round_receipt E rn (expected_batch batch)), rn')"
    by (rule honest_round [OF assms(7,6)]) (simp add: batch batch_of_priority [OF book_ok_sides [OF ok]])
  have res: "mb_result (round_receipt E rn (expected_batch batch)) = expected_batch batch"
    by (simp add: round_receipt_def)
  from ok obtain tr b' where t: "apply_mpc_batch_result E b ord a seq now (expected_batch batch) = (Inr tr, b')"
      "bx_fills tr = batch_fills b ord a now"
  proof (cases rule: apply_mpc_batch_result_cases [of E b ord a seq now "expected_batch batch"])
    case (Err e)
    with assms(3) batch show thesis by blast
  next
    case (Ok b1 tr)
    from that [OF Ok(7,4)] show thesis .
  qed
  have "run_command E b seq (MatchBatch ord a now (expected_batch batch)) = (Inr (), b')"
    using t(1) by (simp add: run_command_def)
  from reachable_step_ok [OF assms(1) _ assms(4) this] have "book_reachable E b'"
    using assms(2) by (simp add: command_ok_def)
  with r t res show ?thesis by (metis (no_types, lifting))
qed

theorem matching_round_witness:
  "\<exists>rcp rn' tr b'. execute_batch sample_crypto sample_host sample_runner (batch_of sample_book2 sample_bid 50)
       = (Inr rcp, rn')
     \<and> apply_mpc_batch_result sample_crypto sample_book2 sample_bid (sample_authority sample_bid) 3 50 (mb_result rcp)
       = (Inr tr, b') \<and> length (bx_fills tr) = 2"
proof -
  have a: "accepted sample_crypto sample_book2 sample_bid (sample_authority sample_bid) 3 50"
    by (simp add: accepted_def sample_authority_ok(3) sample_fields check_admission_def sample_book2_def
        sample_commitments)
  have m: "private_match_batch sample_book2 sample_bid 50 = Inr (batch_of sample_book2 sample_bid 50)"
    by (simp add: private_match_batch_def batch_of_def sample_book2_def sample_fields)
  have "batch_bounded (batch_of sample_book2 sample_bid 50)"
    by (simp add: batch_bounded_def batch_of_def sample_live2 MAX_MATCH_SLOTS_def resting_input_def sample_records2
        sample_fields sample_ask2_fields u32_max_def)
  from matching_round [OF sample_book2_reachable sample_orders_ok(2) a sample_sequence2 m this sample_host_honest,
      of sample_runner] show ?thesis
    by (auto simp: sample_fills2)
qed

end
